(* ===== verification/Prelude.thy ===== *)
theory Prelude
  imports Main "HOL-Library.Word" "HOL-Library.Multiset" "HOL-Library.Sublist"
begin

text \<open>
  Shared vocabulary of the development: the result type of code that may throw, the
  operations of JavaScript arrays and byte arrays that the sources use (\<open>slice\<close>,
  \<open>set\<close>, \<open>splice\<close>, \<open>indexOf\<close>), lists of records keyed by an identifier (what React state
  holds), and reachability of step relations with the generic invariant rule.
\<close>

named_theorems js_defs \<open>definitions of the JavaScript library functions, for unfolding\<close>
named_theorems js_array \<open>laws of the JavaScript array operations\<close>

subsection \<open>Code that may throw\<close>

text \<open>A thrown exception is the left injection, a returned value the right one.\<close>

definition bindE :: "'e + 'a \<Rightarrow> ('a \<Rightarrow> 'e + 'b) \<Rightarrow> 'e + 'b" where
  "bindE m f = (case m of Inl e \<Rightarrow> Inl e | Inr x \<Rightarrow> f x)"

definition guardE :: "bool \<Rightarrow> 'e \<Rightarrow> 'e + unit" where
  "guardE ok e = (if ok then Inr () else Inl e)"

fun isOk :: "'e + 'a \<Rightarrow> bool" where
  "isOk (Inl e) = False"
| "isOk (Inr x) = True"

subsection \<open>JavaScript arrays\<close>

type_synonym byte = "8 word"
type_synonym bytes = "byte list"

text \<open>\<open>xs.slice(a, b)\<close> and \<open>xs.slice(a)\<close> for non-negative bounds: both clip at the end.\<close>

definition slice :: "'a list \<Rightarrow> nat \<Rightarrow> nat \<Rightarrow> 'a list" where
  "slice xs a b = take (b - a) (drop a xs)"

definition sliceFrom :: "'a list \<Rightarrow> nat \<Rightarrow> 'a list" where
  "sliceFrom xs a = drop a xs"

text \<open>\<open>new Uint8Array(n)\<close>; and \<open>dst.set(src, off)\<close>, which throws a RangeError (\<open>None\<close>)
  when the source does not fit.\<close>

definition newUint8Array :: "nat \<Rightarrow> bytes" where
  "newUint8Array n = replicate n 0"

definition u8_set :: "'a list \<Rightarrow> 'a list \<Rightarrow> nat \<Rightarrow> 'a list option" where
  "u8_set dst src off =
     (if off + length src \<le> length dst
      then Some (take off dst @ src @ drop (off + length src) dst) else None)"

text \<open>An element store \<open>xs[i] = v\<close> on a typed array: ignored out of range.\<close>

definition u8_store :: "'a list \<Rightarrow> nat \<Rightarrow> 'a \<Rightarrow> 'a list" where
  "u8_store xs i v = (if i < length xs then xs[i := v] else xs)"

text \<open>\<open>xs[i]\<close>: \<open>undefined\<close> out of range.\<close>

definition js_nth :: "'a list \<Rightarrow> nat \<Rightarrow> 'a option" where
  "js_nth xs i = (if i < length xs then Some (xs ! i) else None)"

text \<open>\<open>xs.indexOf(x)\<close>: \<open>None\<close> stands for -1.\<close>

fun indexOf :: "'a list \<Rightarrow> 'a \<Rightarrow> nat option" where
  "indexOf [] y = None"
| "indexOf (x # xs) y = (if x = y then Some 0 else map_option Suc (indexOf xs y))"

text \<open>\<open>xs.splice(i, 1)\<close> (what remains) and \<open>xs.splice(i, 0, v)\<close>.\<close>

definition splice_remove :: "'a list \<Rightarrow> nat \<Rightarrow> 'a list" where
  "splice_remove xs i = take i xs @ drop (Suc i) xs"

definition splice_insert :: "'a list \<Rightarrow> nat \<Rightarrow> 'a \<Rightarrow> 'a list" where
  "splice_insert xs i v = take i xs @ [v] @ drop i xs"

text \<open>The idiom \<open>xs.splice(to, 0, xs.splice(from, 1)[0])\<close>.\<close>

definition splice_move :: "'a list \<Rightarrow> nat \<Rightarrow> nat \<Rightarrow> 'a list" where
  "splice_move xs from to = splice_insert (splice_remove xs from) to (xs ! from)"

subsection \<open>Reachability of step relations\<close>

inductive reach :: "('s \<Rightarrow> bool) \<Rightarrow> ('s \<Rightarrow> 's \<Rightarrow> bool) \<Rightarrow> 's \<Rightarrow> bool"
  for init :: "'s \<Rightarrow> bool" and step :: "'s \<Rightarrow> 's \<Rightarrow> bool" where
  reach_init: "init s \<Longrightarrow> reach init step s"
| reach_step: "reach init step s \<Longrightarrow> step s t \<Longrightarrow> reach init step t"

subsection \<open>Laws of the result type\<close>

lemma bindE_simps [simp]:
  "bindE (Inl e) f = Inl e"
  "bindE (Inr x) f = f x"
  by (simp_all add: bindE_def)

lemma bindE_Inr_iff: "bindE m f = Inr y \<longleftrightarrow> (\<exists>x. m = Inr x \<and> f x = Inr y)"
  by (cases m) auto

lemma bindE_Inl_iff: "bindE m f = Inl e \<longleftrightarrow> m = Inl e \<or> (\<exists>x. m = Inr x \<and> f x = Inl e)"
  by (cases m) auto

lemma guardE_simps [simp]:
  "guardE True e = Inr ()"
  "guardE False e = Inl e"
  by (simp_all add: guardE_def)

lemma guardE_Inr_iff [simp]: "guardE b e = Inr u \<longleftrightarrow> b"
  by (simp add: guardE_def)

lemma guardE_Inl_iff [simp]: "guardE b e = Inl e' \<longleftrightarrow> \<not> b \<and> e = e'"
  by (auto simp: guardE_def)

lemma isOk_iff: "isOk r \<longleftrightarrow> (\<exists>x. r = Inr x)"
  by (cases r) auto

subsection \<open>Bytes\<close>

lemma unat_byte [simp]: "unat (b :: byte) < 256"
  using unsigned_less [of b] by simp

lemma uint_byte [simp]: "uint (b :: byte) < 256"
proof -
  have "int (unat b) < int 256" using unat_byte [of b] by (rule of_nat_less_iff [THEN iffD2])
  then show ?thesis by simp
qed

lemma unat_byte_le [simp]: "unat (b :: byte) \<le> 255"
  using unat_byte [of b] by linarith

subsection \<open>Laws of the array operations\<close>

lemma length_slice [simp]: "length (slice xs a b) = min (b - a) (length xs - a)"
  by (simp add: slice_def min.commute)

lemma slice_append_left [js_array]:
  "length xs = a \<Longrightarrow> length ys = b - a \<Longrightarrow> slice (xs @ ys @ zs) a b = ys"
  by (simp add: slice_def)

lemma slice_nth: "i < b - a \<Longrightarrow> a + i < length xs \<Longrightarrow> slice xs a b ! i = xs ! (a + i)"
  by (simp add: slice_def)

lemma length_newUint8Array [simp]: "length (newUint8Array n) = n"
  by (simp add: newUint8Array_def)

lemma u8_set_length: "u8_set dst src off = Some d \<Longrightarrow> length d = length dst"
  by (auto simp: u8_set_def split: if_splits)

lemma u8_set_fits: "off + length src \<le> length dst \<Longrightarrow>
    u8_set dst src off = Some (take off dst @ src @ drop (off + length src) dst)"
  by (simp add: u8_set_def)

lemma append_sep_inj:
  "c \<notin> set x \<Longrightarrow> c \<notin> set y \<Longrightarrow> x @ c # r = y @ c # s \<Longrightarrow> x = y \<and> r = s"
  by (induction x arbitrary: y) (auto simp: Cons_eq_append_conv append_eq_Cons_conv)

lemma js_nth_mem: "js_nth xs n = Some x \<Longrightarrow> x \<in> set xs"
  by (auto simp: js_nth_def split: if_splits)

lemma indexOf_None: "indexOf xs y = None \<longleftrightarrow> y \<notin> set xs"
  by (induction xs) auto

lemma indexOf_Some: "indexOf xs y = Some i \<Longrightarrow> i < length xs \<and> xs ! i = y"
proof (induction xs arbitrary: i)
  case (Cons x xs)
  then show ?case by (cases "x = y") auto
qed simp

lemma indexOf_distinct: "distinct xs \<Longrightarrow> i < length xs \<Longrightarrow> indexOf xs (xs ! i) = Some i"
proof (induction xs arbitrary: i)
  case (Cons x xs)
  then show ?case by (cases i) (auto simp: nth_mem)
qed simp

lemma mset_splice_remove: "i < length xs \<Longrightarrow> add_mset (xs ! i) (mset (splice_remove xs i)) = mset xs"
proof -
  assume i: "i < length xs"
  have "mset xs = mset (take i xs @ xs ! i # drop (Suc i) xs)"
    using i by (simp add: id_take_nth_drop [symmetric])
  then show ?thesis by (simp add: splice_remove_def)
qed

lemma mset_splice_insert: "mset (splice_insert xs i v) = add_mset v (mset xs)"
proof -
  have "mset xs = mset (take i xs @ drop i xs)" by simp
  then show ?thesis
    by (simp add: splice_insert_def del: append_take_drop_id)
qed

lemma mset_splice_move [js_array]: "from < length xs \<Longrightarrow> mset (splice_move xs from to) = mset xs"
  by (simp add: splice_move_def mset_splice_insert mset_splice_remove)

lemma length_splice_remove [simp]: "i < length xs \<Longrightarrow> length (splice_remove xs i) = length xs - 1"
  by (simp add: splice_remove_def)

lemma length_splice_move [simp]: "from < length xs \<Longrightarrow> length (splice_move xs from to) = length xs"
  using mset_splice_move by (metis size_mset)

lemma splice_move_nth: "from < length xs \<Longrightarrow> to < length xs \<Longrightarrow> splice_move xs from to ! to = xs ! from"
  by (simp add: splice_move_def splice_insert_def nth_append)

lemma splice_move_self: "i < length xs \<Longrightarrow> splice_move xs i i = xs"
  by (simp add: splice_move_def splice_insert_def splice_remove_def min_def
        id_take_nth_drop [symmetric])

lemma distinct_mset_eq: "mset xs = mset ys \<Longrightarrow> distinct xs \<longleftrightarrow> distinct ys"
  by (metis distinct_count_atmost_1 count_mset mset_eq_setD set_mset_mset)

subsection \<open>The invariant rule\<close>

locale invariant_system =
  fixes init :: "'s \<Rightarrow> bool"
    and step :: "'s \<Rightarrow> 's \<Rightarrow> bool"
    and inv :: "'s \<Rightarrow> bool"
  assumes inv_init: "init s \<Longrightarrow> inv s"
    and inv_step: "inv s \<Longrightarrow> step s t \<Longrightarrow> inv t"
begin

lemma reachable_inv: "reach init step s \<Longrightarrow> inv s"
  by (induction rule: reach.induct) (auto intro: inv_init inv_step)

lemma reachable_implies: "reach init step s \<Longrightarrow> (\<And>s. inv s \<Longrightarrow> P s) \<Longrightarrow> P s"
  using reachable_inv by blast

end

end
