(* ===== verification/JsText.thy ===== *)
theory JsText
  imports Prelude
begin

text \<open>
  JavaScript text. A string is a list of UTF-16 code units; spreading a string walks its
  code points (a surrogate pair is one item); \<open>TextEncoder\<close> produces UTF-8 with lone
  surrogates replaced by U+FFFD; \<open>trim\<close> removes the white space and line terminators of
  the ECMAScript standard. The Unicode tables behind \<open>toLowerCase\<close> are not reproduced:
  the definitions that lower-case take the function as an argument, and \<open>asciiLower\<close> is
  its restriction to ASCII.
\<close>

type_synonym code_unit = "16 word"
type_synonym jsstring = "code_unit list"

definition js :: "string \<Rightarrow> jsstring" where
  "js s = map of_char s"

subsection \<open>Code points\<close>

definition isHighSurrogate :: "code_unit \<Rightarrow> bool" where
  "isHighSurrogate u \<longleftrightarrow> 0xD800 \<le> u \<and> u \<le> 0xDBFF"

definition isLowSurrogate :: "code_unit \<Rightarrow> bool" where
  "isLowSurrogate u \<longleftrightarrow> 0xDC00 \<le> u \<and> u \<le> 0xDFFF"

text \<open>\<open>[...s]\<close>: one string per code point.\<close>

fun spread :: "jsstring \<Rightarrow> jsstring list" where
  "spread [] = []"
| "spread [u] = [[u]]"
| "spread (u # v # us) =
     (if isHighSurrogate u \<and> isLowSurrogate v then [u, v] # spread us
      else [u] # spread (v # us))"

definition codePointOf :: "jsstring \<Rightarrow> nat" where
  "codePointOf c =
     (case c of
        [u] \<Rightarrow> if isHighSurrogate u \<or> isLowSurrogate u then 0xFFFD else unat u
      | [h, l] \<Rightarrow> 0x10000 + (unat h - 0xD800) * 0x400 + (unat l - 0xDC00)
      | _ \<Rightarrow> 0xFFFD)"

subsection \<open>TextEncoder\<close>

definition utf8_cp :: "nat \<Rightarrow> bytes" where
  "utf8_cp n =
     (if n < 0x80 then [word_of_nat n]
      else if n < 0x800 then [word_of_nat (0xC0 + n div 0x40), word_of_nat (0x80 + n mod 0x40)]
      else if n < 0x10000 then
        [word_of_nat (0xE0 + n div 0x1000), word_of_nat (0x80 + n div 0x40 mod 0x40),
         word_of_nat (0x80 + n mod 0x40)]
      else
        [word_of_nat (0xF0 + n div 0x40000), word_of_nat (0x80 + n div 0x1000 mod 0x40),
         word_of_nat (0x80 + n div 0x40 mod 0x40), word_of_nat (0x80 + n mod 0x40)])"

definition textEncode :: "jsstring \<Rightarrow> bytes" where
  "textEncode s = concat (map (utf8_cp \<circ> codePointOf) (spread s))"

subsection \<open>trim and lower case\<close>

definition isWhiteSpace :: "code_unit \<Rightarrow> bool" where
  "isWhiteSpace u \<longleftrightarrow>
     u \<in> {0x09, 0x0A, 0x0B, 0x0C, 0x0D, 0x20, 0xA0, 0x1680, 0x2028, 0x2029, 0x202F, 0x205F,
          0x3000, 0xFEFF} \<or> (0x2000 \<le> u \<and> u \<le> 0x200A)"

definition trim :: "jsstring \<Rightarrow> jsstring" where
  "trim s = rev (dropWhile isWhiteSpace (rev (dropWhile isWhiteSpace s)))"

definition asciiLowerUnit :: "code_unit \<Rightarrow> code_unit" where
  "asciiLowerUnit u = (if 65 \<le> u \<and> u \<le> 90 then u + 32 else u)"

definition asciiUpperUnit :: "code_unit \<Rightarrow> code_unit" where
  "asciiUpperUnit u = (if 97 \<le> u \<and> u \<le> 122 then u - 32 else u)"

definition asciiLower :: "jsstring \<Rightarrow> jsstring" where
  "asciiLower s = map asciiLowerUnit s"

definition asciiUpper :: "jsstring \<Rightarrow> jsstring" where
  "asciiUpper s = map asciiUpperUnit s"

text \<open>\<open>xs.join(sep)\<close>.\<close>

fun join :: "jsstring \<Rightarrow> jsstring list \<Rightarrow> jsstring" where
  "join sep [] = []"
| "join sep [x] = x"
| "join sep (x # y # ys) = x @ sep @ join sep (y # ys)"

text \<open>The decimal text of an integer.\<close>

fun natDigits :: "nat \<Rightarrow> nat list" where
  "natDigits n = (if n < 10 then [n] else natDigits (n div 10) @ [n mod 10])"

declare natDigits.simps [simp del]

definition showNat :: "nat \<Rightarrow> jsstring" where
  "showNat n = map (\<lambda>d. 48 + word_of_nat d) (natDigits n)"

definition showInt :: "int \<Rightarrow> jsstring" where
  "showInt i = (if i < 0 then [45] else []) @ showNat (nat \<bar>i\<bar>)"

subsection \<open>Laws\<close>

lemma natDigits_value: "foldl (\<lambda>v d. v * 10 + d) 0 (natDigits n) = n \<and> list_all (\<lambda>d. d < 10) (natDigits n)"
proof (induction n rule: natDigits.induct)
  case (1 n)
  then show ?case by (subst natDigits.simps, subst (2) natDigits.simps) simp
qed

lemma js_Nil [simp]: "js [] = []"
  by (simp add: js_def)

lemma js_Cons: "js (c # cs) = of_char c # js cs"
  by (simp add: js_def)

lemma js_append [simp]: "js (a @ b) = js a @ js b"
  by (simp add: js_def)

lemma length_js [simp]: "length (js s) = length s"
  by (simp add: js_def)

lemma js_eq_Nil_iff [simp]: "js s = [] \<longleftrightarrow> s = []"
  by (simp add: js_def)

lemma of_char_16_inj: "(of_char c :: code_unit) = of_char d \<longleftrightarrow> c = d"
proof
  assume eq: "(of_char c :: code_unit) = of_char d"
  have cd: "(of_char c :: nat) < 256" "(of_char d :: nat) < 256"
    by simp_all
  have "unat (of_char c :: code_unit) = of_char c" for c :: char
  proof -
    have "(of_char c :: code_unit) = word_of_nat (of_char c)"
      by (simp add: of_nat_of_char)
    moreover have "(of_char c :: nat) < 2 ^ 16"
      by (rule less_le_trans [OF nat_of_char_less_256]) simp
    ultimately show ?thesis
      by (simp add: unat_of_nat take_bit_nat_eq_self)
  qed
  then have "(of_char c :: nat) = of_char d"
    using eq by metis
  then show "c = d" by simp
qed simp

lemma js_inj [simp]: "js a = js b \<longleftrightarrow> a = b"
proof
  have "inj (of_char :: char \<Rightarrow> code_unit)"
    by (rule injI) (simp add: of_char_16_inj)
  then show "js a = js b \<Longrightarrow> a = b"
    by (simp add: js_def inj_map_eq_map)
qed simp

lemma join_Cons: "xs \<noteq> [] \<Longrightarrow> join sep (x # xs) = x @ sep @ join sep xs"
  by (cases xs) simp_all

lemma concat_spread: "concat (spread s) = s"
  by (induction s rule: spread.induct) auto

lemma spread_nonempty: "c \<in> set (spread s) \<Longrightarrow> c \<noteq> []"
  by (induction s rule: spread.induct) (auto split: if_splits)

lemma length_spread_le: "length (spread s) \<le> length s"
  by (induction s rule: spread.induct) auto

lemma length_spread_ge: "length s \<le> 2 * length (spread s)"
  by (induction s rule: spread.induct) auto

lemma spread_plain: "\<forall>u\<in>set s. \<not> isHighSurrogate u \<Longrightarrow> spread s = map (\<lambda>u. [u]) s"
  by (induction s rule: spread.induct) auto

lemma spread_shape:
  "c \<in> set (spread s) \<Longrightarrow>
     (\<exists>u. c = [u]) \<or> (\<exists>h l. c = [h, l] \<and> isHighSurrogate h \<and> isLowSurrogate l)"
  by (induction s rule: spread.induct) (auto split: if_splits)

lemma length_utf8_cp: "1 \<le> length (utf8_cp n) \<and> length (utf8_cp n) \<le> 4"
  by (simp add: utf8_cp_def)

lemma codePointOf_single_bound: "codePointOf [u] < 0x10000"
proof -
  have "unat u < 2 ^ 16" using unsigned_less [of u] by simp
  then show ?thesis by (simp add: codePointOf_def)
qed

text \<open>A code point written as one code unit takes at most three bytes, a surrogate pair four:
  never more than three bytes per code unit.\<close>

lemma utf8_per_code_unit:
  assumes "c \<in> set (spread s)"
  shows "length c \<le> length (utf8_cp (codePointOf c)) \<and> length (utf8_cp (codePointOf c)) \<le> 3 * length c"
  using spread_shape [OF assms]
proof (elim disjE exE conjE)
  fix u assume "c = [u]"
  then show ?thesis
    using codePointOf_single_bound [of u] by (simp add: utf8_cp_def)
next
  fix h l assume c: "c = [h, l]" and "isHighSurrogate h" "isLowSurrogate l"
  have "0x10000 \<le> codePointOf c" by (simp add: c codePointOf_def)
  then show ?thesis by (simp add: c utf8_cp_def)
qed

lemma length_textEncode:
  "length s \<le> length (textEncode s) \<and> length (textEncode s) \<le> 3 * length s"
proof -
  have "length (concat cs) \<le> length (concat (map (utf8_cp \<circ> codePointOf) cs)) \<and>
      length (concat (map (utf8_cp \<circ> codePointOf) cs)) \<le> 3 * length (concat cs)"
    if "set cs \<subseteq> set (spread s)" for cs
    using that
  proof (induction cs)
    case (Cons c cs)
    then show ?case using utf8_per_code_unit [of c s] by auto
  qed simp
  from this [of "spread s"] show ?thesis
    by (simp add: textEncode_def concat_spread)
qed

lemma textEncode_ascii:
  assumes "\<forall>u\<in>set s. u < 0x80"
  shows "textEncode s = map ucast s"
proof -
  have plain: "\<not> isHighSurrogate u \<and> \<not> isLowSurrogate u" if "u < 0x80" for u
  proof -
    have "unat u < 0x80" using that by (simp add: word_less_nat_alt)
    then show ?thesis by (simp add: isHighSurrogate_def isLowSurrogate_def word_le_nat_alt)
  qed
  have one: "utf8_cp (codePointOf [u]) = [ucast u]" if "u < 0x80" for u
  proof -
    have "unat u < 0x80" using that by (simp add: word_less_nat_alt)
    then show ?thesis using plain [OF that]
      by (simp add: codePointOf_def utf8_cp_def unsigned_ucast_eq word_eq_iff_unsigned)
  qed
  have "spread s = map (\<lambda>u. [u]) s"
    using assms plain by (intro spread_plain) auto
  then have "textEncode s = concat (map (\<lambda>u. utf8_cp (codePointOf [u])) s)"
    by (simp add: textEncode_def comp_def)
  also have "\<dots> = map ucast s"
    using assms one by (induction s) auto
  finally show ?thesis .
qed

lemma trim_idem_Nil [simp]: "trim [] = []"
  by (simp add: trim_def)

lemma set_trim: "set (trim s) \<subseteq> set s"
  by (auto simp: trim_def dest!: set_dropWhileD)

lemma length_trim_le: "length (trim s) \<le> length s"
  by (metis length_dropWhile_le length_rev order_trans trim_def)

lemma trim_ends:
  assumes "trim s \<noteq> []"
  shows "\<not> isWhiteSpace (hd (trim s)) \<and> \<not> isWhiteSpace (last (trim s))"
proof -
  let ?d = "dropWhile isWhiteSpace s"
  let ?r = "dropWhile isWhiteSpace (rev ?d)"
  from assms have r: "?r \<noteq> []" by (simp add: trim_def)
  then have last: "\<not> isWhiteSpace (last (trim s))"
    by (simp add: trim_def last_rev hd_dropWhile)
  have d: "?d \<noteq> []" using r by (metis dropWhile.simps(1) rev.simps(1))
  obtain ws where ws: "rev ?d = ws @ ?r"
    by (metis takeWhile_dropWhile_id)
  then have "last ?r = last (rev ?d)" using r by (metis last_appendR)
  then have "hd (trim s) = hd ?d" using d by (simp add: trim_def hd_rev last_rev)
  then show ?thesis using last d by (simp add: hd_dropWhile)
qed

lemma trim_id: "s \<noteq> [] \<Longrightarrow> \<not> isWhiteSpace (hd s) \<Longrightarrow> \<not> isWhiteSpace (last s) \<Longrightarrow> trim s = s"
  by (simp add: trim_def dropWhile_eq_self_iff [THEN iffD2] hd_rev)

lemma trim_idem [simp]: "trim (trim s) = trim s"
  using trim_ends trim_id by (cases "trim s = []") auto

lemma asciiLowerUnit_idem [simp]: "asciiLowerUnit (asciiLowerUnit u) = asciiLowerUnit u"
proof (cases "65 \<le> u \<and> u \<le> 90")
  case True
  then have "unat u \<ge> 65" "unat u \<le> 90" by (simp_all add: word_le_nat_alt)
  then have "unat (u + 32) = unat u + 32" by (simp add: unat_word_ariths)
  then have "\<not> u + 32 \<le> 90" using \<open>65 \<le> unat u\<close> by (simp add: word_le_nat_alt)
  with True show ?thesis by (simp add: asciiLowerUnit_def)
qed (auto simp: asciiLowerUnit_def)

lemma asciiLower_idem [simp]: "asciiLower (asciiLower s) = asciiLower s"
  by (simp add: asciiLower_def)

end
