(* ===== verification/Encoding.thy ===== *)
theory Encoding
  imports JsText "HOL-Library.While_Combinator"
begin

text \<open>
  Base64 (\<open>web/src/lib/crypto/encoding.ts\<close>): the platform functions \<open>btoa\<close> and \<open>atob\<close>
  (forgiving base64 decoding of the HTML standard) and the five wrappers around them. The
  interface the rest of the program relies on is the locale \<open>byte_codec\<close>: decoding what was
  encoded gives the bytes back.
\<close>

datatype base64_error = InvalidCharacterError

subsection \<open>btoa\<close>

definition b64char :: "nat \<Rightarrow> code_unit" where
  "b64char n =
     (if n < 26 then word_of_nat (65 + n) else if n < 52 then word_of_nat (71 + n)
      else if n < 62 then word_of_nat (n - 4) else if n = 62 then 43 else 47)"

abbreviation pad :: code_unit where "pad \<equiv> 61"

fun b64enc :: "nat list \<Rightarrow> jsstring" where
  "b64enc [] = []"
| "b64enc [a] = [b64char (a div 4), b64char (a mod 4 * 16), pad, pad]"
| "b64enc [a, b] = [b64char (a div 4), b64char (a mod 4 * 16 + b div 16), b64char (b mod 16 * 4), pad]"
| "b64enc (a # b # c # rest) =
     [b64char (a div 4), b64char (a mod 4 * 16 + b div 16), b64char (b mod 16 * 4 + c div 64),
      b64char (c mod 64)] @ b64enc rest"

definition btoa :: "jsstring \<Rightarrow> base64_error + jsstring" where
  "btoa s = (if \<exists>u\<in>set s. 255 < u then Inl InvalidCharacterError else Inr (b64enc (map unat s)))"

subsection \<open>atob\<close>

definition b64val :: "code_unit \<Rightarrow> nat option" where
  "b64val u =
     (if 65 \<le> u \<and> u \<le> 90 then Some (unat u - 65)
      else if 97 \<le> u \<and> u \<le> 122 then Some (unat u - 71)
      else if 48 \<le> u \<and> u \<le> 57 then Some (unat u + 4)
      else if u = 43 then Some 62 else if u = 47 then Some 63 else None)"

definition isAsciiWhitespace :: "code_unit \<Rightarrow> bool" where
  "isAsciiWhitespace u \<longleftrightarrow> u \<in> {0x09, 0x0A, 0x0C, 0x0D, 0x20}"

text \<open>When the length is a multiple of four, one or two trailing \<open>=\<close> are removed.\<close>

definition stripPadding :: "jsstring \<Rightarrow> jsstring" where
  "stripPadding s =
     (if length s mod 4 = 0 \<and> s \<noteq> [] \<and> last s = pad
      then (if butlast s \<noteq> [] \<and> last (butlast s) = pad then butlast (butlast s) else butlast s)
      else s)"

fun b64dec :: "nat list \<Rightarrow> nat list" where
  "b64dec (w # x # y # z # rest) =
     [w * 4 + x div 16, x mod 16 * 16 + y div 4, y mod 4 * 64 + z] @ b64dec rest"
| "b64dec [w, x, y] = [w * 4 + x div 16, x mod 16 * 16 + y div 4]"
| "b64dec [w, x] = [w * 4 + x div 16]"
| "b64dec _ = []"

definition atob :: "jsstring \<Rightarrow> base64_error + jsstring" where
  "atob s =
     (let t = stripPadding (filter (\<lambda>u. \<not> isAsciiWhitespace u) s)
      in if length t mod 4 = 1 \<or> (\<exists>u\<in>set t. b64val u = None) then Inl InvalidCharacterError
         else Inr (map word_of_nat (b64dec (map (the \<circ> b64val) t))))"

subsection \<open>encoding.ts\<close>

definition fromCharCodes :: "bytes \<Rightarrow> jsstring" where
  "fromCharCodes data = map ucast data"

definition charCodes :: "jsstring \<Rightarrow> bytes" where
  "charCodes s = map ucast s"

definition encodeBase64 :: "bytes \<Rightarrow> base64_error + jsstring" where
  "encodeBase64 data = btoa (fromCharCodes data)"

definition decodeBase64 :: "jsstring \<Rightarrow> base64_error + bytes" where
  "decodeBase64 encoded = bindE (atob encoded) (\<lambda>binary. Inr (charCodes binary))"

definition replaceUnit :: "code_unit \<Rightarrow> code_unit \<Rightarrow> jsstring \<Rightarrow> jsstring" where
  "replaceUnit a b s = map (\<lambda>u. if u = a then b else u) s"

definition stripTrailingPad :: "jsstring \<Rightarrow> jsstring" where
  "stripTrailingPad s = rev (dropWhile (\<lambda>u. u = pad) (rev s))"

definition encodeBase64URL :: "bytes \<Rightarrow> base64_error + jsstring" where
  "encodeBase64URL data =
     bindE (btoa (fromCharCodes data))
       (\<lambda>base64. Inr (stripTrailingPad (replaceUnit 47 95 (replaceUnit 43 45 base64))))"

text \<open>The loop \<open>while (base64.length % 4) base64 += '='\<close>.\<close>

function padLoop :: "jsstring \<Rightarrow> jsstring" where
  "padLoop s = (if length s mod 4 \<noteq> 0 then padLoop (s @ [pad]) else s)"
  by pat_completeness auto
termination
proof (relation "measure (\<lambda>s. (4 - length s mod 4) mod 4)")
  fix s :: jsstring
  assume "length s mod 4 \<noteq> 0"
  then have "length s mod 4 = 1 \<or> length s mod 4 = 2 \<or> length s mod 4 = 3" by arith
  then have "(4 - Suc (length s) mod 4) mod 4 < (4 - length s mod 4) mod 4"
    by (elim disjE) (simp_all add: mod_Suc)
  then show "(s @ [pad], s) \<in> measure (\<lambda>s. (4 - length s mod 4) mod 4)" by simp
qed simp

declare padLoop.simps [simp del]

definition decodeBase64URL :: "jsstring \<Rightarrow> base64_error + bytes" where
  "decodeBase64URL encoded =
     bindE (atob (padLoop (replaceUnit 95 47 (replaceUnit 45 43 encoded))))
       (\<lambda>binary. Inr (charCodes binary))"

text \<open>The loop that stores \<open>binary.charCodeAt(i)\<close> at \<open>i\<close>, from \<open>i\<close> on.\<close>

function storeCodes :: "jsstring \<Rightarrow> nat \<Rightarrow> bytes \<Rightarrow> bytes" where
  "storeCodes binary i out =
     (if i < length binary then storeCodes binary (Suc i) (u8_store out i (ucast (binary ! i))) else out)"
  by pat_completeness auto
termination
  by (relation "measure (\<lambda>(binary, i, out). length binary - i)") auto

declare storeCodes.simps [simp del]

definition base64ToArrayBuffer :: "jsstring \<Rightarrow> base64_error + bytes" where
  "base64ToArrayBuffer base64 =
     bindE (atob base64) (\<lambda>binary. Inr (storeCodes binary 0 (newUint8Array (length binary))))"

subsection \<open>The interface: an encoder with a decoder\<close>

locale byte_codec =
  fixes enc :: "'a \<Rightarrow> 'e + 'b"
    and dec :: "'b \<Rightarrow> 'e + 'a"
    and valid :: "'a \<Rightarrow> bool"
  assumes enc_total: "valid x \<Longrightarrow> \<exists>y. enc x = Inr y"
    and dec_enc: "valid x \<Longrightarrow> enc x = Inr y \<Longrightarrow> dec y = Inr x"
begin

lemma roundtrip: "valid x \<Longrightarrow> bindE (enc x) dec = Inr x"
  using enc_total dec_enc by fastforce

lemma enc_inj: "valid x \<Longrightarrow> valid x' \<Longrightarrow> enc x = enc x' \<Longrightarrow> x = x'"
  using enc_total dec_enc by (metis sum.inject(2))

end

subsection \<open>Laws of the alphabet\<close>

lemma b64val_b64char [simp]:
  assumes "n < 64" shows "b64val (b64char n) = Some n"
proof -
  have "list_all (\<lambda>n. b64val (b64char n) = Some n) [0..<64]" by code_simp
  then show ?thesis using assms by (simp add: list_all_iff)
qed

lemma b64char_ok [simp]:
  assumes "n < 64"
  shows "b64char n \<noteq> pad" "\<not> isAsciiWhitespace (b64char n)" "b64char n \<noteq> 45" "b64char n \<noteq> 95"
proof -
  have "list_all (\<lambda>n. b64char n \<noteq> pad \<and> \<not> isAsciiWhitespace (b64char n) \<and> b64char n \<noteq> 45 \<and>
      b64char n \<noteq> 95) [0..<64]" by code_simp
  then show "b64char n \<noteq> pad" "\<not> isAsciiWhitespace (b64char n)" "b64char n \<noteq> 45" "b64char n \<noteq> 95"
    using assms by (simp_all add: list_all_iff)
qed

lemma sextet_bounds [simp]:
  "a < 256 \<Longrightarrow> a div 4 < 64"
  "a mod 4 * 16 < 64" "b < 256 \<Longrightarrow> a mod 4 * 16 + b div 16 < 64"
  "b mod 16 * 4 < 64" "c < 256 \<Longrightarrow> b mod 16 * 4 + c div 64 < 64" "c mod 64 < (64::nat)"
  for a b c :: nat
proof -
  have m: "a mod 4 < 4" "b mod 16 < 16" by simp_all
  from m show "a < 256 \<Longrightarrow> a div 4 < 64" "a mod 4 * 16 < 64" "b mod 16 * 4 < 64"
    by linarith+
  show "b < 256 \<Longrightarrow> a mod 4 * 16 + b div 16 < 64" using m(1) by linarith
  show "c < 256 \<Longrightarrow> b mod 16 * 4 + c div 64 < 64" using m(2) by linarith
  show "c mod 64 < (64::nat)" by simp
qed

text \<open>What an encoding is made of: sextets of the alphabet, then at most two \<open>=\<close>, the whole a
  multiple of four.\<close>

fun sextets :: "nat list \<Rightarrow> nat list" where
  "sextets [] = []"
| "sextets [a] = [a div 4, a mod 4 * 16]"
| "sextets [a, b] = [a div 4, a mod 4 * 16 + b div 16, b mod 16 * 4]"
| "sextets (a # b # c # rest) =
     [a div 4, a mod 4 * 16 + b div 16, b mod 16 * 4 + c div 64, c mod 64] @ sextets rest"

definition padCount :: "nat \<Rightarrow> nat" where
  "padCount n = (3 - n mod 3) mod 3"

lemma padCount_add3 [simp]: "padCount (Suc (Suc (Suc n))) = padCount n"
  by (simp add: padCount_def mod_Suc)

lemma b64enc_sextets: "b64enc bs = map b64char (sextets bs) @ replicate (padCount (length bs)) pad"
  by (induction bs rule: sextets.induct) (auto simp: padCount_def numeral_2_eq_2)

lemma length_sextets: "length (sextets bs) + padCount (length bs) = 4 * ((length bs + 2) div 3)"
proof (induction bs rule: sextets.induct)
  case (4 a b c rest)
  have "(5 + length rest) div 3 = Suc (Suc (Suc (length rest)) div 3)" by presburger
  with 4 show ?case by simp
qed (simp_all add: padCount_def)

lemma sextets_lt: "\<forall>b\<in>set bs. b < 256 \<Longrightarrow> \<forall>n\<in>set (sextets bs). n < 64"
  by (induction bs rule: sextets.induct) auto

lemma byte_split:
  fixes a b c :: nat
  shows "a < 256 \<Longrightarrow> b < 256 \<Longrightarrow> a div 4 * 4 + (a mod 4 * 16 + b div 16) div 16 = a"
    and "b < 256 \<Longrightarrow> c < 256 \<Longrightarrow> (a mod 4 * 16 + b div 16) mod 16 * 16 + (b mod 16 * 4 + c div 64) div 4 = b"
    and "c < 256 \<Longrightarrow> (b mod 16 * 4 + c div 64) mod 4 * 64 + c mod 64 = c"
proof -
  assume b: "b < 256"
  then have b16: "b div 16 < 16" by linarith
  show "a div 4 * 4 + (a mod 4 * 16 + b div 16) div 16 = a" using b16 by simp
  assume c: "c < 256"
  then have c4: "c div 64 < 4" by linarith
  have "(a mod 4 * 16 + b div 16) mod 16 = b div 16" using b16 by simp
  moreover have "(b mod 16 * 4 + c div 64) div 4 = b mod 16" using c4 by simp
  ultimately show "(a mod 4 * 16 + b div 16) mod 16 * 16 + (b mod 16 * 4 + c div 64) div 4 = b"
    by simp
next
  assume c: "c < 256"
  then have c4: "c div 64 < 4" by linarith
  then have "(b mod 16 * 4 + c div 64) mod 4 = c div 64" by simp
  then show "(b mod 16 * 4 + c div 64) mod 4 * 64 + c mod 64 = c" by simp
qed

lemma b64dec_sextets: "\<forall>b\<in>set bs. b < 256 \<Longrightarrow> b64dec (sextets bs) = bs"
proof (induction bs rule: sextets.induct)
  case (2 a)
  then show ?case by simp
next
  case (3 a b)
  then show ?case
    using byte_split(1) [of a b] byte_split(2) [of b 0 a] by simp
next
  case (4 a b c rest)
  then show ?case
    using byte_split(1) [of a b] byte_split(2) [of b c a] byte_split(3) [of c b] by simp
qed simp


subsection \<open>Encoding never fails\<close>

lemma unat_ucast_byte [simp]: "unat (ucast (b :: byte) :: code_unit) = unat b"
proof -
  have "unat b < 2 ^ 16" by (rule less_trans [OF unat_byte]) simp
  then show ?thesis by (simp add: unsigned_ucast_eq take_bit_nat_eq_self)
qed

lemma ucast_byte_le [simp]: "\<not> 255 < (ucast (b :: byte) :: code_unit)"
  by (simp add: word_less_nat_alt not_less)

lemma btoa_bytes: "btoa (fromCharCodes data) = Inr (b64enc (map unat data))"
  by (auto simp: btoa_def fromCharCodes_def comp_def)

lemma unat_byte_lt [simp]: "\<forall>b\<in>set (map unat (data :: bytes)). b < 256"
  by simp

lemma charCodes_word_of_nat: "charCodes (map word_of_nat (map unat data)) = data"
proof -
  have "ucast (word_of_nat (unat b) :: code_unit) = b" for b :: byte
    by (rule word_unat_eq_iff [THEN iffD2])
      (simp add: unsigned_ucast_eq unsigned_of_nat take_bit_word_eq_self)
  then show ?thesis by (simp add: charCodes_def comp_def)
qed

subsection \<open>Decoding what was encoded\<close>

lemma last_b64char:
  "\<forall>n\<in>set ns. n < 64 \<Longrightarrow> map b64char ns \<noteq> [] \<Longrightarrow> last (map b64char ns) \<noteq> pad"
  by (simp add: last_map)

lemma stripPadding_pad:
  assumes ns: "\<forall>n\<in>set ns. n < 64" and k: "k \<le> 2" and len: "(length ns + k) mod 4 = 0"
  shows "stripPadding (map b64char ns @ replicate k pad) = map b64char ns"
proof -
  consider "k = 0" | "k = 1" | "k = 2" using k by linarith
  then show ?thesis
  proof cases
    case 1
    then show ?thesis using last_b64char [OF ns] by (auto simp: stripPadding_def)
  next
    case 2
    then show ?thesis using len last_b64char [OF ns] by (auto simp: stripPadding_def)
  next
    case 3
    then show ?thesis using len by (simp add: stripPadding_def numeral_2_eq_2 butlast_append)
  qed
qed

lemma atob_pad:
  assumes ns: "\<forall>n\<in>set ns. n < 64" and k: "k \<le> 2" and len: "(length ns + k) mod 4 = 0"
  shows "atob (map b64char ns @ replicate k pad) = Inr (map word_of_nat (b64dec ns))"
proof -
  let ?s = "map b64char ns @ replicate k pad"
  have "filter (\<lambda>u. \<not> isAsciiWhitespace u) ?s = ?s"
    using ns by (auto simp: filter_id_conv isAsciiWhitespace_def [of pad])
  moreover have "length ns mod 4 \<noteq> 1" using k len by presburger
  moreover have "map (the \<circ> b64val) (map b64char ns) = ns"
    using ns by (simp add: map_idI)
  ultimately show ?thesis
    using ns stripPadding_pad [OF assms] by (auto simp: atob_def Let_def)
qed

lemma padCount_le [simp]: "padCount n \<le> 2"
  by (simp add: padCount_def)

lemma atob_b64enc:
  assumes "\<forall>b\<in>set bs. b < 256"
  shows "atob (b64enc bs) = Inr (map word_of_nat bs)"
proof -
  have "(length (sextets bs) + padCount (length bs)) mod 4 = 0"
    by (simp add: length_sextets)
  then show ?thesis
    using assms by (simp add: b64enc_sextets atob_pad sextets_lt b64dec_sextets)
qed

lemma padLoop_eq: "padLoop s = s @ replicate ((4 - length s mod 4) mod 4) pad"
proof (induction s rule: padLoop.induct)
  case (1 s)
  show ?case
  proof (cases "length s mod 4 = 0")
    case True
    then show ?thesis by (simp add: padLoop.simps [of s])
  next
    case False
    then have "length s mod 4 = 1 \<or> length s mod 4 = 2 \<or> length s mod 4 = 3" by arith
    then have "Suc ((4 - Suc (length s) mod 4) mod 4) = (4 - length s mod 4) mod 4"
      by (elim disjE) (simp_all add: mod_Suc)
    then have "pad # replicate ((4 - Suc (length s) mod 4) mod 4) pad =
        replicate ((4 - length s mod 4) mod 4) pad"
      by (metis replicate_Suc)
    with 1 False show ?thesis by (simp add: padLoop.simps [of s])
  qed
qed

lemma stripTrailingPad_append:
  "last s \<noteq> pad \<Longrightarrow> s \<noteq> [] \<Longrightarrow> stripTrailingPad (s @ replicate k pad) = s"
proof -
  assume "last s \<noteq> pad" "s \<noteq> []"
  moreover have "dropWhile (\<lambda>u. u = pad) (replicate k pad @ rev s) = dropWhile (\<lambda>u. u = pad) (rev s)"
    by (rule dropWhile_append2) (simp split: if_splits)
  ultimately show ?thesis
    by (simp add: stripTrailingPad_def dropWhile_eq_self_iff [THEN iffD2] hd_rev)
qed

lemma stripTrailingPad_replicate: "stripTrailingPad (replicate k pad) = []"
  by (simp add: stripTrailingPad_def)

definition urlUnit :: "code_unit \<Rightarrow> code_unit" where
  "urlUnit u = (if u = 43 then 45 else if u = 47 then 95 else u)"

lemma replace_url: "replaceUnit 47 95 (replaceUnit 43 45 s) = map urlUnit s"
  by (simp add: replaceUnit_def urlUnit_def)

lemma unreplace_url:
  "\<forall>u\<in>set s. u \<noteq> 45 \<and> u \<noteq> 95 \<Longrightarrow> replaceUnit 95 47 (replaceUnit 45 43 (map urlUnit s)) = s"
  by (auto simp: replaceUnit_def urlUnit_def intro!: map_idI)

lemma urlUnit_b64char: "n < 64 \<Longrightarrow> urlUnit (b64char n) \<noteq> pad"
  by (simp add: urlUnit_def)

lemma encodeBase64URL_sextets:
  "encodeBase64URL data = Inr (map (urlUnit \<circ> b64char) (sextets (map unat data)))"
proof -
  let ?ns = "sextets (map unat data)"
  have lt: "\<forall>n\<in>set ?ns. n < 64" by (intro sextets_lt) simp
  have pads: "map urlUnit (replicate k pad) = replicate k pad" for k
    by (simp add: urlUnit_def)
  have "stripTrailingPad (map urlUnit (b64enc (map unat data))) = map (urlUnit \<circ> b64char) ?ns"
  proof (cases "?ns = []")
    case True
    then show ?thesis
      by (simp add: b64enc_sextets pads stripTrailingPad_replicate del: map_replicate)
  next
    case False
    then have "last (map (urlUnit \<circ> b64char) ?ns) \<noteq> pad"
      using lt urlUnit_b64char by (simp add: last_map)
    then show ?thesis using False
      by (simp add: b64enc_sextets pads stripTrailingPad_append del: map_replicate)
  qed
  then show ?thesis by (simp add: encodeBase64URL_def btoa_bytes replace_url)
qed

lemma storeCodes_eq:
  "i \<le> length binary \<Longrightarrow> length out = length binary \<Longrightarrow>
     storeCodes binary i out = take i out @ map ucast (drop i binary)"
proof (induction binary i out rule: storeCodes.induct)
  case (1 binary i out)
  show ?case
  proof (cases "i < length binary")
    case True
    then have "drop i binary = binary ! i # drop (Suc i) binary"
      by (simp add: Cons_nth_drop_Suc)
    with 1 True show ?thesis
      by (simp add: storeCodes.simps [of binary i out] u8_store_def take_Suc_conv_app_nth)
  next
    case False
    then show ?thesis using "1.prems" by (subst storeCodes.simps) simp
  qed
qed


lemma decodeBase64URL_sextets:
  assumes ns: "\<forall>n\<in>set ns. n < 64" and len: "length ns mod 4 \<noteq> 1"
  shows "decodeBase64URL (map (urlUnit \<circ> b64char) ns) = Inr (charCodes (map word_of_nat (b64dec ns)))"
proof -
  let ?k = "(4 - length ns mod 4) mod 4"
  have "replaceUnit 95 47 (replaceUnit 45 43 (map (urlUnit \<circ> b64char) ns)) = map b64char ns"
    using unreplace_url [of "map b64char ns"] ns by simp
  moreover have "?k \<le> 2" "(length ns + ?k) mod 4 = 0"
  proof -
    have "length ns mod 4 = 0 \<or> length ns mod 4 = 2 \<or> length ns mod 4 = 3" using len by arith
    then show "?k \<le> 2" "(length ns + ?k) mod 4 = 0"
      by (elim disjE; simp; presburger)+
  qed
  ultimately show ?thesis
    using atob_pad [OF ns, of ?k] by (simp add: decodeBase64URL_def padLoop_eq)
qed

lemma length_sextets_mod4: "length (sextets bs) mod 4 \<noteq> 1"
proof -
  obtain q where "length (sextets bs) + padCount (length bs) = 4 * q"
    using length_sextets by blast
  moreover have "padCount (length bs) \<le> 2" by simp
  ultimately show ?thesis by presburger
qed

definition isUrlSafe :: "code_unit \<Rightarrow> bool" where
  "isUrlSafe u \<longleftrightarrow> (65 \<le> u \<and> u \<le> 90) \<or> (97 \<le> u \<and> u \<le> 122) \<or> (48 \<le> u \<and> u \<le> 57) \<or> u = 45 \<or> u = 95"

lemma isUrlSafe_sextet: assumes "n < 64" shows "isUrlSafe (urlUnit (b64char n))"
proof -
  have "list_all (\<lambda>n. isUrlSafe (urlUnit (b64char n))) [0..<64]" by code_simp
  then show ?thesis using assms by (simp add: list_all_iff)
qed

subsection \<open>Both codecs are codecs\<close>

interpretation base64: byte_codec encodeBase64 decodeBase64 "\<lambda>_. True"
proof
  fix data :: bytes and y
  show "\<exists>y. encodeBase64 data = Inr y" by (simp add: encodeBase64_def btoa_bytes)
  assume "encodeBase64 data = Inr y"
  then have "y = b64enc (map unat data)" by (simp add: encodeBase64_def btoa_bytes)
  then show "decodeBase64 y = Inr data"
    by (simp add: decodeBase64_def atob_b64enc charCodes_word_of_nat del: map_map)
qed

interpretation base64url: byte_codec encodeBase64URL decodeBase64URL "\<lambda>_. True"
proof
  fix data :: bytes and y
  show "\<exists>y. encodeBase64URL data = Inr y" by (simp add: encodeBase64URL_sextets)
  assume "encodeBase64URL data = Inr y"
  then have y: "y = map (urlUnit \<circ> b64char) (sextets (map unat data))"
    by (simp add: encodeBase64URL_sextets)
  have "\<forall>n\<in>set (sextets (map unat data)). n < 64" by (intro sextets_lt) simp
  then show "decodeBase64URL y = Inr data"
    using decodeBase64URL_sextets [OF _ length_sextets_mod4]
    by (simp add: y b64dec_sextets charCodes_word_of_nat del: map_map)
qed

subsection \<open>Properties\<close>

text \<open>Base64 round trip. For every byte array, \<open>encodeBase64\<close> returns a string (it never
  throws) and \<open>decodeBase64\<close> of that string returns exactly the byte array.\<close>

theorem decode_encode_base64: "bindE (encodeBase64 data) decodeBase64 = Inr data"
  by (rule base64.roundtrip) simp

text \<open>Base64url round trip and alphabet. For every byte array, \<open>encodeBase64URL\<close> returns a
  string of letters, digits, \<open>-\<close> and \<open>_\<close> only (no padding, nothing to escape in a URL or a
  query), and \<open>decodeBase64URL\<close> of it, which restores the padding in a loop, returns the
  byte array.\<close>

theorem base64url_roundtrip:
  "\<exists>s. encodeBase64URL data = Inr s \<and> list_all isUrlSafe s \<and> decodeBase64URL s = Inr data"
proof -
  have "\<forall>n\<in>set (sextets (map unat data)). n < 64" by (intro sextets_lt) simp
  then have "list_all isUrlSafe (map (urlUnit \<circ> b64char) (sextets (map unat data)))"
    by (simp add: list_all_iff isUrlSafe_sextet)
  then show ?thesis
    using base64url.dec_enc [OF _ encodeBase64URL_sextets] encodeBase64URL_sextets by blast
qed

text \<open>C38: the padding loop of \<open>decodeBase64URL\<close>, the only unbounded loop of the program, ends on every input. Run as a
  loop it returns the string with the fewest padding characters, at most three, that make its length a multiple of
  four; nothing else of the string changes.\<close>

theorem padding_loop_terminates:
  "\<exists>k \<le> 3. while_option (\<lambda>s. length s mod 4 \<noteq> 0) (\<lambda>s. s @ [pad]) s = Some (padLoop s) \<and>
     padLoop s = s @ replicate k pad \<and> length (padLoop s) mod 4 = 0 \<and>
     \<not> (\<exists>j < k. length (s @ replicate j pad) mod 4 = 0)"
proof -
  let ?k = "(4 - length s mod 4) mod 4"
  have "while_option (\<lambda>s. length s mod 4 \<noteq> 0) (\<lambda>s. s @ [pad]) s = Some (padLoop s)"
  proof (induction s rule: padLoop.induct)
    case (1 s)
    then show ?case by (subst while_option_unfold, subst padLoop.simps) auto
  qed
  moreover have k: "?k \<le> 3 \<and> (length s + ?k) mod 4 = 0 \<and> (\<forall>j < ?k. (length s + j) mod 4 \<noteq> 0)"
  proof -
    define m where "m = length s mod 4"
    have sum: "(length s + j) mod 4 = (m + j) mod 4" for j unfolding m_def by (simp add: mod_add_left_eq)
    have "m < 4" unfolding m_def by simp
    then show ?thesis unfolding sum m_def [symmetric] by (cases "m = 0") auto
  qed
  ultimately show ?thesis using k by (intro exI [of _ ?k]) (auto simp: padLoop_eq)
qed

text \<open>The byte-storing loop of \<open>base64ToArrayBuffer\<close> and the mapping of \<open>decodeBase64\<close>
  compute the same bytes, on every input and with the same exception on malformed input.\<close>

theorem base64ToArrayBuffer_eq: "base64ToArrayBuffer s = decodeBase64 s"
proof -
  have "storeCodes b 0 (newUint8Array (length b)) = charCodes b" for b
    by (simp add: storeCodes_eq charCodes_def)
  then show ?thesis by (simp add: base64ToArrayBuffer_def decodeBase64_def)
qed

end
