(* ===== verification/MasterKey.thy ===== *)
theory MasterKey
  imports Encoding
begin

text \<open>
  The key-wrapping layer: AES-GCM and HKDF calls (\<open>crypto/aes.ts\<close>), the WebAuthn PRF
  helpers and the versioned master-key blob (\<open>crypto/prf.ts\<close>), the OpenSSH public-key
  formats (\<open>crypto/ssh.ts\<close>), and the two flows built on them: wrapping the master key at
  registration (\<open>RegisterPage.tsx\<close>) and unlocking it from the per-device blobs
  (\<open>SSHTerminal.tsx\<close>). The WebCrypto primitives are the fields of \<open>webcrypto\<close>; what the
  code relies on of AES-GCM is \<open>aesgcm_correct\<close> and \<open>aesgcm_authentic\<close>.
\<close>

subsection \<open>WebCrypto, as the code calls it\<close>

record webcrypto =
  aesgcm_encrypt :: "bytes \<Rightarrow> bytes \<Rightarrow> bytes \<Rightarrow> bytes"
  aesgcm_decrypt :: "bytes \<Rightarrow> bytes \<Rightarrow> bytes \<Rightarrow> bytes option"
  hkdf_sha256 :: "bytes \<Rightarrow> bytes \<Rightarrow> bytes \<Rightarrow> nat \<Rightarrow> bytes"
  digest_sha256 :: "bytes \<Rightarrow> bytes"

text \<open>Decrypting with the key and nonce of the encryption gives the plaintext back.\<close>

definition aesgcm_correct :: "webcrypto \<Rightarrow> bool" where
  "aesgcm_correct w \<longleftrightarrow> (\<forall>k n p. aesgcm_decrypt w k n (aesgcm_encrypt w k n p) = Some p)"

text \<open>The authentication tag rejects what was encrypted under another 256-bit key.\<close>

definition aesgcm_authentic :: "webcrypto \<Rightarrow> bool" where
  "aesgcm_authentic w \<longleftrightarrow>
     (\<forall>k k' n p. length k = 32 \<and> length k' = 32 \<and> k \<noteq> k' \<longrightarrow>
        aesgcm_decrypt w k' n (aesgcm_encrypt w k n p) = None)"

text \<open>HKDF returns as many bytes as bits were asked for, over eight.\<close>

definition hkdf_length :: "webcrypto \<Rightarrow> bool" where
  "hkdf_length w \<longleftrightarrow> (\<forall>ikm salt info bits. length (hkdf_sha256 w ikm salt info bits) = bits div 8)"

datatype crypto_error =
    DataError                    \<comment> \<open>a key of a length AES does not have\<close>
  | OperationError               \<comment> \<open>the GCM tag does not verify\<close>
  | EmptyMasterKeyData
  | MasterKeyDataTooShort
  | InvalidMasterKeyFormat
  | TypedArrayRangeError
  | Base64Error base64_error

definition liftBase64 :: "base64_error + 'a \<Rightarrow> crypto_error + 'a" where
  "liftBase64 r = (case r of Inl e \<Rightarrow> Inl (Base64Error e) | Inr x \<Rightarrow> Inr x)"

definition liftSet :: "'a option \<Rightarrow> crypto_error + 'a" where
  "liftSet r = (case r of None \<Rightarrow> Inl TypedArrayRangeError | Some x \<Rightarrow> Inr x)"

subsection \<open>aes.ts\<close>

record encrypt_result =
  er_nonce :: bytes
  er_ciphertext :: bytes

definition importAesKey :: "bytes \<Rightarrow> crypto_error + bytes" where
  "importAesKey key = (if length key \<in> {16, 24, 32} then Inr key else Inl DataError)"

text \<open>\<open>nonce\<close> is what \<open>crypto.getRandomValues(new Uint8Array(12))\<close> returned.\<close>

definition encrypt :: "webcrypto \<Rightarrow> bytes \<Rightarrow> bytes \<Rightarrow> bytes \<Rightarrow> crypto_error + encrypt_result" where
  "encrypt w nonce key plaintext =
     bindE (importAesKey key)
       (\<lambda>aesKey. Inr \<lparr>er_nonce = nonce, er_ciphertext = aesgcm_encrypt w aesKey nonce plaintext\<rparr>)"

definition decrypt :: "webcrypto \<Rightarrow> bytes \<Rightarrow> bytes \<Rightarrow> bytes \<Rightarrow> crypto_error + bytes" where
  "decrypt w key nonce ciphertext =
     bindE (importAesKey key)
       (\<lambda>aesKey. case aesgcm_decrypt w aesKey nonce ciphertext of
          None \<Rightarrow> Inl OperationError
        | Some plaintext \<Rightarrow> Inr plaintext)"

definition ENROLLMENT_HKDF_SALT :: bytes where
  "ENROLLMENT_HKDF_SALT = textEncode (js ''devsesh-enrollment-v1'')"

definition deriveKey :: "webcrypto \<Rightarrow> bytes \<Rightarrow> jsstring \<Rightarrow> nat \<Rightarrow> bytes" where
  "deriveKey w sharedSecret info len =
     hkdf_sha256 w sharedSecret ENROLLMENT_HKDF_SALT (textEncode info) (len * 8)"

subsection \<open>prf.ts\<close>

definition PRF_SALT :: jsstring where
  "PRF_SALT = js ''devsesh-master-key-v1''"

definition getPrfSalt :: bytes where
  "getPrfSalt = textEncode PRF_SALT"

definition getPrfSaltBase64 :: "base64_error + jsstring" where
  "getPrfSaltBase64 = btoa (fromCharCodes getPrfSalt)"

record prf_extension =
  prf_eval :: "bytes option"
  prf_evalByCredential :: "(jsstring \<rightharpoonup> bytes) option"

text \<open>The loop that fills \<open>evalByCredential\<close>, one key per credential id.\<close>

fun fillByCredential :: "bytes \<Rightarrow> bytes list \<Rightarrow> (jsstring \<rightharpoonup> bytes) \<Rightarrow> base64_error + (jsstring \<rightharpoonup> bytes)" where
  "fillByCredential salt [] m = Inr m"
| "fillByCredential salt (i # ids) m =
     bindE (encodeBase64URL i) (\<lambda>k. fillByCredential salt ids (m(k \<mapsto> salt)))"

definition buildPrfGetExtension :: "bytes list \<Rightarrow> bytes \<Rightarrow> base64_error + prf_extension" where
  "buildPrfGetExtension allowCredentialIds salt =
     (if 0 < length allowCredentialIds
      then bindE (fillByCredential salt allowCredentialIds Map.empty)
             (\<lambda>m. Inr \<lparr>prf_eval = None, prf_evalByCredential = Some m\<rparr>)
      else Inr \<lparr>prf_eval = Some salt, prf_evalByCredential = None\<rparr>)"

definition deriveMasterKeyFromPrf :: "webcrypto \<Rightarrow> bytes \<Rightarrow> bytes" where
  "deriveMasterKeyFromPrf w prfOutput =
     hkdf_sha256 w prfOutput getPrfSalt (textEncode (js ''master-key-derivation'')) 256"

definition MASTER_KEY_VERSION_ENCRYPTED :: byte where
  "MASTER_KEY_VERSION_ENCRYPTED = 0x01"

definition formatEncryptedMasterKey :: "bytes \<Rightarrow> crypto_error + bytes" where
  "formatEncryptedMasterKey encryptedData =
     (let result = newUint8Array (1 + length encryptedData);
          result' = u8_store result 0 MASTER_KEY_VERSION_ENCRYPTED
      in liftSet (u8_set result' encryptedData 1))"

record parsed_master_key =
  pmk_version :: byte
  pmk_data :: bytes
  pmk_isEncrypted :: bool

definition parseEncryptedMasterKey :: "bytes \<Rightarrow> crypto_error + parsed_master_key" where
  "parseEncryptedMasterKey data =
     bindE (guardE (length data \<noteq> 0) EmptyMasterKeyData) (\<lambda>_.
     bindE (guardE (\<not> length data < 1) MasterKeyDataTooShort) (\<lambda>_.
       let version = data ! 0; content = sliceFrom data 1
       in if version = MASTER_KEY_VERSION_ENCRYPTED
          then Inr \<lparr>pmk_version = version, pmk_data = content, pmk_isEncrypted = True\<rparr>
          else Inl InvalidMasterKeyFormat))"

subsection \<open>Wrapping and unlocking the master key\<close>

text \<open>The versioned, base64-encoded blob that registration uploads.\<close>

definition wrapMasterKey :: "webcrypto \<Rightarrow> bytes \<Rightarrow> bytes \<Rightarrow> bytes \<Rightarrow> crypto_error + jsstring" where
  "wrapMasterKey w rnd prfKey masterKey =
     bindE (encrypt w rnd prfKey masterKey) (\<lambda>e.
     bindE (liftSet (u8_set (newUint8Array (12 + length (er_ciphertext e))) (er_nonce e) 0)) (\<lambda>c1.
     bindE (liftSet (u8_set c1 (er_ciphertext e) 12)) (\<lambda>combined.
     bindE (formatEncryptedMasterKey combined) (\<lambda>versioned.
       liftBase64 (encodeBase64 versioned)))))"

text \<open>One iteration of the unlock loop: the body of its \<open>try\<close>.\<close>

definition unlockBlob :: "webcrypto \<Rightarrow> bytes \<Rightarrow> jsstring \<Rightarrow> crypto_error + bytes" where
  "unlockBlob w prfKey blob =
     bindE (liftBase64 (decodeBase64 blob)) (\<lambda>raw.
     bindE (parseEncryptedMasterKey raw) (\<lambda>p.
       decrypt w prfKey (slice (pmk_data p) 0 12) (sliceFrom (pmk_data p) 12)))"

text \<open>The loop: the first blob that decrypts wins, \<open>None\<close> is the NeedsProvisionError.\<close>

fun unlockMasterKey :: "webcrypto \<Rightarrow> bytes \<Rightarrow> jsstring list \<Rightarrow> bytes option" where
  "unlockMasterKey w prfKey [] = None"
| "unlockMasterKey w prfKey (blob # blobs) =
     (case unlockBlob w prfKey blob of
        Inr masterKey \<Rightarrow> Some masterKey
      | Inl _ \<Rightarrow> unlockMasterKey w prfKey blobs)"

subsection \<open>ssh.ts\<close>

text \<open>\<open>DataView.setUint32(0, n, false)\<close>: big-endian, modulo two to the 32.\<close>

definition setUint32_be :: "nat \<Rightarrow> bytes" where
  "setUint32_be n =
     [word_of_nat (n div 2 ^ 24 mod 256), word_of_nat (n div 2 ^ 16 mod 256),
      word_of_nat (n div 2 ^ 8 mod 256), word_of_nat (n mod 256)]"

definition formatOpenSSHWire :: "bytes \<Rightarrow> crypto_error + bytes" where
  "formatOpenSSHWire publicKeyBytes =
     (let keyType = textEncode (js ''ssh-ed25519'');
          keyTypeLen = setUint32_be (length keyType);
          keyLen = setUint32_be (length publicKeyBytes);
          wireFormat = newUint8Array
            (length keyTypeLen + length keyType + length keyLen + length publicKeyBytes);
          o1 = length keyTypeLen; o2 = o1 + length keyType; o3 = o2 + length keyLen
      in bindE (liftSet (u8_set wireFormat keyTypeLen 0)) (\<lambda>w1.
         bindE (liftSet (u8_set w1 keyType o1)) (\<lambda>w2.
         bindE (liftSet (u8_set w2 keyLen o2)) (\<lambda>w3.
           liftSet (u8_set w3 publicKeyBytes o3)))))"

definition computeFingerprint :: "webcrypto \<Rightarrow> bytes \<Rightarrow> crypto_error + jsstring" where
  "computeFingerprint w publicKeyBytes =
     bindE (formatOpenSSHWire publicKeyBytes) (\<lambda>wireFormat.
     bindE (liftBase64 (btoa (fromCharCodes (digest_sha256 w wireFormat)))) (\<lambda>base64.
       Inr (js ''SHA256:'' @ stripTrailingPad base64)))"

definition formatOpenSSHKey :: "bytes \<Rightarrow> jsstring \<Rightarrow> crypto_error + jsstring" where
  "formatOpenSSHKey publicKeyBytes comment =
     bindE (formatOpenSSHWire publicKeyBytes) (\<lambda>wireFormat.
     bindE (liftBase64 (btoa (fromCharCodes wireFormat))) (\<lambda>base64.
       Inr (js ''ssh-ed25519 '' @ base64 @ js '' '' @ comment)))"

text \<open>Reference: reading a length-prefixed string (RFC 4251), for the round trip.\<close>

definition readUint32_be :: "bytes \<Rightarrow> nat" where
  "readUint32_be bs = foldl (\<lambda>acc b. acc * 256 + unat b) 0 bs"

definition readSSHString :: "bytes \<Rightarrow> (bytes \<times> bytes) option" where
  "readSSHString bs =
     (let n = readUint32_be (take 4 bs)
      in if length bs < 4 + n then None else Some (take n (drop 4 bs), drop (4 + n) bs))"

subsection \<open>Laws\<close>

lemma liftSet_simps [simp]: "liftSet (Some x) = Inr x" "liftSet None = Inl TypedArrayRangeError"
  by (simp_all add: liftSet_def)

lemma liftBase64_simps [simp]: "liftBase64 (Inr x) = Inr x" "liftBase64 (Inl e) = Inl (Base64Error e)"
  by (simp_all add: liftBase64_def)

lemma importAesKey_256 [simp]: "length key = 32 \<Longrightarrow> importAesKey key = Inr key"
  by (simp add: importAesKey_def)

lemma formatEncryptedMasterKey_eq [simp]: "formatEncryptedMasterKey d = Inr (0x01 # d)"
  by (simp add: formatEncryptedMasterKey_def u8_store_def u8_set_def newUint8Array_def
      MASTER_KEY_VERSION_ENCRYPTED_def)

lemma parseEncryptedMasterKey_Cons [simp]:
  "parseEncryptedMasterKey (v # d) =
     (if v = 0x01 then Inr \<lparr>pmk_version = 0x01, pmk_data = d, pmk_isEncrypted = True\<rparr>
      else Inl InvalidMasterKeyFormat)"
  by (simp add: parseEncryptedMasterKey_def sliceFrom_def MASTER_KEY_VERSION_ENCRYPTED_def Let_def)

interpretation master_key_format:
  byte_codec formatEncryptedMasterKey
    "\<lambda>d. bindE (parseEncryptedMasterKey d) (\<lambda>p. Inr (pmk_data p))" "\<lambda>_. True"
  by unfold_locales auto

lemma encodeBase64_eq: "encodeBase64 d = Inr (b64enc (map unat d))"
  by (simp add: encodeBase64_def btoa_bytes)

lemma decodeBase64_b64enc [simp]: "decodeBase64 (b64enc (map unat d)) = Inr d"
  using base64.dec_enc [OF TrueI encodeBase64_eq] .

lemma combine_nonce:
  assumes "length n = 12"
  shows "bindE (liftSet (u8_set (newUint8Array (12 + length c)) n 0)) (\<lambda>x. liftSet (u8_set x c 12)) = Inr (n @ c)"
  using assms by (simp add: u8_set_def newUint8Array_def)

lemma wrapMasterKey_eq:
  assumes "length rnd = 12" "length prfKey = 32"
  shows "wrapMasterKey w rnd prfKey mk =
     Inr (b64enc (map unat (0x01 # rnd @ aesgcm_encrypt w prfKey rnd mk)))"
  using assms by (simp add: wrapMasterKey_def encrypt_def u8_set_def newUint8Array_def encodeBase64_eq)

lemma unlockBlob_wrapped:
  assumes "length rnd = 12" "length prfKey = 32" "length prfKey' = 32"
    and "wrapMasterKey w rnd prfKey mk = Inr blob"
  shows "unlockBlob w prfKey' blob =
     (case aesgcm_decrypt w prfKey' rnd (aesgcm_encrypt w prfKey rnd mk) of
        None \<Rightarrow> Inl OperationError | Some p \<Rightarrow> Inr p)"
proof -
  have blob: "blob = b64enc (map unat (0x01 # rnd @ aesgcm_encrypt w prfKey rnd mk))"
    using assms by (simp add: wrapMasterKey_eq)
  show ?thesis
    using assms(1,3) unfolding blob unlockBlob_def decodeBase64_b64enc
    by (simp add: slice_def sliceFrom_def decrypt_def)
qed

lemma unlockMasterKey_append:
  "(\<forall>b\<in>set bs. \<exists>e. unlockBlob w k b = Inl e) \<Longrightarrow> unlockMasterKey w k (bs @ cs) = unlockMasterKey w k cs"
  by (induction bs) auto

lemma unlockMasterKey_sound:
  "unlockMasterKey w k bs = Some mk \<Longrightarrow> \<exists>b\<in>set bs. unlockBlob w k b = Inr mk"
  by (induction bs) (auto split: sum.splits)

lemma unlockMasterKey_None: "unlockMasterKey w k bs = None \<longleftrightarrow> (\<forall>b\<in>set bs. \<not> isOk (unlockBlob w k b))"
  by (induction bs) (auto split: sum.splits simp: isOk_iff)

lemma fillByCredential_eq:
  "fillByCredential salt ids m =
     Inr (m ++ (\<lambda>k. if \<exists>i\<in>set ids. encodeBase64URL i = Inr k then Some salt else None))"
proof (induction ids arbitrary: m)
  case Nil
  show ?case by (simp add: map_add_def)
next
  case (Cons i ids)
  obtain k where k: "encodeBase64URL i = Inr k" using base64url.enc_total by blast
  show ?case
    by (auto simp: k Cons.IH map_add_def fun_eq_iff split: option.splits)
qed

lemma length_setUint32_be [simp]: "length (setUint32_be n) = 4"
  by (simp add: setUint32_be_def)

lemma readUint32_setUint32: "n < 2 ^ 32 \<Longrightarrow> readUint32_be (setUint32_be n) = n"
proof -
  assume n: "n < 2 ^ 32"
  define a where "a = n div 256"
  define b where "b = a div 256"
  define c where "c = b div 256"
  have "n div 2 ^ 8 = a" "n div 2 ^ 16 = b" "n div 2 ^ 24 = c"
    by (simp_all add: a_def b_def c_def div_mult2_eq [symmetric])
  moreover have "c < 256" using n by (simp add: a_def b_def c_def less_mult_imp_div_less)
  moreover have "n = a * 256 + n mod 256" "a = b * 256 + a mod 256" "b = c * 256 + b mod 256"
    by (simp_all add: a_def b_def c_def)
  ultimately show ?thesis
    by (simp add: readUint32_be_def setUint32_be_def unsigned_of_nat take_bit_eq_mod)
qed

lemma ssh_key_type_bytes: "textEncode (js ''ssh-ed25519'') = [115, 115, 104, 45, 101, 100, 50, 53, 53, 49, 57]"
  by (subst textEncode_ascii) (simp_all add: js_def)

lemma formatOpenSSHWire_eq:
  "formatOpenSSHWire pk =
     Inr (setUint32_be 11 @ textEncode (js ''ssh-ed25519'') @ setUint32_be (length pk) @ pk)"
proof -
  have "length (textEncode (js ''ssh-ed25519'')) = 11" by (simp add: ssh_key_type_bytes)
  then show ?thesis by (simp add: formatOpenSSHWire_def Let_def u8_set_def newUint8Array_def)
qed

lemma readSSHString_cons:
  assumes "length s < 2 ^ 32"
  shows "readSSHString (setUint32_be (length s) @ s @ rest) = Some (s, rest)"
  using assms by (simp add: readSSHString_def readUint32_setUint32 Let_def)

subsection \<open>Properties\<close>


definition toy_webcrypto :: webcrypto where
  "toy_webcrypto =
     \<lparr>aesgcm_encrypt = (\<lambda>k n p. k @ n @ p),
      aesgcm_decrypt = (\<lambda>k n c. if take (length k) c = k \<and> take (length n) (drop (length k) c) = n
         then Some (drop (length k + length n) c) else None),
      hkdf_sha256 = (\<lambda>ikm salt info bits. replicate (bits div 8) (if ikm = [] then 0 else hd ikm)),
      digest_sha256 = (\<lambda>d. replicate 32 0)\<rparr>"

lemma toy_webcrypto_ok:
  "aesgcm_correct toy_webcrypto" "aesgcm_authentic toy_webcrypto" "hkdf_length toy_webcrypto"
  by (auto simp: aesgcm_correct_def aesgcm_authentic_def hkdf_length_def toy_webcrypto_def)


text \<open>The master-key blob format. Formatting never fails, parsing what was formatted gives
  the data back and marks it encrypted, and parsing succeeds on exactly the byte arrays that
  start with the version byte 1: an empty array, a plain (version 0) key or any other version
  is refused.\<close>

theorem master_key_format_roundtrip:
  "bindE (formatEncryptedMasterKey d) parseEncryptedMasterKey =
     Inr \<lparr>pmk_version = 0x01, pmk_data = d, pmk_isEncrypted = True\<rparr> \<and>
   (isOk (parseEncryptedMasterKey data) \<longleftrightarrow> (\<exists>d. data = 0x01 # d))"
proof (cases data)
  case Nil
  moreover have "parseEncryptedMasterKey [] = Inl EmptyMasterKeyData"
    by (simp add: parseEncryptedMasterKey_def)
  ultimately show ?thesis by simp
qed simp

text \<open>The PRF extension of an assertion. With allowed credentials the extension has no bare
  \<open>eval\<close>, and \<open>evalByCredential\<close> maps the base64url id of every allowed credential, and
  nothing else, to the salt; without any it has only the bare \<open>eval\<close>.\<close>

theorem buildPrfGetExtension_spec:
  "\<exists>x. buildPrfGetExtension ids salt = Inr x \<and>
     (prf_eval x = (if ids = [] then Some salt else None)) \<and>
     (prf_evalByCredential x =
        (if ids = [] then None
         else Some (\<lambda>k. if \<exists>i\<in>set ids. encodeBase64URL i = Inr k then Some salt else None)))"
  by (simp add: buildPrfGetExtension_def fillByCredential_eq)

text \<open>The OpenSSH public key. For a key shorter than 4 GiB the wire format never fails and
  reads back, string by string, as the key type and the raw key with nothing left over; and
  the second field of the \<open>authorized_keys\<close> line decodes to that wire format.\<close>

theorem openssh_key_roundtrip:
  assumes "length pk < 2 ^ 32"
  shows "\<exists>wire b64. formatOpenSSHWire pk = Inr wire \<and>
     (\<exists>rest. readSSHString wire = Some (textEncode (js ''ssh-ed25519''), rest) \<and>
        readSSHString rest = Some (pk, [])) \<and>
     formatOpenSSHKey pk comment = Inr (js ''ssh-ed25519 '' @ b64 @ js '' '' @ comment) \<and>
     decodeBase64 b64 = Inr wire"
proof -
  let ?t = "textEncode (js ''ssh-ed25519'')"
  let ?rest = "setUint32_be (length pk) @ pk"
  let ?wire = "setUint32_be 11 @ ?t @ ?rest"
  have len: "length ?t = 11" by (simp add: ssh_key_type_bytes)
  have "readSSHString ?wire = Some (?t, ?rest)"
    using readSSHString_cons [of ?t ?rest] by (simp add: len)
  moreover have "readSSHString ?rest = Some (pk, [])"
    using readSSHString_cons [OF assms, of "[]"] by simp
  moreover have "formatOpenSSHKey pk comment =
      Inr (js ''ssh-ed25519 '' @ b64enc (map unat ?wire) @ js '' '' @ comment)"
    by (simp add: formatOpenSSHKey_def formatOpenSSHWire_eq btoa_bytes)
  ultimately show ?thesis
    using formatOpenSSHWire_eq decodeBase64_b64enc by blast
qed

theorem openssh_key_roundtrip_witness:
  "\<exists>wire b64. formatOpenSSHWire [1, 2, 3] = Inr wire \<and>
     (\<exists>rest. readSSHString wire = Some (textEncode (js ''ssh-ed25519''), rest) \<and>
        readSSHString rest = Some ([1, 2, 3], [])) \<and>
     formatOpenSSHKey [1, 2, 3] (js ''devsesh-ca'') =
       Inr (js ''ssh-ed25519 '' @ b64 @ js '' '' @ js ''devsesh-ca'') \<and>
     decodeBase64 b64 = Inr wire"
  using openssh_key_roundtrip [of "[1, 2, 3]" "js ''devsesh-ca''"] by simp

end
