(* ===== verification/FrostEncoding.thy ===== *)
theory FrostEncoding
  imports Encoding
begin

text \<open>
  The bytemare/frost wire formats (\<open>web/src/lib/crypto/frost-encoding.ts\<close>): key shares,
  verifying shares, nonce commitments and signature shares. Signer ids are 32-bit integers,
  as the bitwise operators of JavaScript see them; the typed-array writes are kept as writes,
  with the RangeError they throw.
\<close>

unbundle bit_operations_syntax

datatype frost_error =
    InvalidShareLength nat
  | UnexpectedGroupIdentifier byte
  | InvalidPublicKeyShareLength nat
  | InvalidCommitmentLength nat
  | UnexpectedGroupID byte
  | InvalidSignatureShareLength nat
  | FrostRangeError
  | InvalidScalarLength nat
  | InvalidClientShareLength nat
  | InvalidClientShareGroup byte
  | InvalidClientIdentifier byte
  | InvalidSecretShare nat
  | NobleError jsstring

definition ED25519_GROUP_ID :: byte where "ED25519_GROUP_ID = 0x06"
definition SCALAR_SIZE :: nat where "SCALAR_SIZE = 32"
definition ELEMENT_SIZE :: nat where "ELEMENT_SIZE = 32"

lemmas frost_consts [simp] = ED25519_GROUP_ID_def SCALAR_SIZE_def ELEMENT_SIZE_def

record frost_share =
  fs_identifier :: bytes
  fs_secretShare :: bytes
  fs_groupPublicKey :: bytes
  fs_verifyingShare :: bytes

definition deserializeShare :: "bytes \<Rightarrow> frost_error + frost_share" where
  "deserializeShare data =
     bindE (guardE (\<not> length data < 1 + 8 + SCALAR_SIZE) (InvalidShareLength (length data))) (\<lambda>_.
     let groupId = data ! 0
     in bindE (guardE (groupId = ED25519_GROUP_ID) (UnexpectedGroupIdentifier groupId)) (\<lambda>_.
        let o0 = 1; identifierBytes = slice data o0 (o0 + 8); o1 = o0 + 8;
            secretShare = slice data o1 (o1 + SCALAR_SIZE); o2 = o1 + SCALAR_SIZE;
            groupPublicKey = (if o2 + ELEMENT_SIZE \<le> length data
                              then slice data o2 (o2 + ELEMENT_SIZE) else newUint8Array ELEMENT_SIZE)
        in Inr \<lparr>fs_identifier = identifierBytes, fs_secretShare = secretShare,
                fs_groupPublicKey = groupPublicKey, fs_verifyingShare = sliceFrom data 1\<rparr>))"

definition VERIFYING_KEY_OFFSET :: nat where "VERIFYING_KEY_OFFSET = 7"
definition GROUP_KEY_OFFSET :: nat where "GROUP_KEY_OFFSET = 39"
definition SECOND_COMMITMENT_OFFSET :: nat where "SECOND_COMMITMENT_OFFSET = 71"

lemmas frost_offsets [simp] = VERIFYING_KEY_OFFSET_def GROUP_KEY_OFFSET_def SECOND_COMMITMENT_OFFSET_def

definition extractVerifyingKey :: "bytes \<Rightarrow> frost_error + bytes" where
  "extractVerifyingKey publicKeyShare =
     bindE (guardE (\<not> length publicKeyShare < VERIFYING_KEY_OFFSET + ELEMENT_SIZE)
              (InvalidPublicKeyShareLength (length publicKeyShare)))
       (\<lambda>_. Inr (slice publicKeyShare VERIFYING_KEY_OFFSET (VERIFYING_KEY_OFFSET + ELEMENT_SIZE)))"

definition extractCommitments :: "bytes \<Rightarrow> bytes \<Rightarrow> bytes list" where
  "extractCommitments serverVerifyingShare clientVerifyingShare =
     (if GROUP_KEY_OFFSET + ELEMENT_SIZE \<le> length serverVerifyingShare
      then slice serverVerifyingShare GROUP_KEY_OFFSET (GROUP_KEY_OFFSET + ELEMENT_SIZE) #
           (if SECOND_COMMITMENT_OFFSET + ELEMENT_SIZE \<le> length serverVerifyingShare
            then [slice serverVerifyingShare SECOND_COMMITMENT_OFFSET
                    (SECOND_COMMITMENT_OFFSET + ELEMENT_SIZE)]
            else [])
      else [])"

record frost_commitment =
  fc_signerId :: "32 word"
  fc_hiding :: bytes
  fc_binding :: bytes

text \<open>\<open>lo | (hi << 8)\<close> and the two bytes \<open>n & 0xff\<close>, \<open>(n >> 8) & 0xff\<close> (\<open>>>\<close> is arithmetic).\<close>

definition leU16 :: "byte \<Rightarrow> byte \<Rightarrow> 32 word" where
  "leU16 lo hi = ucast lo OR push_bit 8 (ucast hi)"

definition loByte :: "32 word \<Rightarrow> byte" where
  "loByte n = ucast (n AND 0xff)"

definition hiByte :: "32 word \<Rightarrow> byte" where
  "hiByte n = ucast (signed_drop_bit 8 n AND 0xff)"

definition decodeCommitment :: "bytes \<Rightarrow> frost_error + frost_commitment" where
  "decodeCommitment encoded =
     bindE (guardE (\<not> length encoded < 1 + 8 + 2 + ELEMENT_SIZE + ELEMENT_SIZE)
              (InvalidCommitmentLength (length encoded))) (\<lambda>_.
     bindE (guardE (encoded ! 0 = ED25519_GROUP_ID) (UnexpectedGroupID (encoded ! 0))) (\<lambda>_.
       Inr \<lparr>fc_signerId = leU16 (encoded ! 9) (encoded ! 10),
            fc_hiding = slice encoded 11 (11 + ELEMENT_SIZE),
            fc_binding = slice encoded (11 + ELEMENT_SIZE) (11 + 2 * ELEMENT_SIZE)\<rparr>))"

definition setFrost :: "bytes \<Rightarrow> bytes \<Rightarrow> nat \<Rightarrow> frost_error + bytes" where
  "setFrost dst src off = (case u8_set dst src off of None \<Rightarrow> Inl FrostRangeError | Some d \<Rightarrow> Inr d)"

definition encodeCommitment :: "32 word \<Rightarrow> bytes \<Rightarrow> bytes \<Rightarrow> frost_error + bytes" where
  "encodeCommitment signerId hiding binding =
     (let c0 = newUint8Array (1 + 8 + 2 + ELEMENT_SIZE + ELEMENT_SIZE);
          c1 = u8_store c0 0 ED25519_GROUP_ID;
          off = 1 + 8;
          c2 = u8_store c1 off (loByte signerId);
          c3 = u8_store c2 (off + 1) (hiByte signerId)
      in bindE (setFrost c3 hiding (off + 2)) (\<lambda>c4.
           setFrost c4 binding (off + 2 + ELEMENT_SIZE)))"

record signature_share =
  ss_signerId :: "32 word"
  ss_share :: bytes

definition decodeSignatureShare :: "bytes \<Rightarrow> frost_error + signature_share" where
  "decodeSignatureShare encoded =
     bindE (guardE (\<not> length encoded < 1 + 2 + SCALAR_SIZE)
              (InvalidSignatureShareLength (length encoded))) (\<lambda>_.
     bindE (guardE (encoded ! 0 = ED25519_GROUP_ID) (UnexpectedGroupID (encoded ! 0))) (\<lambda>_.
       Inr \<lparr>ss_signerId = leU16 (encoded ! 1) (encoded ! 2), ss_share = slice encoded 3 (3 + SCALAR_SIZE)\<rparr>))"

definition encodeSignatureShare :: "32 word \<Rightarrow> bytes \<Rightarrow> frost_error + bytes" where
  "encodeSignatureShare signerId sigShare =
     (let e0 = newUint8Array (1 + 2 + SCALAR_SIZE);
          e1 = u8_store e0 0 ED25519_GROUP_ID;
          e2 = u8_store e1 1 (loByte signerId);
          e3 = u8_store e2 2 (hiByte signerId)
      in setFrost e3 sigShare 3)"

record commitment_entry =
  ce_identifier :: jsstring
  ce_hiding :: bytes
  ce_binding :: bytes

text \<open>\<open>fromNumber\<close> is \<open>ed25519_FROST.Identifier.fromNumber\<close> of @noble/curves.\<close>

fun mapE :: "('a \<Rightarrow> 'e + 'b) \<Rightarrow> 'a list \<Rightarrow> 'e + 'b list" where
  "mapE f [] = Inr []"
| "mapE f (x # xs) = bindE (f x) (\<lambda>y. bindE (mapE f xs) (\<lambda>ys. Inr (y # ys)))"

definition buildCommitmentList ::
  "(32 word \<Rightarrow> frost_error + jsstring) \<Rightarrow> bytes \<Rightarrow> bytes \<Rightarrow> frost_error + commitment_entry list" where
  "buildCommitmentList fromNumber serverCommitment clientCommitment =
     bindE (decodeCommitment serverCommitment) (\<lambda>serverDecoded.
     bindE (decodeCommitment clientCommitment) (\<lambda>clientDecoded.
       let sorted = sort_key (\<lambda>c. sint (fc_signerId c)) [serverDecoded, clientDecoded]
       in mapE (\<lambda>c. bindE (fromNumber (fc_signerId c))
                 (\<lambda>i. Inr \<lparr>ce_identifier = i, ce_hiding = fc_hiding c, ce_binding = fc_binding c\<rparr>)) sorted))"

subsection \<open>Signer ids\<close>

lemma leU16_bytes: "leU16 (loByte n) (hiByte n) = n AND 0xffff"
proof (rule bit_word_eqI)
  fix i assume "i < LENGTH(32)"
  have m: "(0xff :: 32 word) = mask 8" "(0xffff :: 32 word) = mask 16"
    by (simp_all add: mask_eq_exp_minus_1)
  show "bit (leU16 (loByte n) (hiByte n)) i = bit (n AND 0xffff) i"
    using \<open>i < LENGTH(32)\<close> unfolding m leU16_def loByte_def hiByte_def
    by (cases "i < 8")
       (auto simp: bit_or_iff bit_and_iff bit_mask_iff bit_ucast_iff bit_push_bit_iff
          bit_signed_drop_bit_iff)
qed

lemma leU16_nonneg: "0 \<le> sint (leU16 lo hi)"
proof -
  have "\<not> bit (leU16 lo hi) 31"
    using bit_imp_le_length [of lo 31] bit_imp_le_length [of hi 23]
    by (auto simp: leU16_def bit_or_iff bit_ucast_iff bit_push_bit_iff)
  then show ?thesis by (simp add: sint_uint signed_take_bit_eq_take_bit_minus bit_uint_iff)
qed

subsection \<open>The layout of the encodings\<close>

lemma setFrost_Inr_iff:
  "setFrost dst src off = Inr d \<longleftrightarrow>
     off + length src \<le> length dst \<and> d = take off dst @ src @ drop (off + length src) dst"
  by (auto simp: setFrost_def u8_set_def)

lemma commitment_header:
  "u8_store (u8_store (u8_store (newUint8Array 75) 0 g) 9 lo) 10 hi =
     g # replicate 8 0 @ lo # hi # replicate 64 0"
  by (simp add: u8_store_def newUint8Array_def numeral_eq_Suc)

lemma encodeCommitment_eq:
  "length h = 32 \<Longrightarrow> length b = 32 \<Longrightarrow>
     encodeCommitment i h b = Inr (0x06 # replicate 8 0 @ loByte i # hiByte i # h @ b)"
proof -
  assume len: "length h = 32" "length b = 32"
  let ?hd = "0x06 # replicate 8 0 @ [loByte i, hiByte i]"
  have c3: "u8_store (u8_store (u8_store (newUint8Array 75) 0 0x06) 9 (loByte i)) 10 (hiByte i) =
      ?hd @ replicate 64 0"
    by (simp add: commitment_header)
  have lh: "length ?hd = 11" by simp
  have "setFrost (?hd @ replicate 64 0) h 11 = Inr (?hd @ h @ replicate 32 0)"
    using len lh unfolding setFrost_Inr_iff by (simp del: append_Cons)
  moreover have "setFrost (?hd @ h @ replicate 32 0) b 43 = Inr (?hd @ h @ b)"
    using len lh unfolding setFrost_Inr_iff by (simp del: append_Cons)
  ultimately show ?thesis
    using c3 by (simp add: encodeCommitment_def Let_def)
qed

lemma encodeSignatureShare_eq:
  "length z = 32 \<Longrightarrow> encodeSignatureShare i z = Inr (0x06 # loByte i # hiByte i # z)"
proof -
  assume len: "length z = 32"
  have "u8_store (u8_store (u8_store (newUint8Array 35) 0 0x06) 1 (loByte i)) 2 (hiByte i) =
      0x06 # loByte i # hiByte i # replicate 32 0"
    by (simp add: u8_store_def newUint8Array_def numeral_eq_Suc)
  then show ?thesis using len by (simp add: encodeSignatureShare_def setFrost_def u8_set_def Let_def)
qed

lemma decodeCommitment_eq:
  "length h = 32 \<Longrightarrow> length b = 32 \<Longrightarrow> length cid = 8 \<Longrightarrow>
     decodeCommitment (0x06 # cid @ lo # hi # h @ b @ rest) =
       Inr \<lparr>fc_signerId = leU16 lo hi, fc_hiding = h, fc_binding = b\<rparr>"
  by (simp add: decodeCommitment_def slice_def nth_append)

lemma decodeCommitment_Inr:
  assumes "decodeCommitment e = Inr c"
  shows "75 \<le> length e \<and> e ! 0 = 0x06 \<and> length (fc_hiding c) = 32 \<and> length (fc_binding c) = 32 \<and>
     0 \<le> sint (fc_signerId c)"
  using assms by (auto simp: decodeCommitment_def bindE_Inr_iff leU16_nonneg)

interpretation frost_commitments:
  byte_codec "\<lambda>c. encodeCommitment (fc_signerId c) (fc_hiding c) (fc_binding c)" decodeCommitment
    "\<lambda>c. fc_signerId c AND 0xffff = fc_signerId c \<and> length (fc_hiding c) = 32 \<and> length (fc_binding c) = 32"
proof
  fix c :: frost_commitment and y
  assume c: "fc_signerId c AND 0xffff = fc_signerId c \<and> length (fc_hiding c) = 32 \<and> length (fc_binding c) = 32"
  then show "\<exists>y. encodeCommitment (fc_signerId c) (fc_hiding c) (fc_binding c) = Inr y"
    by (simp add: encodeCommitment_eq)
  assume "encodeCommitment (fc_signerId c) (fc_hiding c) (fc_binding c) = Inr y"
  with c show "decodeCommitment y = Inr c"
    using decodeCommitment_eq [of "fc_hiding c" "fc_binding c" "replicate 8 0" _ _ "[]"]
    by (auto simp: encodeCommitment_eq leU16_bytes)
qed

interpretation frost_signature_shares:
  byte_codec "\<lambda>s. encodeSignatureShare (ss_signerId s) (ss_share s)" decodeSignatureShare
    "\<lambda>s. ss_signerId s AND 0xffff = ss_signerId s \<and> length (ss_share s) = 32"
proof
  fix s :: signature_share and y
  assume s: "ss_signerId s AND 0xffff = ss_signerId s \<and> length (ss_share s) = 32"
  then show "\<exists>y. encodeSignatureShare (ss_signerId s) (ss_share s) = Inr y"
    by (simp add: encodeSignatureShare_eq)
  assume "encodeSignatureShare (ss_signerId s) (ss_share s) = Inr y"
  with s show "decodeSignatureShare y = Inr s"
    by (auto simp: encodeSignatureShare_eq decodeSignatureShare_def slice_def leU16_bytes)
qed

lemma mapE_map: "(\<And>x. x \<in> set xs \<Longrightarrow> f x = Inr (g x)) \<Longrightarrow> mapE f xs = Inr (map g xs)"
  by (induction xs) auto

subsection \<open>Properties\<close>

text \<open>Nonce commitments on the wire. Encoding a signer id and two 32-byte points gives 75
  bytes that start with the Ed25519 group byte, and decoding them gives back the points and
  the signer id reduced to its 16 low bits, which is what two bytes can carry.\<close>

theorem commitment_roundtrip:
  assumes "length hiding = 32" and "length binding = 32"
  shows "\<exists>enc. encodeCommitment signerId hiding binding = Inr enc \<and> length enc = 75 \<and>
     hd enc = ED25519_GROUP_ID \<and>
     decodeCommitment enc =
       Inr \<lparr>fc_signerId = signerId AND 0xffff, fc_hiding = hiding, fc_binding = binding\<rparr>"
  using assms decodeCommitment_eq [OF assms, of "replicate 8 0" "loByte signerId" "hiByte signerId" "[]"]
  by (simp add: encodeCommitment_eq leU16_bytes)

theorem commitment_roundtrip_witness:
  "\<exists>enc. encodeCommitment 2 (replicate 32 7) (replicate 32 9) = Inr enc \<and> length enc = 75 \<and>
     hd enc = ED25519_GROUP_ID \<and>
     decodeCommitment enc =
       Inr \<lparr>fc_signerId = 2 AND 0xffff, fc_hiding = replicate 32 7, fc_binding = replicate 32 9\<rparr>"
  by (rule commitment_roundtrip) simp_all

text \<open>Signature shares on the wire. The same for a signer id and a 32-byte scalar, in 35
  bytes.\<close>

theorem signature_share_roundtrip:
  assumes "length sigShare = 32"
  shows "\<exists>enc. encodeSignatureShare signerId sigShare = Inr enc \<and> length enc = 35 \<and>
     decodeSignatureShare enc = Inr \<lparr>ss_signerId = signerId AND 0xffff, ss_share = sigShare\<rparr>"
  using assms
  by (simp add: encodeSignatureShare_eq decodeSignatureShare_def slice_def leU16_bytes)

theorem signature_share_roundtrip_witness:
  "\<exists>enc. encodeSignatureShare 2 (replicate 32 5) = Inr enc \<and> length enc = 35 \<and>
     decodeSignatureShare enc = Inr \<lparr>ss_signerId = 2 AND 0xffff, ss_share = replicate 32 5\<rparr>"
  by (rule signature_share_roundtrip) simp

text \<open>Decoders are total and checked. Decoding a commitment returns exactly when the array
  has at least 75 bytes and starts with the group byte, and then both points have 32 bytes;
  otherwise it throws the length error first and the group error second. No input makes it
  read out of range.\<close>

theorem decodeCommitment_domain:
  "decodeCommitment e =
     (if length e < 75 then Inl (InvalidCommitmentLength (length e))
      else if e ! 0 \<noteq> ED25519_GROUP_ID then Inl (UnexpectedGroupID (e ! 0))
      else Inr \<lparr>fc_signerId = leU16 (e ! 9) (e ! 10), fc_hiding = take 32 (drop 11 e),
                fc_binding = take 32 (drop 43 e)\<rparr>)"
  by (simp add: decodeCommitment_def slice_def)

text \<open>The commitment list handed to the signer is ordered by signer id whichever side is
  passed first: for two commitments with different ids, swapping the arguments does not change
  the list, and the smaller id comes first.\<close>

theorem buildCommitmentList_sorted:
  assumes s: "decodeCommitment sc = Inr a" and c: "decodeCommitment cc = Inr b"
    and lt: "sint (fc_signerId a) < sint (fc_signerId b)"
    and ids: "fromNumber (fc_signerId a) = Inr ia" "fromNumber (fc_signerId b) = Inr ib"
  shows "buildCommitmentList fromNumber sc cc =
      Inr [\<lparr>ce_identifier = ia, ce_hiding = fc_hiding a, ce_binding = fc_binding a\<rparr>,
           \<lparr>ce_identifier = ib, ce_hiding = fc_hiding b, ce_binding = fc_binding b\<rparr>] \<and>
    buildCommitmentList fromNumber cc sc = buildCommitmentList fromNumber sc cc"
  using assms by (simp add: buildCommitmentList_def Let_def)

theorem buildCommitmentList_sorted_witness:
  "buildCommitmentList (\<lambda>n. Inr [ucast n]) (0x06 # replicate 8 0 @ 1 # 0 # replicate 32 4 @ replicate 32 5)
       (0x06 # replicate 8 0 @ 2 # 0 # replicate 32 6 @ replicate 32 7) =
     Inr [\<lparr>ce_identifier = [1], ce_hiding = replicate 32 4, ce_binding = replicate 32 5\<rparr>,
          \<lparr>ce_identifier = [2], ce_hiding = replicate 32 6, ce_binding = replicate 32 7\<rparr>]"
proof -
  have a: "decodeCommitment (0x06 # replicate 8 0 @ 1 # 0 # replicate 32 4 @ replicate 32 5) =
      Inr \<lparr>fc_signerId = leU16 1 0, fc_hiding = replicate 32 4, fc_binding = replicate 32 5\<rparr>"
    using decodeCommitment_eq [of "replicate 32 4" "replicate 32 5" "replicate 8 0" 1 0 "[]"] by simp
  have b: "decodeCommitment (0x06 # replicate 8 0 @ 2 # 0 # replicate 32 6 @ replicate 32 7) =
      Inr \<lparr>fc_signerId = leU16 2 0, fc_hiding = replicate 32 6, fc_binding = replicate 32 7\<rparr>"
    using decodeCommitment_eq [of "replicate 32 6" "replicate 32 7" "replicate 8 0" 2 0 "[]"] by simp
  have "leU16 1 0 = 1" "leU16 2 0 = 2" by (simp_all add: leU16_def)
  then show ?thesis
    using buildCommitmentList_sorted [OF a b, of "\<lambda>n. Inr [ucast n]" "[1]" "[2]"] by simp
qed

end
