(* ===== verification/Buffers.thy ===== *)
theory Buffers
  imports Prelude
begin

text \<open>
  Byte buffers with identity. Where the program zeroes a \<open>Uint8Array\<close> to erase a secret,
  what matters is the buffer behind the reference, so the key material of the worker lives
  on an explicit heap of buffers. \<open>zeroMemory\<close> and \<open>zeroAll\<close> are those of
  \<open>web/src/lib/crypto/memory.ts\<close>.
\<close>

type_synonym addr = nat

record heap =
  hp_next :: addr
  hp_buf :: "addr \<Rightarrow> bytes"

definition empty_heap :: heap where
  "empty_heap = \<lparr>hp_next = 0, hp_buf = (\<lambda>_. [])\<rparr>"

text \<open>\<open>new Uint8Array(bs)\<close>: a fresh buffer holding a copy.\<close>

definition alloc :: "bytes \<Rightarrow> heap \<Rightarrow> addr \<times> heap" where
  "alloc bs h = (hp_next h, h\<lparr>hp_next := Suc (hp_next h), hp_buf := (hp_buf h)(hp_next h := bs)\<rparr>)"

definition writeBuf :: "addr \<Rightarrow> bytes \<Rightarrow> heap \<Rightarrow> heap" where
  "writeBuf a bs h = h\<lparr>hp_buf := (hp_buf h)(a := bs)\<rparr>"

subsection \<open>memory.ts\<close>

definition zeroMemory :: "addr \<Rightarrow> heap \<Rightarrow> heap" where
  "zeroMemory a h = writeBuf a (replicate (length (hp_buf h a)) 0) h"

definition zeroOpt :: "addr option \<Rightarrow> heap \<Rightarrow> heap" where
  "zeroOpt arr h = (case arr of Some a \<Rightarrow> zeroMemory a h | None \<Rightarrow> h)"

fun zeroAll :: "addr option list \<Rightarrow> heap \<Rightarrow> heap" where
  "zeroAll [] h = h"
| "zeroAll (arr # arrays) h = zeroAll arrays (zeroOpt arr h)"

definition isZero :: "heap \<Rightarrow> addr \<Rightarrow> bool" where
  "isZero h a \<longleftrightarrow> list_all (\<lambda>b. b = 0) (hp_buf h a)"

subsection \<open>Laws\<close>

lemma zeroMemory_buf: "hp_buf (zeroMemory a h) b = (if b = a then replicate (length (hp_buf h a)) 0 else hp_buf h b)"
  by (simp add: zeroMemory_def writeBuf_def)

lemma zeroMemory_next [simp]: "hp_next (zeroMemory a h) = hp_next h"
  by (simp add: zeroMemory_def writeBuf_def)

lemma isZero_zeroMemory [simp]: "isZero (zeroMemory a h) b \<longleftrightarrow> b = a \<or> isZero h b"
  by (auto simp: isZero_def zeroMemory_buf list_all_iff)

lemma writeBuf_next [simp]: "hp_next (writeBuf a bs h) = hp_next h"
  by (simp add: writeBuf_def)

lemma writeBuf_buf [simp]: "hp_buf (writeBuf a bs h) b = (if b = a then bs else hp_buf h b)"
  by (simp add: writeBuf_def)

lemma zeroOpt_next [simp]: "hp_next (zeroOpt r h) = hp_next h"
  by (cases r) (simp_all add: zeroOpt_def)

lemma isZero_zeroOpt [simp]: "isZero (zeroOpt r h) b \<longleftrightarrow> r = Some b \<or> isZero h b"
  by (cases r) (auto simp: zeroOpt_def)

lemma zeroOpt_buf: "hp_buf (zeroOpt r h) b = (if r = Some b then replicate (length (hp_buf h b)) 0 else hp_buf h b)"
  by (cases r) (auto simp: zeroOpt_def zeroMemory_buf)

lemma zeroAll_next [simp]: "hp_next (zeroAll as h) = hp_next h"
  by (induction as h rule: zeroAll.induct) auto

lemma zeroAll_other: "Some b \<notin> set as \<Longrightarrow> hp_buf (zeroAll as h) b = hp_buf h b"
  by (induction as h rule: zeroAll.induct) (auto simp: zeroOpt_buf)

lemma isZero_zeroAll [simp]: "isZero (zeroAll as h) b \<longleftrightarrow> Some b \<in> set as \<or> isZero h b"
  by (induction as h rule: zeroAll.induct) auto

text \<open>What allocation, and writes to some buffers, leave alone: \<open>h\<close> grows into \<open>h'\<close>, and below
  the old allocation mark only the buffers in \<open>W\<close> may differ.\<close>

definition grows :: "addr set \<Rightarrow> heap \<Rightarrow> heap \<Rightarrow> bool" where
  "grows W h h' \<longleftrightarrow> hp_next h \<le> hp_next h' \<and> (\<forall>a<hp_next h. a \<notin> W \<longrightarrow> hp_buf h' a = hp_buf h a)"

lemma grows_refl [simp, intro]: "grows W h h"
  by (simp add: grows_def)

lemma grows_trans: "grows V h h' \<Longrightarrow> grows W h' h'' \<Longrightarrow> grows (V \<union> W) h h''"
  by (auto simp: grows_def)

lemma grows_mono: "grows V h h' \<Longrightarrow> V \<subseteq> W \<Longrightarrow> grows W h h'"
  by (auto simp: grows_def)

lemma grows_alloc: "alloc bs h = (a, h') \<Longrightarrow> grows W h h'"
  by (auto simp: alloc_def grows_def)

lemma grows_zeroMemory: "a \<in> W \<Longrightarrow> grows W h (zeroMemory a h)"
  by (auto simp: grows_def zeroMemory_buf)

lemma grows_writeBuf: "a \<in> W \<Longrightarrow> grows W h (writeBuf a bs h)"
  by (auto simp: grows_def)

lemma grows_isZero: "grows W h h' \<Longrightarrow> a < hp_next h \<Longrightarrow> a \<notin> W \<Longrightarrow> isZero h' a = isZero h a"
  by (simp add: grows_def isZero_def)

end
