(* ===== verification/Frost.thy ===== *)
theory Frost
  imports FrostEncoding Buffers
begin

text \<open>
  The client side of FROST Ed25519 signing (\<open>web/src/lib/crypto/frost.ts\<close>). The
  \<open>@noble/curves\<close> operations are the fields of \<open>noble\<close>: \<open>commit\<close> takes the randomness it
  consumes as a seed, and \<open>signShare\<close> returns, beside its result, the contents of the two nonce
  buffers after the call, because the package may erase them. Nonces live on the heap of
  buffers, everything public is passed by value. The contract the worker relies on is the
  locale \<open>frost_signer\<close>.
\<close>

record frost_secret =
  se_identifier :: jsstring
  se_signingShare :: bytes

record frost_public =
  pu_min :: nat
  pu_max :: nat
  pu_commitments :: "bytes list"
  pu_verifyingShares :: "jsstring \<rightharpoonup> bytes"

record noble_commit =
  nc_hidingNonce :: bytes
  nc_bindingNonce :: bytes
  nc_identifier :: jsstring
  nc_hidingCommit :: bytes
  nc_bindingCommit :: bytes

record noble =
  nb_fromNumber :: "32 word \<Rightarrow> frost_error + jsstring"
  nb_commit :: "nat \<Rightarrow> frost_secret \<Rightarrow> frost_error + noble_commit"
  nb_signShare :: "frost_secret \<Rightarrow> frost_public \<Rightarrow> bytes \<Rightarrow> bytes \<Rightarrow> commitment_entry list \<Rightarrow> bytes \<Rightarrow>
     (frost_error + bytes) \<times> bytes \<times> bytes"
  nb_baseMultiply :: "int \<Rightarrow> frost_error + bytes"

record frost_nonces =
  fn_hiding :: addr
  fn_binding :: addr

record signing_state =
  sg_nonces :: frost_nonces
  sg_commitment :: bytes
  sg_message :: bytes
  sg_clientId :: jsstring

subsection \<open>Scalars\<close>

text \<open>The loop of \<open>bytesToScalar\<close>, counting \<open>i\<close> down from the length.\<close>

fun bytesToScalarLoop :: "bytes \<Rightarrow> nat \<Rightarrow> int \<Rightarrow> int" where
  "bytesToScalarLoop bs 0 result = result"
| "bytesToScalarLoop bs (Suc i) result =
     bytesToScalarLoop bs i (push_bit 8 result OR uint (bs ! i))"

definition bytesToScalar :: "bytes \<Rightarrow> int" where
  "bytesToScalar bs = bytesToScalarLoop bs (length bs) 0"

definition scalarMultiplyBase :: "noble \<Rightarrow> bytes \<Rightarrow> frost_error + bytes" where
  "scalarMultiplyBase nb scalar =
     bindE (guardE (length scalar = SCALAR_SIZE) (InvalidScalarLength (length scalar)))
       (\<lambda>_. nb_baseMultiply nb (bytesToScalar scalar))"

definition computeCommitment :: "noble \<Rightarrow> 32 word \<Rightarrow> bytes \<Rightarrow> bytes \<Rightarrow> frost_error + bytes" where
  "computeCommitment nb identifier hidingNonce bindingNonce =
     bindE (scalarMultiplyBase nb hidingNonce) (\<lambda>hidingCommitment.
     bindE (scalarMultiplyBase nb bindingNonce) (\<lambda>bindingCommitment.
       encodeCommitment identifier hidingCommitment bindingCommitment))"

subsection \<open>Round 1\<close>

definition SCALAR_OFFSET :: nat where "SCALAR_OFFSET = 103"

record nonce_bundle =
  nb_nonces :: frost_nonces
  nb_commitments :: noble_commit
  nb_clientId :: jsstring

definition generateNonces ::
  "noble \<Rightarrow> nat \<Rightarrow> bytes \<Rightarrow> bytes \<Rightarrow> bytes \<Rightarrow> heap \<Rightarrow> (frost_error + nonce_bundle) \<times> heap" where
  "generateNonces nb seed clientShare serverVerifyingShare clientVerifyingShare h =
     (case
        bindE (guardE (\<not> length clientShare < 100) (InvalidClientShareLength (length clientShare))) (\<lambda>_.
        bindE (guardE (clientShare ! 0 = ED25519_GROUP_ID) (InvalidClientShareGroup (clientShare ! 0))) (\<lambda>_.
        let clientIdNum = clientShare ! 1
        in bindE (guardE (\<not> (clientIdNum \<le> 0 \<or> 2 < clientIdNum)) (InvalidClientIdentifier clientIdNum)) (\<lambda>_.
           bindE (nb_fromNumber nb (ucast clientIdNum)) (\<lambda>clientId.
           let signingShare = slice clientShare SCALAR_OFFSET (SCALAR_OFFSET + SCALAR_SIZE)
           in bindE (guardE (\<not> length signingShare < SCALAR_SIZE) (InvalidSecretShare (length signingShare))) (\<lambda>_.
              bindE (nb_commit nb seed \<lparr>se_identifier = clientId, se_signingShare = signingShare\<rparr>)
                (\<lambda>result. Inr (clientId, result)))))))
      of Inl e \<Rightarrow> (Inl e, h)
       | Inr (clientId, result) \<Rightarrow>
           (let (ha, h1) = alloc (nc_hidingNonce result) h;
                (ba, h2) = alloc (nc_bindingNonce result) h1
            in (Inr \<lparr>nb_nonces = \<lparr>fn_hiding = ha, fn_binding = ba\<rparr>, nb_commitments = result,
                     nb_clientId = clientId\<rparr>, h2)))"

definition clientRound1 ::
  "noble \<Rightarrow> nat \<Rightarrow> bytes \<Rightarrow> bytes \<Rightarrow> bytes \<Rightarrow> bytes \<Rightarrow> bytes \<Rightarrow> heap \<Rightarrow>
     (frost_error + bytes \<times> signing_state) \<times> heap" where
  "clientRound1 nb seed clientShare serverVerifyingShare clientVerifyingShare groupPublicKey message h =
     (case generateNonces nb seed clientShare serverVerifyingShare clientVerifyingShare h of
        (Inl e, h') \<Rightarrow> (Inl e, h')
      | (Inr g, h') \<Rightarrow>
          (bindE (encodeCommitment 2 (nc_hidingCommit (nb_commitments g)) (nc_bindingCommit (nb_commitments g)))
             (\<lambda>commitment. Inr (commitment,
                \<lparr>sg_nonces = nb_nonces g, sg_commitment = commitment, sg_message = message,
                 sg_clientId = nb_clientId g\<rparr>)), h'))"

subsection \<open>Round 2\<close>

text \<open>Runs \<open>signShare\<close> on the nonce buffers and stores what it leaves in them.\<close>

definition computePartialSignature ::
  "noble \<Rightarrow> bytes \<Rightarrow> bytes \<Rightarrow> bytes \<Rightarrow> frost_nonces \<Rightarrow> commitment_entry list \<Rightarrow> bytes \<Rightarrow> jsstring \<Rightarrow> heap \<Rightarrow>
     (frost_error + bytes) \<times> heap" where
  "computePartialSignature nb clientShare serverVerifyingShare clientVerifyingShare nonces
       commitmentList message clientId h =
     (case
        bindE (nb_fromNumber nb 1) (\<lambda>serverId.
        let signingShare = slice clientShare SCALAR_OFFSET (SCALAR_OFFSET + SCALAR_SIZE)
        in bindE (extractVerifyingKey serverVerifyingShare) (\<lambda>serverVerifyingKey.
           bindE (extractVerifyingKey clientVerifyingShare) (\<lambda>clientVerifyingKey.
           Inr (\<lparr>se_identifier = clientId, se_signingShare = signingShare\<rparr>,
                \<lparr>pu_min = 2, pu_max = 2,
                 pu_commitments = extractCommitments serverVerifyingShare clientVerifyingShare,
                 pu_verifyingShares =
                   [serverId \<mapsto> serverVerifyingKey, clientId \<mapsto> clientVerifyingKey]\<rparr>))))
      of Inl e \<Rightarrow> (Inl e, h)
       | Inr (secret, pub) \<Rightarrow>
           (let (sigShare, hn, bn) = nb_signShare nb secret pub (hp_buf h (fn_hiding nonces))
                  (hp_buf h (fn_binding nonces)) commitmentList message;
                h' = writeBuf (fn_binding nonces) bn (writeBuf (fn_hiding nonces) hn h);
                signerId = (case js_nth clientShare 1 of Some b \<Rightarrow> ucast b | None \<Rightarrow> 0)
            in (bindE sigShare (\<lambda>sigShareBytes. encodeSignatureShare signerId sigShareBytes), h')))"

definition clientRound2 ::
  "noble \<Rightarrow> bytes \<Rightarrow> bytes \<Rightarrow> bytes \<Rightarrow> bytes \<Rightarrow> signing_state \<Rightarrow> bytes \<Rightarrow> heap \<Rightarrow>
     (frost_error + bytes) \<times> heap" where
  "clientRound2 nb clientShare serverVerifyingShare clientVerifyingShare groupPublicKey st serverCommitment h =
     (case buildCommitmentList (nb_fromNumber nb) serverCommitment (sg_commitment st) of
        Inl e \<Rightarrow> (Inl e, h)
      | Inr commitmentList \<Rightarrow>
          (case computePartialSignature nb clientShare serverVerifyingShare clientVerifyingShare
                  (sg_nonces st) commitmentList (sg_message st) (sg_clientId st) h of
             (Inl e, h') \<Rightarrow> (Inl e, h')
           | (Inr partialSig, h') \<Rightarrow>
               (Inr partialSig,
                zeroMemory (fn_binding (sg_nonces st)) (zeroMemory (fn_hiding (sg_nonces st)) h'))))"

subsection \<open>The signer, as the worker imports it\<close>

record signer =
  so_round1 :: "nat \<Rightarrow> bytes \<Rightarrow> bytes \<Rightarrow> bytes \<Rightarrow> bytes \<Rightarrow> bytes \<Rightarrow> heap \<Rightarrow>
     (frost_error + bytes \<times> signing_state) \<times> heap"
  so_round2 :: "bytes \<Rightarrow> bytes \<Rightarrow> bytes \<Rightarrow> bytes \<Rightarrow> signing_state \<Rightarrow> bytes \<Rightarrow> heap \<Rightarrow>
     (frost_error + bytes) \<times> heap"

definition frostSigner :: "noble \<Rightarrow> signer" where
  "frostSigner nb = \<lparr>so_round1 = clientRound1 nb, so_round2 = clientRound2 nb\<rparr>"

definition nonceAddrs :: "signing_state \<Rightarrow> addr set" where
  "nonceAddrs st = {fn_hiding (sg_nonces st), fn_binding (sg_nonces st)}"

text \<open>The contract of the two rounds: round 1 only allocates, and its nonces are new buffers;
  round 2 allocates nothing, touches no buffer but the two nonces, and erases both when it
  returns a signature.\<close>

locale frost_signer =
  fixes sg :: signer
  assumes round1_grows: "so_round1 sg seed s v c g m h = (r, h') \<Longrightarrow> grows {} h h'"
    and round1_fresh: "so_round1 sg seed s v c g m h = (Inr (cm, st), h') \<Longrightarrow>
          nonceAddrs st \<subseteq> {hp_next h..<hp_next h'} \<and> sg_commitment st = cm \<and> sg_message st = m"
    and round2_grows: "so_round2 sg s v c g st scm h = (r2, h') \<Longrightarrow>
          grows (nonceAddrs st) h h' \<and> hp_next h' = hp_next h"
    and round2_zeroes: "so_round2 sg s v c g st scm h = (Inr sig, h') \<Longrightarrow> a \<in> nonceAddrs st \<Longrightarrow> isZero h' a"

subsection \<open>Laws\<close>

lemma push_bit_or_byte: "0 \<le> r \<Longrightarrow> push_bit 8 r OR uint (b :: byte) = r * 256 + uint b"
proof -
  have "push_bit 8 r OR uint b = push_bit 8 r + uint b"
  proof (rule disjunctive_add [symmetric])
    fix n
    have "uint b = take_bit 8 (uint b)"
      by (rule take_bit_int_eq_self [symmetric]) simp_all
    then have "bit (uint b) n \<Longrightarrow> n < 8"
      by (metis bit_take_bit_iff)
    then show "\<not> bit (push_bit 8 r) n \<or> \<not> bit (uint b) n"
      by (auto simp: bit_push_bit_iff)
  qed
  then show ?thesis by (simp add: push_bit_eq_mult)
qed

lemma bytesToScalarLoop_eq:
  "i \<le> length bs \<Longrightarrow> 0 \<le> r \<Longrightarrow>
     bytesToScalarLoop bs i r = r * 256 ^ i + (\<Sum>j<i. uint (bs ! j) * 256 ^ j)"
proof (induction i arbitrary: r)
  case (Suc i)
  let ?b = "uint (bs ! i)"
  have "bytesToScalarLoop bs (Suc i) r = bytesToScalarLoop bs i (r * 256 + ?b)"
    using Suc.prems by (simp add: push_bit_or_byte)
  also have "\<dots> = (r * 256 + ?b) * 256 ^ i + (\<Sum>j<i. uint (bs ! j) * 256 ^ j)"
    using Suc.prems by (intro Suc.IH) auto
  also have "\<dots> = r * 256 ^ Suc i + (\<Sum>j<Suc i. uint (bs ! j) * 256 ^ j)"
    by (simp add: algebra_simps)
  finally show ?case .
qed simp

lemma little_endian_bound: "(\<Sum>j<n. uint ((bs ! j) :: byte) * 256 ^ j) < 256 ^ n"
proof (induction n)
  case (Suc n)
  have "uint (bs ! n) * 256 ^ n \<le> 255 * 256 ^ n"
    by (intro mult_right_mono) (use uint_byte [of "bs ! n"] in linarith, simp)
  with Suc show ?case unfolding sum.lessThan_Suc power_Suc by linarith
qed simp

lemma generateNonces_cases:
  assumes "generateNonces nb seed s v c h = (r, h')"
  shows "(\<exists>e. r = Inl e \<and> h' = h) \<or>
    (\<exists>g. r = Inr g \<and> fn_hiding (nb_nonces g) = hp_next h \<and> fn_binding (nb_nonces g) = Suc (hp_next h) \<and>
       hp_next h' = Suc (Suc (hp_next h)) \<and> grows {} h h' \<and>
       hp_buf h' (hp_next h) = nc_hidingNonce (nb_commitments g) \<and>
       hp_buf h' (Suc (hp_next h)) = nc_bindingNonce (nb_commitments g))"
  using assms by (auto simp: generateNonces_def alloc_def grows_def Let_def split: sum.splits prod.splits)

lemma clientRound1_grows: "clientRound1 nb seed s v c g m h = (r, h') \<Longrightarrow> grows {} h h'"
  using generateNonces_cases [of nb seed s v c h]
  by (fastforce simp: clientRound1_def split: prod.splits sum.splits)

lemma clientRound1_fresh:
  assumes "clientRound1 nb seed s v c g m h = (Inr (cm, st), h')"
  shows "nonceAddrs st \<subseteq> {hp_next h..<hp_next h'} \<and> sg_commitment st = cm \<and> sg_message st = m"
proof -
  obtain b where gen: "generateNonces nb seed s v c h = (Inr b, h')"
    and st: "sg_nonces st = nb_nonces b" "sg_commitment st = cm" "sg_message st = m"
    using assms by (auto simp: clientRound1_def bindE_Inr_iff split: prod.splits sum.splits)
  from generateNonces_cases [OF gen] st show ?thesis by (auto simp: nonceAddrs_def)
qed

lemma computePartialSignature_grows:
  "computePartialSignature nb s v c n cl m i h = (r, h') \<Longrightarrow>
     grows {fn_hiding n, fn_binding n} h h' \<and> hp_next h' = hp_next h"
  by (auto simp: computePartialSignature_def grows_def Let_def split: sum.splits prod.splits)

lemma clientRound2_grows:
  assumes "clientRound2 nb s v c g st scm h = (r, h')"
  shows "grows (nonceAddrs st) h h' \<and> hp_next h' = hp_next h"
proof (cases "buildCommitmentList (nb_fromNumber nb) scm (sg_commitment st)")
  case (Inl e)
  with assms show ?thesis by (auto simp: clientRound2_def)
next
  case (Inr cl)
  obtain r1 h1 where c: "computePartialSignature nb s v c (sg_nonces st) cl (sg_message st) (sg_clientId st) h = (r1, h1)"
    by (meson surj_pair)
  have g1: "grows (nonceAddrs st) h h1" "hp_next h1 = hp_next h"
    using computePartialSignature_grows [OF c] by (simp_all add: nonceAddrs_def)
  show ?thesis
  proof (cases r1)
    case (Inl e)
    with Inr c assms g1 show ?thesis by (simp add: clientRound2_def)
  next
    case (Inr sig)
    with \<open>buildCommitmentList _ _ _ = Inr cl\<close> c assms have
      h': "h' = zeroMemory (fn_binding (sg_nonces st)) (zeroMemory (fn_hiding (sg_nonces st)) h1)"
      by (simp add: clientRound2_def)
    have "grows (nonceAddrs st) h1 h'"
      by (auto simp: h' grows_def zeroMemory_buf nonceAddrs_def)
    with g1 show ?thesis using grows_trans [of "nonceAddrs st" h h1 "nonceAddrs st"] h' by simp
  qed
qed

lemma clientRound2_zeroes:
  "clientRound2 nb s v c g st scm h = (Inr sig, h') \<Longrightarrow> a \<in> nonceAddrs st \<Longrightarrow> isZero h' a"
  by (auto simp: clientRound2_def nonceAddrs_def split: sum.splits prod.splits)

interpretation frost_rounds: frost_signer "frostSigner nb" for nb
  by unfold_locales
    (auto simp: frostSigner_def dest: clientRound1_grows clientRound1_fresh clientRound2_grows clientRound2_zeroes)

subsection \<open>Properties\<close>

text \<open>\<open>bytesToScalar\<close> reads the array as an unsigned little-endian number, whatever its
  length, so 32 bytes give a value below two to the 256.\<close>

theorem bytesToScalar_little_endian:
  "bytesToScalar bs = (\<Sum>j<length bs. uint (bs ! j) * 256 ^ j) \<and>
   0 \<le> bytesToScalar bs \<and> bytesToScalar bs < 256 ^ length bs"
proof -
  have eq: "bytesToScalar bs = (\<Sum>j<length bs. uint (bs ! j) * 256 ^ j)"
    by (simp add: bytesToScalar_def bytesToScalarLoop_eq)
  then show ?thesis using little_endian_bound by (simp add: sum_nonneg)
qed

text \<open>C21: round 2 erases its nonces. Whenever \<open>clientRound2\<close> returns a partial signature, both
  nonce buffers of the signing state hold only zeros afterwards, and every other buffer is as
  it was.\<close>

theorem clientRound2_erases_nonces:
  assumes "clientRound2 nb s v c g st scm h = (Inr sig, h')"
  shows "isZero h' (fn_hiding (sg_nonces st)) \<and> isZero h' (fn_binding (sg_nonces st)) \<and>
    (\<forall>a. a < hp_next h \<and> a \<notin> nonceAddrs st \<longrightarrow> hp_buf h' a = hp_buf h a)"
  using clientRound2_zeroes [OF assms] clientRound2_grows [OF assms]
  by (auto simp: nonceAddrs_def grows_def)

text \<open>A concrete stand-in for the package, for the witnesses: constant nonces, points and share,
  and a \<open>signShare\<close> that leaves the nonces as they are.\<close>

definition toy_noble :: noble where
  "toy_noble =
     \<lparr>nb_fromNumber = (\<lambda>n. Inr [ucast n]),
      nb_commit = (\<lambda>seed secret. Inr \<lparr>nc_hidingNonce = replicate 32 (word_of_nat seed),
         nc_bindingNonce = replicate 32 3, nc_identifier = se_identifier secret,
         nc_hidingCommit = replicate 32 4, nc_bindingCommit = replicate 32 5\<rparr>),
      nb_signShare = (\<lambda>secret pub hn bn cl m. (Inr (replicate 32 6), hn, bn)),
      nb_baseMultiply = (\<lambda>n. Inr (replicate 32 7))\<rparr>"

definition toy_share :: bytes where "toy_share = 6 # 2 # replicate 165 0"
definition toy_verifying :: bytes where "toy_verifying = replicate 103 0"
definition toy_server_commitment :: bytes where
  "toy_server_commitment = 6 # replicate 8 0 @ 1 # 0 # replicate 64 8"

definition toy_round1 :: "(frost_error + bytes \<times> signing_state) \<times> heap" where
  "toy_round1 = clientRound1 toy_noble 9 toy_share toy_verifying toy_verifying [] [1] empty_heap"

lemma toy_round1_ok: "isOk (fst toy_round1)"
  by code_simp

theorem clientRound2_erases_nonces_witness:
  "\<exists>cm st h sig h'. toy_round1 = (Inr (cm, st), h) \<and>
     clientRound2 toy_noble toy_share toy_verifying toy_verifying [] st toy_server_commitment h = (Inr sig, h') \<and>
     isZero h' (fn_hiding (sg_nonces st)) \<and> isZero h' (fn_binding (sg_nonces st))"
proof -
  obtain cm st h where r1: "toy_round1 = (Inr (cm, st), h)"
    using toy_round1_ok unfolding isOk_iff by (metis prod.collapse)
  have "isOk (fst (let st = snd (projr (fst toy_round1)) in
      clientRound2 toy_noble toy_share toy_verifying toy_verifying [] st toy_server_commitment (snd toy_round1)))"
    by code_simp
  then obtain sig h' where
    r2: "clientRound2 toy_noble toy_share toy_verifying toy_verifying [] st toy_server_commitment h = (Inr sig, h')"
    by (simp add: r1 isOk_iff) (metis prod.collapse)
  show ?thesis using r1 r2 clientRound2_erases_nonces [OF r2] by blast
qed

end
