(* ===== verification/FrostWorker.thy ===== *)
theory FrostWorker
  imports Frost
begin

text \<open>
  The FROST web worker (\<open>web/src/workers/frost-worker.ts\<close>): its module state, one definition
  per handler, and the event loop as a step relation (a message arrives, the inactivity timer
  fires, time passes). Key material is held as references into the heap of buffers. Messages
  carry their payload object; whether a field of it is a \<open>Uint8Array\<close> is part of the message.
  The handlers take the signer they import as an argument, and the lemmas about them are proved
  in the locale \<open>frost_signer\<close>, from its contract alone.
\<close>

subsection \<open>Messages and responses\<close>

datatype js_value = JsUndefined | JsOther | JsU8 bytes

record init_payload =
  ip_share :: js_value
  ip_groupPublicKey :: js_value
  ip_verifyingShares :: "(js_value \<times> js_value) option"
  ip_timeoutMs :: "int option"

datatype worker_message =
    MInit init_payload
  | MRound1 js_value
  | MRound2 js_value
  | MStatus
  | MTerminate
  | MUnknown jsstring

datatype signing_round = RoundIdle | Round1 | Round2 | RoundComplete

record signing_session =
  si_sessionId :: jsstring
  si_round :: signing_round
  si_commitment :: "bytes option"
  si_partialSignature :: "bytes option"

datatype worker_error =
    EInvalidShare | EInvalidGroupPublicKey | EInvalidServerShare | EInvalidClientShare
  | ENotInitialized | EInvalidMessage | ENoActiveSession | EInvalidServerCommitment
  | ESigner frost_error | EUnknownMessageType jsstring

datatype worker_response =
    RReady
  | RCommitment bytes
  | RPartialSig bytes
  | RError worker_error
  | RTerminated
  | RStatus bool "int option" "signing_session option"

subsection \<open>State\<close>

type_synonym timer = nat

record worker =
  w_share :: "addr option"
  w_groupPublicKey :: "addr option"
  w_serverVerifyingShare :: "addr option"
  w_clientVerifyingShare :: "addr option"
  w_signingState :: "signing_state option"
  w_session :: "signing_session option"
  w_inactivityTimer :: "timer option"
  w_initTimestamp :: "int option"
  w_timeoutMs :: int
  w_heap :: heap                      \<comment> \<open>the buffers\<close>
  w_timers :: "(timer \<times> int) list"    \<comment> \<open>pending timeouts with their due time\<close>
  w_nextTimer :: timer
  w_now :: int                        \<comment> \<open>\<open>Date.now()\<close>\<close>
  w_out :: "worker_response list"     \<comment> \<open>posted to the main thread, oldest first\<close>
  w_closed :: bool                    \<comment> \<open>\<open>self.close()\<close> was called\<close>

definition DEFAULT_TIMEOUT_MS :: int where "DEFAULT_TIMEOUT_MS = 30 * 60 * 1000"

definition initial_worker :: worker where
  "initial_worker =
     \<lparr>w_share = None, w_groupPublicKey = None, w_serverVerifyingShare = None,
      w_clientVerifyingShare = None, w_signingState = None, w_session = None,
      w_inactivityTimer = None, w_initTimestamp = None, w_timeoutMs = DEFAULT_TIMEOUT_MS,
      w_heap = empty_heap, w_timers = [], w_nextTimer = 1, w_now = 0, w_out = [], w_closed = False\<rparr>"

subsection \<open>Helpers\<close>

definition postResponse :: "worker_response \<Rightarrow> worker \<Rightarrow> worker" where
  "postResponse r w = w\<lparr>w_out := w_out w @ [r]\<rparr>"

definition postError :: "worker_error \<Rightarrow> worker \<Rightarrow> worker" where
  "postError e w = postResponse (RError e) w"

definition clearInactivityTimer :: "worker \<Rightarrow> worker" where
  "clearInactivityTimer w =
     (case w_inactivityTimer w of
        Some t \<Rightarrow> w\<lparr>w_timers := filter (\<lambda>p. fst p \<noteq> t) (w_timers w), w_inactivityTimer := None\<rparr>
      | None \<Rightarrow> w)"

text \<open>\<open>setTimeout(handler, ms)\<close>: a new handle. The platform takes the delay as a signed 32-bit
  integer, and a negative delay as 0.\<close>

definition timerDelay :: "int \<Rightarrow> int" where
  "timerDelay ms = max 0 (sint (word_of_int ms :: 32 word))"

definition setTimer :: "int \<Rightarrow> worker \<Rightarrow> timer \<times> worker" where
  "setTimer ms w =
     (w_nextTimer w, w\<lparr>w_nextTimer := Suc (w_nextTimer w),
                       w_timers := w_timers w @ [(w_nextTimer w, w_now w + timerDelay ms)]\<rparr>)"

definition resetInactivityTimer :: "worker \<Rightarrow> worker" where
  "resetInactivityTimer w0 =
     (let w1 = clearInactivityTimer w0;
          w2 = w1\<lparr>w_initTimestamp := Some (w_now w1)\<rparr>;
          (t, w3) = setTimer (w_timeoutMs w2) w2
      in w3\<lparr>w_inactivityTimer := Some t\<rparr>)"

definition zeroIf :: "addr option \<Rightarrow> worker \<Rightarrow> worker" where
  "zeroIf r w = (case r of Some a \<Rightarrow> w\<lparr>w_heap := zeroMemory a (w_heap w)\<rparr> | None \<Rightarrow> w)"

definition clearState :: "worker \<Rightarrow> worker" where
  "clearState w0 =
     (let w1 = (zeroIf (w_share w0) w0)\<lparr>w_share := None\<rparr>;
          w2 = (zeroIf (w_groupPublicKey w1) w1)\<lparr>w_groupPublicKey := None\<rparr>;
          w3 = (zeroIf (w_serverVerifyingShare w2) w2)\<lparr>w_serverVerifyingShare := None\<rparr>;
          w4 = (zeroIf (w_clientVerifyingShare w3) w3)\<lparr>w_clientVerifyingShare := None\<rparr>;
          w5 = (case w_signingState w4 of
                  None \<Rightarrow> w4
                | Some st \<Rightarrow>
                    (zeroIf (Some (fn_binding (sg_nonces st))) (zeroIf (Some (fn_hiding (sg_nonces st))) w4))
                      \<lparr>w_signingState := None\<rparr>);
          w6 = w5\<lparr>w_session := None, w_initTimestamp := None\<rparr>
      in clearInactivityTimer w6)"

subsection \<open>Handlers\<close>

definition newBuffer :: "bytes \<Rightarrow> worker \<Rightarrow> addr \<times> worker" where
  "newBuffer bs w = (let (a, h) = alloc bs (w_heap w) in (a, w\<lparr>w_heap := h\<rparr>))"

definition storeKeys :: "bytes \<Rightarrow> bytes \<Rightarrow> bytes \<Rightarrow> bytes \<Rightarrow> worker \<Rightarrow> worker" where
  "storeKeys share groupPublicKey server client w0 =
     (let (a, w1) = newBuffer share w0; w2 = w1\<lparr>w_share := Some a\<rparr>;
          (b, w3) = newBuffer groupPublicKey w2; w4 = w3\<lparr>w_groupPublicKey := Some b\<rparr>;
          (c, w5) = newBuffer server w4; w6 = w5\<lparr>w_serverVerifyingShare := Some c\<rparr>;
          (d, w7) = newBuffer client w6
      in w7\<lparr>w_clientVerifyingShare := Some d\<rparr>)"

definition setTimeoutOption :: "int option \<Rightarrow> worker \<Rightarrow> worker" where
  "setTimeoutOption t w = (case t of Some ms \<Rightarrow> if 0 < ms then w\<lparr>w_timeoutMs := ms\<rparr> else w | None \<Rightarrow> w)"

definition handleInit :: "init_payload \<Rightarrow> worker \<Rightarrow> worker" where
  "handleInit p w0 =
     (let w = clearState w0
      in case ip_share p of JsU8 share \<Rightarrow>
          (case ip_groupPublicKey p of JsU8 gpk \<Rightarrow>
             (case ip_verifyingShares p of
                Some (JsU8 server, vc) \<Rightarrow>
                  (case vc of JsU8 client \<Rightarrow>
                     postResponse RReady
                       (resetInactivityTimer
                         (setTimeoutOption (ip_timeoutMs p) (storeKeys share gpk server client w)))
                   | _ \<Rightarrow> postError EInvalidClientShare w)
              | _ \<Rightarrow> postError EInvalidServerShare w)
           | _ \<Rightarrow> postError EInvalidGroupPublicKey w)
        | _ \<Rightarrow> postError EInvalidShare w)"

definition handleRound1 :: "signer \<Rightarrow> nat \<Rightarrow> js_value \<Rightarrow> worker \<Rightarrow> worker" where
  "handleRound1 sg seed message w =
     (case (w_share w, w_groupPublicKey w, w_serverVerifyingShare w, w_clientVerifyingShare w) of
        (Some share, Some gpk, Some server, Some client) \<Rightarrow>
          (case message of
             JsU8 m \<Rightarrow>
               (let w1 = resetInactivityTimer w; h = w_heap w1
                in case so_round1 sg seed (hp_buf h share) (hp_buf h server) (hp_buf h client) (hp_buf h gpk) m h of
                     (Inr (commitment, st), h') \<Rightarrow>
                       postResponse (RCommitment commitment)
                         (w1\<lparr>w_heap := h', w_signingState := Some st,
                             w_session := Some \<lparr>si_sessionId = [], si_round = Round1,
                               si_commitment = Some commitment, si_partialSignature = None\<rparr>\<rparr>)
                   | (Inl e, h') \<Rightarrow> postError (ESigner e) (w1\<lparr>w_heap := h'\<rparr>))
           | _ \<Rightarrow> postError EInvalidMessage w)
      | _ \<Rightarrow> postError ENotInitialized w)"

definition handleRound2 :: "signer \<Rightarrow> js_value \<Rightarrow> worker \<Rightarrow> worker" where
  "handleRound2 sg serverCommitment w =
     (case (w_share w, w_groupPublicKey w, w_serverVerifyingShare w, w_clientVerifyingShare w) of
        (Some share, Some gpk, Some server, Some client) \<Rightarrow>
          (case w_signingState w of
             None \<Rightarrow> postError ENoActiveSession w
           | Some st \<Rightarrow>
               (case serverCommitment of
                  JsU8 scm \<Rightarrow>
                    (let w1 = resetInactivityTimer w; h = w_heap w1
                     in case so_round2 sg (hp_buf h share) (hp_buf h server) (hp_buf h client) (hp_buf h gpk) st scm h of
                          (Inr partialSignature, h') \<Rightarrow>
                            (postResponse (RPartialSig partialSignature)
                               (w1\<lparr>w_heap := h', w_signingState := None,
                                   w_session := map_option (\<lambda>s. s\<lparr>si_round := Round2,
                                     si_partialSignature := Some partialSignature\<rparr>) (w_session w1)\<rparr>))
                              \<lparr>w_session := None\<rparr>
                        | (Inl e, h') \<Rightarrow>
                            postError (ESigner e) (w1\<lparr>w_heap := h', w_signingState := None, w_session := None\<rparr>))
                | _ \<Rightarrow> postError EInvalidServerCommitment w))
      | _ \<Rightarrow> postError ENotInitialized w)"

definition handleStatus :: "worker \<Rightarrow> worker" where
  "handleStatus w =
     (let isActive = w_share w \<noteq> None;
          remainingTime = (case w_initTimestamp w of
             Some t0 \<Rightarrow> if isActive then Some (max 0 (w_timeoutMs w - (w_now w - t0))) else None
           | None \<Rightarrow> None)
      in postResponse (RStatus isActive remainingTime (w_session w)) w)"

definition handleTerminate :: "worker \<Rightarrow> worker" where
  "handleTerminate w = (postResponse RTerminated (clearState w))\<lparr>w_closed := True\<rparr>"

fun handleMessage :: "signer \<Rightarrow> nat \<Rightarrow> worker_message \<Rightarrow> worker \<Rightarrow> worker" where
  "handleMessage sg seed (MInit p) w = handleInit p w"
| "handleMessage sg seed (MRound1 m) w = handleRound1 sg seed m w"
| "handleMessage sg seed (MRound2 c) w = handleRound2 sg c w"
| "handleMessage sg seed MStatus w = handleStatus w"
| "handleMessage sg seed MTerminate w = handleTerminate w"
| "handleMessage sg seed (MUnknown t) w = postError (EUnknownMessageType t) w"

text \<open>A timeout fires: it is no longer pending, and its handler terminates the worker.\<close>

definition fireTimer :: "timer \<times> int \<Rightarrow> worker \<Rightarrow> worker" where
  "fireTimer p w = handleTerminate (w\<lparr>w_timers := filter (\<lambda>q. q \<noteq> p) (w_timers w)\<rparr>)"

text \<open>The event loop. After \<open>self.close()\<close> no task runs.\<close>

inductive wstep :: "signer \<Rightarrow> worker \<Rightarrow> worker \<Rightarrow> bool" for sg where
  receive: "\<not> w_closed w \<Longrightarrow> wstep sg w (handleMessage sg seed m w)"
| fire: "\<not> w_closed w \<Longrightarrow> p \<in> set (w_timers w) \<Longrightarrow> snd p \<le> w_now w \<Longrightarrow> wstep sg w (fireTimer p w)"
| tick: "0 \<le> d \<Longrightarrow> wstep sg w (w\<lparr>w_now := w_now w + d\<rparr>)"

inductive_cases wstepE: "wstep sg w w'"

abbreviation wreach :: "signer \<Rightarrow> worker \<Rightarrow> bool" where
  "wreach sg \<equiv> reach (\<lambda>w. w = initial_worker) (wstep sg)"

subsection \<open>Invariant\<close>

definition keyRefs :: "worker \<Rightarrow> addr option list" where
  "keyRefs w = [w_share w, w_groupPublicKey w, w_serverVerifyingShare w, w_clientVerifyingShare w]"

definition keyAddrs :: "worker \<Rightarrow> addr set" where
  "keyAddrs w = {a. Some a \<in> set (keyRefs w)}"

definition signingAddrs :: "worker \<Rightarrow> addr set" where
  "signingAddrs w = (case w_signingState w of Some st \<Rightarrow> nonceAddrs st | None \<Rightarrow> {})"

definition heldAddrs :: "worker \<Rightarrow> addr set" where
  "heldAddrs w = keyAddrs w \<union> signingAddrs w"

text \<open>Unlocked: all four keys, and exactly one pending timeout, which is the inactivity timer and
  is due after the delay of \<open>timeoutMs\<close> from the last reset. Locked: nothing held, nothing pending.\<close>

definition unlockedOk :: "worker \<Rightarrow> bool" where
  "unlockedOk w \<longleftrightarrow> list_all (\<lambda>r. r \<noteq> None) (keyRefs w) \<and>
     (\<exists>t t0. w_inactivityTimer w = Some t \<and> w_initTimestamp w = Some t0 \<and>
        w_timers w = [(t, t0 + timerDelay (w_timeoutMs w))] \<and> t0 \<le> w_now w)"

definition lockedOk :: "worker \<Rightarrow> bool" where
  "lockedOk w \<longleftrightarrow> list_all (\<lambda>r. r = None) (keyRefs w) \<and> w_signingState w = None \<and>
     w_inactivityTimer w = None \<and> w_initTimestamp w = None \<and> w_timers w = []"

definition workerInv :: "worker \<Rightarrow> bool" where
  "workerInv w \<longleftrightarrow>
     (if w_share w = None then lockedOk w else unlockedOk w) \<and>
     (w_closed w \<longrightarrow> w_share w = None) \<and>
     (w_session w = None \<longleftrightarrow> w_signingState w = None) \<and>
     0 < w_timeoutMs w \<and>
     (\<forall>a\<in>heldAddrs w. a < hp_next (w_heap w)) \<and>
     keyAddrs w \<inter> signingAddrs w = {} \<and>
     (\<forall>p\<in>set (w_timers w). fst p < w_nextTimer w)"

subsection \<open>Abstract protocol\<close>

text \<open>What the main thread may rely on, as an automaton over the posted responses: signing needs a
  \<open>ready\<close>, a partial signature needs a commitment of its own, and nothing follows \<open>terminated\<close>.\<close>

datatype protocol_state = PLocked | PUnlocked | PCommitted | PClosed

fun protocolStep :: "protocol_state \<Rightarrow> worker_response \<Rightarrow> protocol_state option" where
  "protocolStep PClosed r = None"
| "protocolStep s RReady = Some PUnlocked"
| "protocolStep s (RCommitment c) = (if s = PLocked then None else Some PCommitted)"
| "protocolStep s (RPartialSig p) = (if s = PCommitted then Some PUnlocked else None)"
| "protocolStep s RTerminated = Some PClosed"
| "protocolStep s (RError e) = Some s"
| "protocolStep s (RStatus a t ss) = Some s"

fun protocolRun :: "protocol_state \<Rightarrow> worker_response list \<Rightarrow> protocol_state option" where
  "protocolRun s [] = Some s"
| "protocolRun s (r # rs) = Option.bind (protocolStep s r) (\<lambda>s'. protocolRun s' rs)"

text \<open>The simulation relation between the worker and the automaton.\<close>

definition simulates :: "worker \<Rightarrow> protocol_state \<Rightarrow> bool" where
  "simulates w s \<longleftrightarrow> protocolRun PLocked (w_out w) = Some s \<and> (w_closed w \<longleftrightarrow> s = PClosed) \<and>
     (w_share w \<noteq> None \<longrightarrow> s \<noteq> PLocked) \<and> (w_signingState w \<noteq> None \<longrightarrow> s = PCommitted)"

definition workerOk :: "worker \<Rightarrow> bool" where
  "workerOk w \<longleftrightarrow> workerInv w \<and> (\<exists>s. simulates w s)"

subsection \<open>What the handlers do to the state\<close>

definition signingRefs :: "worker \<Rightarrow> addr option list" where
  "signingRefs w = (case w_signingState w of
     Some st \<Rightarrow> [Some (fn_hiding (sg_nonces st)), Some (fn_binding (sg_nonces st))] | None \<Rightarrow> [])"

text \<open>The timeouts that stay pending when the inactivity timer is cleared.\<close>

definition otherTimers :: "worker \<Rightarrow> (timer \<times> int) list" where
  "otherTimers w = (case w_inactivityTimer w of
     Some t \<Rightarrow> filter (\<lambda>p. fst p \<noteq> t) (w_timers w) | None \<Rightarrow> w_timers w)"

lemma clearInactivityTimer_eq:
  "clearInactivityTimer w = w\<lparr>w_timers := otherTimers w, w_inactivityTimer := None\<rparr>"
  by (cases w) (simp add: clearInactivityTimer_def otherTimers_def split: option.splits)

lemma zeroIf_eq: "zeroIf r w = w\<lparr>w_heap := zeroOpt r (w_heap w)\<rparr>"
  by (cases r) (simp_all add: zeroIf_def zeroOpt_def)

lemma clearState_eq:
  "clearState w = w\<lparr>w_share := None, w_groupPublicKey := None, w_serverVerifyingShare := None,
     w_clientVerifyingShare := None, w_signingState := None, w_session := None,
     w_inactivityTimer := None, w_initTimestamp := None,
     w_heap := zeroAll (keyRefs w @ signingRefs w) (w_heap w), w_timers := otherTimers w\<rparr>"
  by (cases "w_signingState w"; cases w)
    (simp_all add: clearState_def zeroIf_eq clearInactivityTimer_eq keyRefs_def signingRefs_def Let_def
      otherTimers_def split: option.split)

lemma signingRefs_addrs: "Some a \<in> set (signingRefs w) \<longleftrightarrow> a \<in> signingAddrs w"
  by (auto simp: signingRefs_def signingAddrs_def nonceAddrs_def split: option.splits)

lemma heldAddrs_refs: "a \<in> heldAddrs w \<longleftrightarrow> Some a \<in> set (keyRefs w @ signingRefs w)"
  by (simp add: heldAddrs_def keyAddrs_def signingRefs_addrs)

lemma resetInactivityTimer_eq:
  "resetInactivityTimer w = w\<lparr>w_inactivityTimer := Some (w_nextTimer w), w_initTimestamp := Some (w_now w),
     w_nextTimer := Suc (w_nextTimer w),
     w_timers := otherTimers w @ [(w_nextTimer w, w_now w + timerDelay (w_timeoutMs w))]\<rparr>"
  by (cases w) (simp add: resetInactivityTimer_def clearInactivityTimer_eq setTimer_def otherTimers_def)

lemma storeKeys_eq:
  "storeKeys s g v c w = (let n = hp_next (w_heap w) in
     w\<lparr>w_share := Some n, w_groupPublicKey := Some (n + 1), w_serverVerifyingShare := Some (n + 2),
       w_clientVerifyingShare := Some (n + 3),
       w_heap := \<lparr>hp_next = n + 4, hp_buf = (hp_buf (w_heap w))(n := s, n + 1 := g, n + 2 := v, n + 3 := c)\<rparr>\<rparr>)"
  by (cases w) (simp add: storeKeys_def newBuffer_def alloc_def Let_def eval_nat_numeral)

lemmas worker_effects = clearState_eq resetInactivityTimer_eq storeKeys_eq postResponse_def postError_def
  setTimeoutOption_def

lemmas worker_views = keyRefs_def keyAddrs_def signingAddrs_def heldAddrs_def

lemma sint_word_of_int_32: "0 \<le> n \<Longrightarrow> n < 2147483648 \<Longrightarrow> sint (word_of_int n :: 32 word) = n"
  by (simp add: signed_of_int signed_take_bit_int_eq_self)

lemma workerInv_timer: "workerInv w \<Longrightarrow> otherTimers w = []"
  by (auto simp: workerInv_def unlockedOk_def lockedOk_def otherTimers_def split: if_splits)

lemma workerInv_clearState: "workerInv w \<Longrightarrow> workerInv (clearState w) \<and> lockedOk (clearState w)"
  using workerInv_timer [of w]
  by (auto simp: workerInv_def lockedOk_def clearState_eq worker_views)

lemma workerInv_post [simp]:
  "workerInv (postResponse r w) = workerInv w" "workerInv (postError e w) = workerInv w"
  by (simp_all add: workerInv_def unlockedOk_def lockedOk_def worker_views postResponse_def postError_def)

lemma workerInv_handleTerminate: "workerInv w \<Longrightarrow> workerInv (handleTerminate w)"
  using workerInv_clearState [of w]
  by (simp add: handleTerminate_def workerInv_def lockedOk_def unlockedOk_def worker_views postResponse_def
      split: if_splits)

lemma lockedOk_handleTerminate: "workerInv w \<Longrightarrow> lockedOk (handleTerminate w)"
  using workerInv_clearState [of w]
  by (simp add: handleTerminate_def lockedOk_def worker_views postResponse_def)

lemma workerInv_reset:
  "workerInv w \<Longrightarrow> w_share w \<noteq> None \<Longrightarrow> workerInv (resetInactivityTimer w)"
  using workerInv_timer [of w]
  by (auto simp: workerInv_def unlockedOk_def resetInactivityTimer_eq worker_views)

lemma views_heap [simp]:
  "keyAddrs (w\<lparr>w_heap := h\<rparr>) = keyAddrs w" "signingAddrs (w\<lparr>w_heap := h\<rparr>) = signingAddrs w"
  "heldAddrs (w\<lparr>w_heap := h\<rparr>) = heldAddrs w"
  "lockedOk (w\<lparr>w_heap := h\<rparr>) = lockedOk w" "unlockedOk (w\<lparr>w_heap := h\<rparr>) = unlockedOk w"
  by (simp_all add: worker_views lockedOk_def unlockedOk_def)

lemma views_signing [simp]:
  "keyAddrs (w\<lparr>w_signingState := st, w_session := ss\<rparr>) = keyAddrs w"
  "unlockedOk (w\<lparr>w_signingState := st, w_session := ss\<rparr>) = unlockedOk w"
  "signingAddrs (w\<lparr>w_signingState := st, w_session := ss\<rparr>) = (case st of Some s \<Rightarrow> nonceAddrs s | None \<Rightarrow> {})"
  "heldAddrs (w\<lparr>w_signingState := st, w_session := ss\<rparr>) =
     keyAddrs w \<union> (case st of Some s \<Rightarrow> nonceAddrs s | None \<Rightarrow> {})"
  by (simp_all add: worker_views unlockedOk_def)

lemma views_reset [simp]:
  "keyAddrs (resetInactivityTimer w) = keyAddrs w" "signingAddrs (resetInactivityTimer w) = signingAddrs w"
  "heldAddrs (resetInactivityTimer w) = heldAddrs w" "w_heap (resetInactivityTimer w) = w_heap w"
  "w_share (resetInactivityTimer w) = w_share w" "w_signingState (resetInactivityTimer w) = w_signingState w"
  "w_out (resetInactivityTimer w) = w_out w" "w_closed (resetInactivityTimer w) = w_closed w"
  by (simp_all add: worker_views resetInactivityTimer_eq)

lemma workerInv_heap:
  assumes "workerInv w" and "hp_next (w_heap w) \<le> hp_next h'"
  shows "workerInv (w\<lparr>w_heap := h'\<rparr>)"
  using assms by (auto simp: workerInv_def intro: less_le_trans)

lemma workerInv_signing:
  assumes "workerInv w" and "w_share w \<noteq> None" and "(st = None) = (ss = None)"
    and "\<And>s. st = Some s \<Longrightarrow> nonceAddrs s \<inter> keyAddrs w = {} \<and> (\<forall>a\<in>nonceAddrs s. a < hp_next (w_heap w))"
  shows "workerInv (w\<lparr>w_signingState := st, w_session := ss\<rparr>)"
  using assms by (cases st) (auto simp: workerInv_def heldAddrs_def)

lemma workerInv_unlock:
  assumes inv: "workerInv w" and lo: "lockedOk w" and op: "\<not> w_closed w"
  shows "workerInv (resetInactivityTimer (setTimeoutOption t (storeKeys s g v c w)))"
proof -
  have "w_timers w = []" "w_inactivityTimer w = None" "w_session w = None" "w_signingState w = None"
    using inv lo by (auto simp: workerInv_def lockedOk_def)
  then show ?thesis
    using inv op
    by (cases t) (auto simp: workerInv_def unlockedOk_def worker_effects worker_views Let_def otherTimers_def)
qed

lemma clearState_closed [simp]: "w_closed (clearState w) = w_closed w"
  by (simp add: clearState_eq)

lemma workerInv_handleInit:
  "workerInv w \<Longrightarrow> \<not> w_closed w \<Longrightarrow> workerInv (handleInit p w)"
  using workerInv_clearState [of w]
  by (auto simp: handleInit_def Let_def intro: workerInv_unlock split: js_value.splits option.splits)

subsection \<open>What a step does to the buffers\<close>

text \<open>From \<open>w\<close> to \<open>w'\<close>: a buffer nobody holds is neither written nor picked up again, and a key
  buffer is either still held as a key or has been erased and let go.\<close>

definition keepsBuffers :: "worker \<Rightarrow> worker \<Rightarrow> bool" where
  "keepsBuffers w w' \<longleftrightarrow> hp_next (w_heap w) \<le> hp_next (w_heap w') \<and>
     (\<forall>a<hp_next (w_heap w). a \<notin> heldAddrs w \<longrightarrow>
        a \<notin> heldAddrs w' \<and> hp_buf (w_heap w') a = hp_buf (w_heap w) a) \<and>
     (\<forall>a\<in>keyAddrs w. a \<in> keyAddrs w' \<or> a \<notin> heldAddrs w' \<and> isZero (w_heap w') a)"

lemma keepsBuffers_same:
  "w_heap w' = w_heap w \<Longrightarrow> keyRefs w' = keyRefs w \<Longrightarrow> w_signingState w' = w_signingState w \<Longrightarrow> keepsBuffers w w'"
  by (simp add: keepsBuffers_def worker_views)

lemma keepsBuffers_clearState: "keepsBuffers w (clearState w)"
proof -
  have "heldAddrs (clearState w) = {}"
    by (simp add: clearState_eq worker_views)
  moreover have "hp_buf (w_heap (clearState w)) a = hp_buf (w_heap w) a" if "a \<notin> heldAddrs w" for a
    using that unfolding heldAddrs_refs by (simp add: clearState_eq zeroAll_other del: set_append)
  ultimately show ?thesis
    by (auto simp: keepsBuffers_def clearState_eq keyAddrs_def)
qed

lemma keepsBuffers_post [simp]:
  "keepsBuffers w (postResponse r w') = keepsBuffers w w'" "keepsBuffers w (postError e w') = keepsBuffers w w'"
  by (simp_all add: keepsBuffers_def worker_views postResponse_def postError_def)

lemma keepsBuffers_heap:
  "grows (signingAddrs w) (w_heap w) h' \<Longrightarrow> keepsBuffers w ((resetInactivityTimer w)\<lparr>w_heap := h'\<rparr>)"
  by (auto simp: keepsBuffers_def grows_def heldAddrs_def)

lemma keepsBuffers_signing:
  assumes "grows (signingAddrs w) (w_heap w) h'"
    and "\<And>s a. st = Some s \<Longrightarrow> a \<in> nonceAddrs s \<Longrightarrow> hp_next (w_heap w) \<le> a"
  shows "keepsBuffers w ((resetInactivityTimer w)\<lparr>w_heap := h', w_signingState := st, w_session := ss\<rparr>)"
  using assms by (cases st) (fastforce simp: keepsBuffers_def grows_def heldAddrs_def)+

lemma keepsBuffers_store:
  assumes k: "keepsBuffers w w'" and lo: "lockedOk w'" and inv: "workerInv w"
  shows "keepsBuffers w (resetInactivityTimer (setTimeoutOption t (storeKeys s g v c w')))"
proof -
  have "hp_next (w_heap w) \<le> hp_next (w_heap w')" "\<And>a. a \<in> keyAddrs w \<Longrightarrow> a < hp_next (w_heap w)"
    using k inv by (auto simp: keepsBuffers_def workerInv_def heldAddrs_def)
  moreover have "keyAddrs w' = {}" "w_signingState w' = None"
    using lo by (auto simp: lockedOk_def worker_views)
  ultimately show ?thesis
    using k by (cases t) (fastforce simp: keepsBuffers_def worker_effects worker_views Let_def isZero_def)+
qed

lemma keepsBuffers_handleInit: "workerInv w \<Longrightarrow> keepsBuffers w (handleInit p w)"
  using workerInv_clearState [of w] keepsBuffers_clearState [of w]
  by (auto simp: handleInit_def Let_def intro!: keepsBuffers_store split: js_value.splits option.splits)

lemma keepsBuffers_handleTerminate: "keepsBuffers w (handleTerminate w)"
  using keepsBuffers_clearState [of w]
  by (simp add: handleTerminate_def keepsBuffers_def worker_views postResponse_def)

subsection \<open>The signing rounds, from the contract of the signer\<close>

context frost_signer
begin

text \<open>The outcomes of the two rounds: refused before any work, failed in the signer, or done.\<close>

lemma handleRound1_cases:
  obtains (refused) e where "handleRound1 sg seed m w = postError e w"
  | (failed) e h' where "w_share w \<noteq> None" "grows {} (w_heap w) h'"
      "handleRound1 sg seed m w = postError e ((resetInactivityTimer w)\<lparr>w_heap := h'\<rparr>)"
  | (signed) cm st ss h' where "w_share w \<noteq> None" "grows {} (w_heap w) h'"
      "nonceAddrs st \<subseteq> {hp_next (w_heap w)..<hp_next h'}"
      "handleRound1 sg seed m w = postResponse (RCommitment cm)
         ((resetInactivityTimer w)\<lparr>w_heap := h', w_signingState := Some st, w_session := Some ss\<rparr>)"
proof (cases "list_all (\<lambda>r. r \<noteq> None) (keyRefs w) \<and> (\<exists>b. m = JsU8 b)")
  case False
  then have "\<exists>e. handleRound1 sg seed m w = postError e w"
    by (auto simp: handleRound1_def keyRefs_def split: option.splits js_value.splits)
  then show ?thesis using refused by blast
next
  case True
  then obtain s g v c b where k: "w_share w = Some s" "w_groupPublicKey w = Some g"
      "w_serverVerifyingShare w = Some v" "w_clientVerifyingShare w = Some c" "m = JsU8 b"
    by (auto simp: keyRefs_def)
  let ?h = "w_heap w"
  obtain r h' where r: "so_round1 sg seed (hp_buf ?h s) (hp_buf ?h v) (hp_buf ?h c) (hp_buf ?h g) b ?h = (r, h')"
    by fastforce
  have heap: "w_heap (resetInactivityTimer w) = ?h" by (simp add: resetInactivityTimer_eq)
  show ?thesis
  proof (cases r)
    case (Inl e)
    then show ?thesis using failed [of h' "ESigner e"] k r round1_grows [OF r] heap
      by (simp add: handleRound1_def Let_def)
  next
    case (Inr p)
    then show ?thesis
      using signed [of h' "snd p" "fst p"] k r round1_grows [OF r] round1_fresh [of _ _ _ _ _ _ _ "fst p" "snd p"] heap
      by (cases p) (simp add: handleRound1_def Let_def)
  qed
qed

lemma handleRound2_cases:
  obtains (refused) e where "handleRound2 sg m w = postError e w"
  | (failed) st e h' where "w_share w \<noteq> None" "w_signingState w = Some st"
      "grows (nonceAddrs st) (w_heap w) h'" "hp_next h' = hp_next (w_heap w)"
      "handleRound2 sg m w =
         postError e ((resetInactivityTimer w)\<lparr>w_heap := h', w_signingState := None, w_session := None\<rparr>)"
  | (signed) st sig h' where "w_share w \<noteq> None" "w_signingState w = Some st"
      "grows (nonceAddrs st) (w_heap w) h'" "hp_next h' = hp_next (w_heap w)"
      "\<And>a. a \<in> nonceAddrs st \<Longrightarrow> isZero h' a"
      "handleRound2 sg m w = postResponse (RPartialSig sig)
         ((resetInactivityTimer w)\<lparr>w_heap := h', w_signingState := None, w_session := None\<rparr>)"
proof (cases "list_all (\<lambda>r. r \<noteq> None) (keyRefs w) \<and> w_signingState w \<noteq> None \<and> (\<exists>b. m = JsU8 b)")
  case False
  then have "\<exists>e. handleRound2 sg m w = postError e w"
    by (auto simp: handleRound2_def keyRefs_def split: option.splits js_value.splits)
  then show ?thesis using refused by blast
next
  case True
  then obtain s g v c b st where k: "w_share w = Some s" "w_groupPublicKey w = Some g"
      "w_serverVerifyingShare w = Some v" "w_clientVerifyingShare w = Some c" "m = JsU8 b"
      "w_signingState w = Some st"
    by (auto simp: keyRefs_def)
  let ?h = "w_heap w"
  obtain r h' where r: "so_round2 sg (hp_buf ?h s) (hp_buf ?h v) (hp_buf ?h c) (hp_buf ?h g) st b ?h = (r, h')"
    by fastforce
  have heap: "w_heap (resetInactivityTimer w) = ?h" by (simp add: resetInactivityTimer_eq)
  show ?thesis
  proof (cases r)
    case (Inl e)
    then show ?thesis using failed [of st h' "ESigner e"] k r round2_grows [OF r] heap
      by (simp add: handleRound2_def Let_def)
  next
    case (Inr x)
    then show ?thesis
      using signed [of st h' x] k r round2_grows [OF r] round2_zeroes heap
      by (simp add: handleRound2_def Let_def postResponse_def)
  qed
qed

lemma workerInv_handleRound1: "workerInv w \<Longrightarrow> workerInv (handleRound1 sg seed m w)"
proof (cases rule: handleRound1_cases [of seed m w])
  case (failed e h')
  assume "workerInv w"
  then show ?thesis using failed by (simp add: workerInv_heap workerInv_reset grows_def)
next
  case (signed cm st ss h')
  assume inv: "workerInv w"
  have "keyAddrs w \<subseteq> {..<hp_next (w_heap w)}"
    using inv by (auto simp: workerInv_def heldAddrs_def)
  then have "nonceAddrs st \<inter> keyAddrs w = {}" using signed(3) by fastforce
  then show ?thesis using inv signed
    by (fastforce simp: grows_def intro!: workerInv_signing workerInv_heap workerInv_reset)
qed simp

lemma workerInv_handleRound2: "workerInv w \<Longrightarrow> workerInv (handleRound2 sg m w)"
proof (cases rule: handleRound2_cases [of m w])
  case (failed st e h')
  assume "workerInv w"
  then show ?thesis using failed
    by (auto intro!: workerInv_signing workerInv_heap workerInv_reset)
next
  case (signed st sig h')
  assume "workerInv w"
  then show ?thesis using signed
    by (auto intro!: workerInv_signing workerInv_heap workerInv_reset)
qed simp

lemma keepsBuffers_handleRound1: "keepsBuffers w (handleRound1 sg seed m w)"
proof (cases rule: handleRound1_cases [of seed m w])
  case (failed e h')
  then show ?thesis by (auto intro: keepsBuffers_heap grows_mono)
next
  case (signed cm st ss h')
  then show ?thesis by (fastforce intro!: keepsBuffers_signing intro: grows_mono)
qed (simp add: keepsBuffers_same)

lemma keepsBuffers_handleRound2: "keepsBuffers w (handleRound2 sg m w)"
proof (cases rule: handleRound2_cases [of m w])
  case (failed st e h')
  then show ?thesis by (auto intro!: keepsBuffers_signing simp: signingAddrs_def)
next
  case (signed st sig h')
  then show ?thesis by (auto intro!: keepsBuffers_signing simp: signingAddrs_def)
qed (simp add: keepsBuffers_same)

lemma protocolRun_append:
  "protocolRun s (xs @ ys) = Option.bind (protocolRun s xs) (\<lambda>s'. protocolRun s' ys)"
  by (induction xs arbitrary: s) (auto split: bind_splits)

lemma simulates_refused: "simulates w s \<Longrightarrow> \<not> w_closed w \<Longrightarrow> \<exists>s'. simulates (postError e w) s'"
  by (cases s) (auto simp: simulates_def postError_def postResponse_def protocolRun_append)

lemma simulates_handleInit:
  "simulates w s \<Longrightarrow> \<not> w_closed w \<Longrightarrow> \<exists>s'. simulates (handleInit p w) s'"
  by (cases s) (auto simp: simulates_def handleInit_def worker_effects Let_def protocolRun_append
      split: js_value.splits option.splits)

lemma simulates_handleRound1:
  "simulates w s \<Longrightarrow> \<not> w_closed w \<Longrightarrow> \<exists>s'. simulates (handleRound1 sg seed m w) s'"
proof (cases rule: handleRound1_cases [of seed m w])
  case (refused e)
  then show "simulates w s \<Longrightarrow> \<not> w_closed w \<Longrightarrow> ?thesis" by (simp add: simulates_refused)
next
  case (failed e h')
  then show "simulates w s \<Longrightarrow> \<not> w_closed w \<Longrightarrow> ?thesis"
    by (cases s) (auto simp: simulates_def postError_def postResponse_def protocolRun_append)
next
  case (signed cm st ss h')
  then show "simulates w s \<Longrightarrow> \<not> w_closed w \<Longrightarrow> ?thesis"
    by (cases s) (auto simp: simulates_def postResponse_def protocolRun_append)
qed

lemma simulates_handleRound2:
  "simulates w s \<Longrightarrow> \<not> w_closed w \<Longrightarrow> \<exists>s'. simulates (handleRound2 sg m w) s'"
proof (cases rule: handleRound2_cases [of m w])
  case (refused e)
  then show "simulates w s \<Longrightarrow> \<not> w_closed w \<Longrightarrow> ?thesis" by (simp add: simulates_refused)
next
  case (failed st e h')
  then show "simulates w s \<Longrightarrow> \<not> w_closed w \<Longrightarrow> ?thesis"
    by (auto simp: simulates_def postError_def postResponse_def protocolRun_append)
next
  case (signed st sig h')
  then show "simulates w s \<Longrightarrow> \<not> w_closed w \<Longrightarrow> ?thesis"
    by (auto simp: simulates_def postResponse_def protocolRun_append)
qed

lemma simulates_handleTerminate:
  "simulates w s \<Longrightarrow> \<not> w_closed w \<Longrightarrow> simulates (handleTerminate w) PClosed"
  by (cases s) (auto simp: simulates_def handleTerminate_def worker_effects protocolRun_append)

lemma simulates_handleStatus:
  "simulates w s \<Longrightarrow> \<not> w_closed w \<Longrightarrow> simulates (handleStatus w) s"
  by (cases s) (auto simp: simulates_def handleStatus_def postResponse_def protocolRun_append Let_def)

lemma workerInv_frame:
  "workerInv w \<Longrightarrow> 0 \<le> d \<Longrightarrow> workerInv (w\<lparr>w_now := w_now w + d\<rparr>)"
  "workerInv (handleStatus w) = workerInv w"
  by (auto simp: workerInv_def unlockedOk_def lockedOk_def worker_views handleStatus_def postResponse_def Let_def)

text \<open>Firing the timer is terminating: the fired timeout is the inactivity timer, which
  \<open>clearState\<close> would drop anyway.\<close>

lemma fireTimer_eq: "workerInv w \<Longrightarrow> p \<in> set (w_timers w) \<Longrightarrow> fireTimer p w = handleTerminate w"
  by (auto simp: workerInv_def unlockedOk_def lockedOk_def fireTimer_def handleTerminate_def clearState_eq
      postResponse_def keyRefs_def signingRefs_def otherTimers_def split: if_splits)

lemma wstep_workerInv: "workerInv w \<Longrightarrow> wstep sg w w' \<Longrightarrow> workerInv w'"
proof (elim wstepE)
  fix seed m
  assume "workerInv w" "\<not> w_closed w" "w' = handleMessage sg seed m w"
  then show "workerInv w'"
    by (cases m) (simp_all add: workerInv_handleInit workerInv_handleRound1 workerInv_handleRound2
        workerInv_handleTerminate workerInv_frame)
qed (simp_all add: fireTimer_eq workerInv_handleTerminate workerInv_frame)

lemma wstep_simulates: "workerInv w \<Longrightarrow> simulates w s \<Longrightarrow> wstep sg w w' \<Longrightarrow> \<exists>s'. simulates w' s'"
proof (elim wstepE)
  fix seed m
  assume "simulates w s" "\<not> w_closed w" "w' = handleMessage sg seed m w"
  then show "\<exists>s'. simulates w' s'"
    by (cases m) (auto simp: simulates_handleInit simulates_handleRound1 simulates_handleRound2
        simulates_refused intro: simulates_handleTerminate simulates_handleStatus)
next
  fix p
  assume "workerInv w" "simulates w s" "\<not> w_closed w" "p \<in> set (w_timers w)" "w' = fireTimer p w"
  then show "\<exists>s'. simulates w' s'" by (auto simp: fireTimer_eq intro: simulates_handleTerminate)
next
  fix d
  assume "simulates w s" "w' = w\<lparr>w_now := w_now w + d\<rparr>"
  then show "\<exists>s'. simulates w' s'" by (auto simp: simulates_def)
qed

lemma wstep_keepsBuffers: "workerInv w \<Longrightarrow> wstep sg w w' \<Longrightarrow> keepsBuffers w w'"
proof (elim wstepE)
  fix seed m
  assume "workerInv w" "w' = handleMessage sg seed m w"
  then show "keepsBuffers w w'"
    by (cases m) (auto simp: keepsBuffers_handleInit keepsBuffers_handleRound1 keepsBuffers_handleRound2
        keepsBuffers_handleTerminate handleStatus_def Let_def intro: keepsBuffers_same)
qed (auto simp: fireTimer_eq keepsBuffers_handleTerminate keyRefs_def intro!: keepsBuffers_same)

lemma workerOk_initial: "workerOk initial_worker"
  unfolding workerOk_def
  by (auto simp: initial_worker_def workerInv_def lockedOk_def worker_views simulates_def DEFAULT_TIMEOUT_MS_def)

lemma wstep_workerOk: "workerOk w \<Longrightarrow> wstep sg w w' \<Longrightarrow> workerOk w'"
  unfolding workerOk_def using wstep_workerInv wstep_simulates by blast

text \<open>Once let go, a key buffer stays erased whatever the worker does next.\<close>

lemma released_key_erased:
  assumes inv: "workerInv w" and a: "a \<in> keyAddrs w" and steps: "(wstep sg)\<^sup>*\<^sup>* w w'"
  shows "workerInv w' \<and> hp_next (w_heap w) \<le> hp_next (w_heap w') \<and>
    (a \<in> keyAddrs w' \<or> a \<notin> heldAddrs w' \<and> isZero (w_heap w') a)"
  using steps
proof (induction rule: rtranclp_induct)
  case base
  then show ?case using inv a by simp
next
  case (step y z)
  have k: "keepsBuffers y z" and "workerInv z"
    using step by (auto intro: wstep_keepsBuffers wstep_workerInv)
  moreover have "a < hp_next (w_heap y)"
    using inv a step.IH by (auto simp: workerInv_def heldAddrs_def intro: less_le_trans)
  ultimately show ?case
    using step.IH by (auto simp: keepsBuffers_def isZero_def intro: le_trans)
qed

end

sublocale frost_signer \<subseteq> worker: invariant_system "\<lambda>w. w = initial_worker" "wstep sg" workerOk
  by unfold_locales (auto intro: workerOk_initial wstep_workerOk)

subsection \<open>Concrete runs\<close>

text \<open>A worker unlocked with a share, and the same worker after round 1.\<close>

definition toy_init :: init_payload where
  "toy_init = \<lparr>ip_share = JsU8 toy_share, ip_groupPublicKey = JsU8 [1, 2],
     ip_verifyingShares = Some (JsU8 toy_verifying, JsU8 toy_verifying), ip_timeoutMs = Some 60000\<rparr>"

definition toy_unlocked :: worker where
  "toy_unlocked = handleMessage (frostSigner toy_noble) 0 (MInit toy_init) initial_worker"

definition toy_committed :: worker where
  "toy_committed = handleMessage (frostSigner toy_noble) 9 (MRound1 (JsU8 [1])) toy_unlocked"

lemma wreach_message: "wreach sg w \<Longrightarrow> \<not> w_closed w \<Longrightarrow> wreach sg (handleMessage sg seed m w)"
  by (rule reach_step) (auto intro: wstep.receive)

lemma toy_unlocked_reach: "wreach (frostSigner toy_noble) toy_unlocked"
  unfolding toy_unlocked_def
  by (rule wreach_message) (auto intro: reach_init simp: initial_worker_def)

lemma toy_committed_reach: "wreach (frostSigner toy_noble) toy_committed"
proof -
  have "\<not> w_closed toy_unlocked" by code_simp
  then show ?thesis unfolding toy_committed_def by (intro wreach_message toy_unlocked_reach)
qed

lemma toy_keyAddrs: "0 \<in> keyAddrs toy_unlocked"
proof -
  have "w_share toy_unlocked = Some 0" by code_simp
  then show ?thesis by (simp add: worker_views)
qed

subsection \<open>Properties\<close>

text \<open>C1: the worker refines the abstract signing protocol. In every reachable state the responses
  posted so far are a run of the automaton \<open>protocolStep\<close>: a commitment is posted only after
  \<open>ready\<close>, every partial signature answers a commitment of its own (so a pair of nonces signs at
  most once), nothing is posted after \<open>terminated\<close>, and the automaton is closed exactly when the
  worker is.\<close>

theorem worker_refines_protocol:
  assumes "wreach (frostSigner nb) w"
  shows "\<exists>s. protocolRun PLocked (w_out w) = Some s \<and> (w_closed w \<longleftrightarrow> s = PClosed) \<and>
    (w_signingState w \<noteq> None \<longrightarrow> s = PCommitted)"
  using frost_rounds.worker.reachable_inv [OF assms] by (auto simp: workerOk_def simulates_def)

theorem worker_refines_protocol_witness:
  "protocolRun PLocked (w_out toy_committed) = Some PCommitted"
proof -
  have "w_signingState toy_committed \<noteq> None" by code_simp
  then show ?thesis using worker_refines_protocol [OF toy_committed_reach] by auto
qed

text \<open>C2: key material does not outlive its reference. Take any reachable worker and a buffer it
  holds as share, group key or verifying share: in every later state the buffer is either still
  held as a key, or it holds only zeros and is never picked up again, whatever messages and
  timeouts came between (re-initialisation, failed initialisation, termination included).\<close>

theorem released_keys_stay_erased:
  assumes "wreach (frostSigner nb) w" and "a \<in> keyAddrs w" and "(wstep (frostSigner nb))\<^sup>*\<^sup>* w w'"
  shows "a \<in> keyAddrs w' \<or> a \<notin> heldAddrs w' \<and> isZero (w_heap w') a"
  using frost_rounds.worker.reachable_inv [OF assms(1)] frost_rounds.released_key_erased [OF _ assms(2,3)]
  by (auto simp: workerOk_def)

theorem released_keys_stay_erased_witness:
  "isZero (w_heap (handleMessage (frostSigner toy_noble) 0 MTerminate toy_committed)) 0"
proof -
  let ?sg = "frostSigner toy_noble"
  let ?w = "handleMessage ?sg 0 MTerminate toy_committed"
  have open1: "\<not> w_closed toy_unlocked" "\<not> w_closed toy_committed" by code_simp+
  have "wstep ?sg toy_unlocked toy_committed"
    unfolding toy_committed_def by (rule wstep.receive) (rule open1)
  moreover have "wstep ?sg toy_committed ?w"
    by (rule wstep.receive) (rule open1)
  ultimately have "(wstep ?sg)\<^sup>*\<^sup>* toy_unlocked ?w" by (simp del: handleMessage.simps)
  then have "0 \<in> keyAddrs ?w \<or> 0 \<notin> heldAddrs ?w \<and> isZero (w_heap ?w) 0"
    by (rule released_keys_stay_erased [OF toy_unlocked_reach toy_keyAddrs])
  moreover have "keyRefs ?w = [None, None, None, None]" by code_simp
  ultimately show ?thesis by (simp add: keyAddrs_def)
qed

text \<open>C3: the share has a bounded life. In every reachable state that holds a share, exactly one
  timeout is pending; it is due \<open>timeoutMs\<close> (as the platform reads it, a signed 32-bit number)
  after the last initialisation or signing operation; and when it fires the worker is closed, holds
  nothing, has nothing pending, and every buffer it held, nonces included, is zero.\<close>

theorem worker_share_expires:
  assumes "wreach (frostSigner nb) w" and "w_share w \<noteq> None"
  shows "\<exists>t t0. w_initTimestamp w = Some t0 \<and> t0 \<le> w_now w \<and>
    w_timers w = [(t, t0 + timerDelay (w_timeoutMs w))] \<and>
    (let w' = fireTimer (t, t0 + timerDelay (w_timeoutMs w)) w
     in w_closed w' \<and> lockedOk w' \<and> (\<forall>a. a \<in> heldAddrs w \<longrightarrow> isZero (w_heap w') a))"
proof -
  have inv: "workerInv w"
    using frost_rounds.worker.reachable_inv [OF assms(1)] by (simp add: workerOk_def)
  with assms(2) obtain t t0 where t: "w_initTimestamp w = Some t0" "t0 \<le> w_now w"
      "w_timers w = [(t, t0 + timerDelay (w_timeoutMs w))]"
    by (auto simp: workerInv_def unlockedOk_def)
  moreover have "isZero (w_heap (handleTerminate w)) a" if "a \<in> heldAddrs w" for a
    using that by (simp add: handleTerminate_def postResponse_def clearState_eq heldAddrs_refs)
  ultimately show ?thesis
    using lockedOk_handleTerminate [OF inv] frost_rounds.fireTimer_eq [OF inv]
    by (auto simp: Let_def handleTerminate_def)
qed

theorem worker_share_expires_witness:
  "w_closed (fireTimer (1, 60000) toy_unlocked) \<and> isZero (w_heap (fireTimer (1, 60000) toy_unlocked)) 0"
proof -
  have "w_share toy_unlocked \<noteq> None" "w_timers toy_unlocked = [(1, 60000)]" by code_simp+
  then show ?thesis
    using worker_share_expires [OF toy_unlocked_reach] toy_keyAddrs
    by (auto simp: Let_def heldAddrs_def)
qed

text \<open>C22: the worker's variables keep their types. In every reachable state the four key variables are all set or all
  \<open>null\<close>, a signing session and its nonces exist together and only beside the keys, the timer and its timestamp exist
  exactly with the keys, every buffer that is held is allocated, keys and nonces never share a buffer, the timeout is
  positive, and a closed worker holds nothing.\<close>

theorem worker_well_typed:
  assumes "wreach (frostSigner nb) w"
  shows "((w_share w = None) = (w_groupPublicKey w = None)) \<and> ((w_share w = None) = (w_serverVerifyingShare w = None)) \<and>
    ((w_share w = None) = (w_clientVerifyingShare w = None)) \<and>
    ((w_session w = None) = (w_signingState w = None)) \<and> (w_signingState w = None \<or> w_share w \<noteq> None) \<and>
    ((w_share w = None) = (w_inactivityTimer w = None)) \<and> ((w_share w = None) = (w_initTimestamp w = None)) \<and>
    heldAddrs w \<subseteq> {..< hp_next (w_heap w)} \<and> keyAddrs w \<inter> signingAddrs w = {} \<and>
    0 < w_timeoutMs w \<and> (if w_closed w then heldAddrs w = {} else True)"
proof -
  have inv: "workerInv w" using frost_rounds.worker.reachable_inv [OF assms] by (simp add: workerOk_def)
  have held: "heldAddrs w \<subseteq> {..< hp_next (w_heap w)}" using inv by (auto simp: workerInv_def)
  show ?thesis
  proof (cases "w_share w = None")
    case True
    then have "lockedOk w" using inv by (simp add: workerInv_def)
    moreover from this have "heldAddrs w = {}" by (simp add: lockedOk_def heldAddrs_def keyAddrs_def signingAddrs_def list_all_iff) auto
    ultimately show ?thesis using True inv by (simp add: lockedOk_def workerInv_def keyRefs_def)
  next
    case False
    then have "unlockedOk w" "\<not> w_closed w" using inv by (auto simp: workerInv_def)
    then show ?thesis using False inv held by (auto simp: unlockedOk_def workerInv_def keyRefs_def)
  qed
qed

theorem worker_well_typed_witness:
  "w_signingState toy_committed \<noteq> None \<and> w_clientVerifyingShare toy_committed \<noteq> None \<and> keyAddrs toy_committed \<inter> signingAddrs toy_committed = {}"
proof -
  have "w_signingState toy_committed \<noteq> None" by code_simp
  then show ?thesis using worker_well_typed [OF toy_committed_reach] by auto
qed

text \<open>\<open>status\<close> reports the truth. For a reachable worker that holds a share, with a timeout
  that fits the platform's timers, the reported remaining time is the time until the pending timeout
  is due (0 once overdue), the worker is reported active, and nothing but the answer changes.\<close>

theorem handleStatus_remaining:
  assumes "wreach (frostSigner nb) w" and "w_share w \<noteq> None" and "w_timeoutMs w < 2 ^ 31"
  shows "\<exists>t due. w_timers w = [(t, due)] \<and>
    handleStatus w = postResponse (RStatus True (Some (max 0 (due - w_now w))) (w_session w)) w"
proof -
  have inv: "workerInv w"
    using frost_rounds.worker.reachable_inv [OF assms(1)] by (simp add: workerOk_def)
  with assms(2) obtain t t0 where t: "w_initTimestamp w = Some t0"
      "w_timers w = [(t, t0 + timerDelay (w_timeoutMs w))]" "0 < w_timeoutMs w"
    by (auto simp: workerInv_def unlockedOk_def)
  have "timerDelay (w_timeoutMs w) = w_timeoutMs w"
    using t(3) assms(3) by (simp add: timerDelay_def sint_word_of_int_32)
  then show ?thesis using t assms(2) by (auto simp: handleStatus_def Let_def algebra_simps)
qed

theorem handleStatus_remaining_witness:
  "\<exists>r. w_out (handleStatus toy_unlocked) = [RReady, RStatus True (Some r) None] \<and> r = 60000"
proof -
  have toy: "w_share toy_unlocked \<noteq> None" "w_timeoutMs toy_unlocked < 2 ^ 31"
    "w_timers toy_unlocked = [(1, 60000)]" "w_now toy_unlocked = 0" "w_out toy_unlocked = [RReady]"
    "w_session toy_unlocked = None"
    by code_simp+
  show ?thesis
    using handleStatus_remaining [OF toy_unlocked_reach toy(1,2)] toy by (simp add: postResponse_def)
qed

text \<open>A gap in the erasure of nonces. There is a reachable closed worker and a buffer it once
  held as a hiding nonce that still holds its bytes: a second \<open>round1\<close> replaces the signing state
  without zeroing the nonces of the first, and termination only reaches the second.\<close>

theorem round1_overwrite_leaves_nonces:
  "\<exists>nb w w' a. wreach (frostSigner nb) w \<and> a \<in> signingAddrs w \<and> (wstep (frostSigner nb))\<^sup>*\<^sup>* w w' \<and>
     w_closed w' \<and> a \<notin> heldAddrs w' \<and> \<not> isZero (w_heap w') a"
proof -
  let ?sg = "frostSigner toy_noble"
  define w1 where "w1 = handleMessage ?sg 8 (MRound1 (JsU8 [1])) toy_committed"
  define w2 where "w2 = handleMessage ?sg 0 MTerminate w1"
  have "map_option (\<lambda>st. fn_hiding (sg_nonces st)) (w_signingState toy_committed) = Some 4"
    by code_simp
  then have held: "4 \<in> signingAddrs toy_committed" by (auto simp: signingAddrs_def nonceAddrs_def)
  have c: "\<not> w_closed toy_committed" "\<not> w_closed w1" "w_closed w2" "keyRefs w2 = [None, None, None, None]"
    "w_signingState w2 = None" "hp_buf (w_heap w2) 4 = replicate 32 9"
    unfolding w2_def w1_def by code_simp+
  have "wstep ?sg toy_committed w1" "wstep ?sg w1 w2"
    unfolding w1_def w2_def by (rule wstep.receive, use c in \<open>simp add: w1_def del: handleMessage.simps\<close>)+
  then have "(wstep ?sg)\<^sup>*\<^sup>* toy_committed w2" by simp
  moreover have "\<not> list_all (\<lambda>b. b = 0) (replicate 32 (9 :: byte))" by code_simp
  then have "4 \<notin> heldAddrs w2" "\<not> isZero (w_heap w2) 4"
    using c by (simp_all add: heldAddrs_def keyAddrs_def signingAddrs_def isZero_def)
  ultimately show ?thesis using toy_committed_reach held c(3) by blast
qed

text \<open>The timeout of an earlier initialisation survives. An \<open>init\<close> without a (positive)
  \<open>timeoutMs\<close> keeps whatever timeout the worker had, so it is the 30-minute default only in a
  worker no earlier \<open>init\<close> configured; with a positive one it is that number.\<close>

theorem handleInit_timeout:
  "w_out (handleInit p w) = w_out w @ [RReady] \<Longrightarrow>
   w_timeoutMs (handleInit p w) =
     (case ip_timeoutMs p of Some ms \<Rightarrow> if 0 < ms then ms else w_timeoutMs w | None \<Rightarrow> w_timeoutMs w)"
  by (auto simp: handleInit_def Let_def worker_effects split: js_value.splits option.splits)

theorem handleInit_timeout_witness:
  "w_timeoutMs (handleInit (toy_init\<lparr>ip_timeoutMs := None\<rparr>) toy_unlocked) = 60000 \<and> 60000 \<noteq> DEFAULT_TIMEOUT_MS"
proof -
  let ?p = "toy_init\<lparr>ip_timeoutMs := None\<rparr>"
  have "w_out (handleInit ?p toy_unlocked) = w_out toy_unlocked @ [RReady]" "w_timeoutMs toy_unlocked = 60000"
    by code_simp+
  then show ?thesis using handleInit_timeout [of ?p toy_unlocked] by (simp add: DEFAULT_TIMEOUT_MS_def)
qed

end
