(* ===== verification/FrostClient.thy ===== *)
theory FrostClient
  imports FrostWorker MasterKey
begin

text \<open>
  The FROST client of the main thread (\<open>web/src/lib/frost-client.ts\<close>). \<open>client\<close> is the object's
  state together with the promises of its requests to the worker and their timeouts; a method that
  awaits is split at its \<open>await\<close>s into the part that runs before and the continuation.
  The certificate request is the machine \<open>flowStep\<close>, one stage per \<open>await\<close> of
  \<open>handleSigningFlow\<close>; the socket, the worker's answers and the timeouts are its events.
\<close>

subsection \<open>Promises\<close>

datatype client_error =
    EWorkerNotRunning | EWorkerTimedOut | EWorkerFailed worker_error | EWorkerNotSpawned
  | EInitFailed | EClientNotInitialized | ENotAuthenticated | ENullWorker
  | EWsTimedOut | EWsServer jsstring | EWsParse | EExpectedSession jsstring
  | EExpectedCommitment jsstring | EExpectedCertificate jsstring | EWorkerCommitment | EWorkerPartialSig
  | EWsConnection | EWsClosed | EClientBase64 base64_error | EClientCrypto crypto_error

datatype 'a promise = PPending | PResolved 'a | PRejected client_error

text \<open>Settling is final: a second \<open>resolve\<close> or \<open>reject\<close> does nothing.\<close>

fun settleP :: "client_error + 'a \<Rightarrow> 'a promise \<Rightarrow> 'a promise" where
  "settleP (Inr v) PPending = PResolved v"
| "settleP (Inl e) PPending = PRejected e"
| "settleP r p = p"

subsection \<open>State\<close>

record client =
  c_worker :: "nat option"            \<comment> \<open>the handle, numbered by spawn\<close>
  c_spawned :: nat
  c_isInitialized :: bool
  c_initTime :: "int option"
  c_timeoutMs :: int
  c_pending :: "nat option"           \<comment> \<open>whose callbacks are in \<open>pendingResolve\<close>/\<open>pendingReject\<close>\<close>
  c_requests :: "worker_response promise list"
  c_timers :: "(nat \<times> int) list"
  c_posted :: "(nat \<times> worker_message) list"
  c_terminated :: "nat list"          \<comment> \<open>handles on which \<open>terminate()\<close> was called\<close>
  c_now :: int

definition spawnWorker :: "client \<Rightarrow> client" where
  "spawnWorker c = c\<lparr>c_worker := Some (c_spawned c), c_spawned := Suc (c_spawned c)\<rparr>"

definition newFROSTClient :: client where
  "newFROSTClient = spawnWorker
     \<lparr>c_worker = None, c_spawned = 0, c_isInitialized = False, c_initTime = None,
      c_timeoutMs = 30 * 60 * 1000, c_pending = None, c_requests = [], c_timers = [],
      c_posted = [], c_terminated = [], c_now = 0\<rparr>"

text \<open>\<open>worker.onerror\<close>.\<close>

definition workerError :: "client \<Rightarrow> client" where
  "workerError c = c\<lparr>c_worker := None, c_isInitialized := False\<rparr>"

subsection \<open>Requests to the worker\<close>

text \<open>The callbacks that \<open>sendToWorker\<close> installs: they clear the request's timeout and settle it.\<close>

definition settleRequest :: "nat \<Rightarrow> client_error + worker_response \<Rightarrow> client \<Rightarrow> client" where
  "settleRequest i r c =
     c\<lparr>c_timers := filter (\<lambda>p. fst p \<noteq> i) (c_timers c),
       c_requests := (c_requests c)[i := settleP r (c_requests c ! i)]\<rparr>"

definition handleWorkerMessage :: "worker_response \<Rightarrow> client \<Rightarrow> client" where
  "handleWorkerMessage response c =
     (case c_pending c of
        None \<Rightarrow> c
      | Some i \<Rightarrow>
          (settleRequest i (case response of RError e \<Rightarrow> Inl (EWorkerFailed e) | _ \<Rightarrow> Inr response) c)
            \<lparr>c_pending := None\<rparr>)"

definition sendToWorker :: "worker_message \<Rightarrow> int \<Rightarrow> client \<Rightarrow> nat \<times> client" where
  "sendToWorker message timeoutMs c =
     (let i = length (c_requests c)
      in case c_worker c of
           None \<Rightarrow> (i, c\<lparr>c_requests := c_requests c @ [PRejected EWorkerNotRunning]\<rparr>)
         | Some h \<Rightarrow>
             (i, c\<lparr>c_requests := c_requests c @ [PPending], c_pending := Some i,
                   c_timers := c_timers c @ [(i, c_now c + timeoutMs)],
                   c_posted := c_posted c @ [(h, message)]\<rparr>))"

text \<open>The timeout of request \<open>i\<close> fires: it empties the pending slot, whoever is in it.\<close>

definition requestTimedOut :: "nat \<Rightarrow> client \<Rightarrow> client" where
  "requestTimedOut i c = (settleRequest i (Inl EWorkerTimedOut) c)\<lparr>c_pending := None\<rparr>"

subsection \<open>Initialisation\<close>

record sshca_config =
  sc_public_key :: jsstring
  sc_server_verifying_share :: jsstring
  sc_client_verifying_share :: jsstring

text \<open>\<open>initWithShare\<close> before its first \<open>await\<close>, and what it decrypts after it.\<close>

definition initWithShareBegin :: "client \<Rightarrow> client" where
  "initWithShareBegin c = (if c_worker c = None then spawnWorker c else c)"

definition decryptShare :: "webcrypto \<Rightarrow> bytes \<Rightarrow> bytes \<Rightarrow> client_error + bytes" where
  "decryptShare wc encryptedShare masterKey =
     (let nonce = slice encryptedShare 0 12; ciphertext = sliceFrom encryptedShare 12
      in case decrypt wc masterKey nonce ciphertext of Inl e \<Rightarrow> Inl (EClientCrypto e) | Inr s \<Rightarrow> Inr s)"

definition decodeC :: "jsstring \<Rightarrow> client_error + bytes" where
  "decodeC s = (case decodeBase64 s of Inl e \<Rightarrow> Inl (EClientBase64 e) | Inr b \<Rightarrow> Inr b)"

definition initWithConfig :: "sshca_config \<Rightarrow> bytes \<Rightarrow> client \<Rightarrow> client_error + (nat \<times> client)" where
  "initWithConfig config shareBytes c =
     bindE (guardE (c_worker c \<noteq> None) EWorkerNotSpawned) (\<lambda>_.
     bindE (decodeC (sc_public_key config)) (\<lambda>groupPublicKey.
     bindE (decodeC (sc_server_verifying_share config)) (\<lambda>serverVerifyingShare.
     bindE (decodeC (sc_client_verifying_share config)) (\<lambda>clientVerifyingShare.
       Inr (sendToWorker (MInit \<lparr>ip_share = JsU8 shareBytes, ip_groupPublicKey = JsU8 groupPublicKey,
              ip_verifyingShares = Some (JsU8 serverVerifyingShare, JsU8 clientVerifyingShare),
              ip_timeoutMs = Some (c_timeoutMs c)\<rparr>) 30000 c)))))"

definition initWithConfigDone :: "worker_response \<Rightarrow> client \<Rightarrow> client_error + client" where
  "initWithConfigDone response c =
     (if response \<noteq> RReady then Inl EInitFailed
      else Inr (c\<lparr>c_isInitialized := True, c_initTime := Some (c_now c)\<rparr>))"

definition initWithShareDone ::
  "webcrypto \<Rightarrow> bytes \<Rightarrow> bytes \<Rightarrow> sshca_config \<Rightarrow> client \<Rightarrow> client_error + (nat \<times> client)" where
  "initWithShareDone wc encryptedShare masterKey config c =
     bindE (decryptShare wc encryptedShare masterKey) (\<lambda>shareBytes. initWithConfig config shareBytes c)"

subsection \<open>Status and termination\<close>

definition isActiveC :: "client \<Rightarrow> bool" where
  "isActiveC c \<longleftrightarrow> c_isInitialized c \<and> c_worker c \<noteq> None"

definition ensureAlive :: "client \<Rightarrow> nat option \<times> client" where
  "ensureAlive c =
     (if \<not> c_isInitialized c \<or> c_worker c = None then (None, c)
      else let (i, c') = sendToWorker MStatus 2500 c in (Some i, c'))"

definition ensureAliveDone :: "client_error + worker_response \<Rightarrow> client \<Rightarrow> bool \<times> client" where
  "ensureAliveDone r c =
     (case r of
        Inr _ \<Rightarrow> (True, c)
      | Inl _ \<Rightarrow>
          (False, c\<lparr>c_terminated := (case c_worker c of Some h \<Rightarrow> c_terminated c @ [h] | None \<Rightarrow> c_terminated c),
                    c_worker := None, c_isInitialized := False, c_initTime := None\<rparr>))"

definition getRemainingTime :: "client \<Rightarrow> int" where
  "getRemainingTime c =
     (case c_initTime c of
        Some t0 \<Rightarrow> if isActiveC c then max 0 (c_timeoutMs c - (c_now c - t0)) else 0
      | None \<Rightarrow> 0)"

definition setTimeoutMs :: "int \<Rightarrow> client \<Rightarrow> client" where
  "setTimeoutMs ms c = c\<lparr>c_timeoutMs := ms\<rparr>"

definition terminateC :: "client \<Rightarrow> nat option \<times> client" where
  "terminateC c =
     (if c_worker c = None then (None, c\<lparr>c_isInitialized := False, c_initTime := None\<rparr>)
      else let (i, c') = sendToWorker MTerminate 5000 c in (Some i, c'))"

text \<open>After the request settled, either way: \<open>this.worker.terminate()\<close> throws a TypeError when the
  handle was dropped in the meantime.\<close>

definition terminateDone :: "client \<Rightarrow> client_error + client" where
  "terminateDone c =
     (case c_worker c of
        None \<Rightarrow> Inl ENullWorker
      | Some h \<Rightarrow> Inr (c\<lparr>c_terminated := c_terminated c @ [h], c_worker := None,
                         c_isInitialized := False, c_initTime := None\<rparr>))"

text \<open>\<open>this.initTime = Date.now()\<close>, which the certificate request does on its way.\<close>

definition touch :: "client \<Rightarrow> client" where
  "touch c = c\<lparr>c_initTime := Some (c_now c)\<rparr>"

subsection \<open>The client as a system\<close>

text \<open>What can happen to the client between two steps of a certificate request: any method, any
  message of the worker, any due timeout, a worker error, the passing of time.\<close>

inductive cstep :: "client \<Rightarrow> client \<Rightarrow> bool" where
  c_send: "0 < ms \<Longrightarrow> cstep c (snd (sendToWorker m ms c))"
| c_message: "cstep c (handleWorkerMessage r c)"
| c_timeout: "(i, due) \<in> set (c_timers c) \<Longrightarrow> due \<le> c_now c \<Longrightarrow> cstep c (requestTimedOut i c)"
| c_error: "cstep c (workerError c)"
| c_respawn: "cstep c (initWithShareBegin c)"
| c_initialized: "initWithConfigDone r c = Inr c' \<Longrightarrow> cstep c c'"
| c_alive: "cstep c (snd (ensureAliveDone r c))"
| c_terminate: "cstep c (snd (terminateC c))"
| c_terminateDone: "terminateDone c = Inr c' \<Longrightarrow> cstep c c'"
| c_setTimeout: "cstep c (setTimeoutMs ms c)"
| c_touch: "cstep c (touch c)"
| c_tick: "0 \<le> d \<Longrightarrow> cstep c (c\<lparr>c_now := c_now c + d\<rparr>)"

inductive_cases cstepE: "cstep c c'"

abbreviation creach :: "client \<Rightarrow> bool" where
  "creach \<equiv> reach (\<lambda>c. c = newFROSTClient) cstep"

text \<open>Every unsettled request has a pending timeout, only requests have timeouts, and the pending
  slot names an unsettled request.\<close>

definition timed :: "client \<Rightarrow> nat set" where
  "timed c = fst ` set (c_timers c)"

definition clientInv :: "client \<Rightarrow> bool" where
  "clientInv c \<longleftrightarrow>
     (\<forall>i<length (c_requests c). c_requests c ! i = PPending \<longleftrightarrow> i \<in> timed c) \<and>
     timed c \<subseteq> {..<length (c_requests c)} \<and>
     (\<forall>i. c_pending c = Some i \<longrightarrow> i < length (c_requests c) \<and> c_requests c ! i = PPending)"

subsection \<open>The certificate request\<close>

record ws_response =
  wr_type :: jsstring
  wr_session :: "jsstring option"
  wr_payload :: "jsstring option"
  wr_serial :: "int option"
  wr_error :: "jsstring option"

datatype ws_request =
    RequestCert int jsstring
  | SendRound1 "jsstring option" jsstring
  | SendRound2 "jsstring option" jsstring

record certificate_result =
  cr_certificate :: jsstring
  cr_serial :: int
  cr_userPrivateKey :: bytes
  cr_userPublicKey :: bytes

text \<open>Where \<open>handleSigningFlow\<close> stands: not yet opened, at one of its five \<open>await\<close>s, or returned.
  The worker stages carry the request they wait for.\<close>

datatype flow_stage =
    FConnecting
  | FAwaitSession
  | FAwaitRound1 "jsstring option" nat
  | FAwaitCommitment "jsstring option"
  | FAwaitRound2 "jsstring option" nat
  | FAwaitCertificate "jsstring option"
  | FFinished

record cert_flow =
  f_hostId :: int
  f_privateKey :: bytes
  f_publicKey :: bytes
  f_stage :: flow_stage
  f_sent :: "ws_request list"
  f_wsClosed :: bool
  f_outcome :: "certificate_result promise"

datatype flow_event = FOpen | FWsError | FWsClose | FWsMessage "ws_response option" | FWsTimeout | FResume

text \<open>\<open>requestCertificate\<close> up to its promise; \<open>current\<close> is the state of \<open>certRequestPromise\<close>, and the
  key pair is what \<open>ed25519\<close> generates.\<close>

definition newFlow :: "int \<Rightarrow> bytes \<Rightarrow> bytes \<Rightarrow> cert_flow" where
  "newFlow hostId sk pk = \<lparr>f_hostId = hostId, f_privateKey = sk, f_publicKey = pk, f_stage = FConnecting,
     f_sent = [], f_wsClosed = False, f_outcome = PPending\<rparr>"

definition requestCertificate ::
  "cert_flow option \<Rightarrow> jsstring option \<Rightarrow> int \<Rightarrow> bytes \<Rightarrow> bytes \<Rightarrow> client \<Rightarrow> client_error + (cert_flow \<times> client)" where
  "requestCertificate current token hostId sk pk c =
     bindE (guardE (c_isInitialized c \<and> c_worker c \<noteq> None) EClientNotInitialized) (\<lambda>_.
     case current of
       Some f \<Rightarrow> Inr (f, c)
     | None \<Rightarrow>
         bindE (guardE (token \<noteq> None \<and> token \<noteq> Some []) ENotAuthenticated) (\<lambda>_.
           Inr (newFlow hostId sk pk, touch c)))"

definition encodeC :: "bytes \<Rightarrow> client_error + jsstring" where
  "encodeC b = (case encodeBase64 b of Inl e \<Rightarrow> Inl (EClientBase64 e) | Inr s \<Rightarrow> Inr s)"

text \<open>A missing payload reaches \<open>atob\<close> as the string \<open>undefined\<close>.\<close>

definition decodePayload :: "jsstring option \<Rightarrow> client_error + bytes" where
  "decodePayload p = decodeC (case p of Some s \<Rightarrow> s | None \<Rightarrow> js ''undefined'')"

definition settleFlow :: "client_error + certificate_result \<Rightarrow> cert_flow \<Rightarrow> cert_flow" where
  "settleFlow r f = f\<lparr>f_outcome := settleP r (f_outcome f)\<rparr>"

text \<open>The flow returns or throws: the \<open>finally\<close> closes the socket, then the promise settles.\<close>

definition finishFlow :: "client_error + certificate_result \<Rightarrow> cert_flow \<Rightarrow> cert_flow" where
  "finishFlow r f = settleFlow r (f\<lparr>f_stage := FFinished, f_wsClosed := True\<rparr>)"

definition sendWs :: "ws_request \<Rightarrow> flow_stage \<Rightarrow> cert_flow \<Rightarrow> cert_flow" where
  "sendWs r st f = f\<lparr>f_sent := f_sent f @ [r], f_stage := st\<rparr>"

text \<open>What \<open>receiveWS\<close> makes of a message: an unparsable one and an \<open>error\<close> reject.\<close>

definition receiveWS :: "ws_response option \<Rightarrow> client_error + ws_response" where
  "receiveWS m =
     (case m of
        None \<Rightarrow> Inl EWsParse
      | Some d \<Rightarrow>
          if wr_type d = js ''error''
          then Inl (EWsServer (case wr_error d of
                 Some e \<Rightarrow> if e = [] then js ''Server error'' else e | None \<Rightarrow> js ''Server error''))
          else Inr d)"

definition onSession :: "ws_response \<Rightarrow> client \<Rightarrow> client_error + (flow_stage \<times> client)" where
  "onSession d c =
     bindE (guardE (wr_type d = js ''session'') (EExpectedSession (wr_type d))) (\<lambda>_.
     bindE (decodePayload (wr_payload d)) (\<lambda>tbsData.
       let (i, c') = sendToWorker (MRound1 (JsU8 tbsData)) 30000 c
       in Inr (FAwaitRound1 (wr_session d) i, c')))"

definition onCommitment :: "jsstring option \<Rightarrow> ws_response \<Rightarrow> client \<Rightarrow> client_error + (flow_stage \<times> client)" where
  "onCommitment session d c =
     bindE (guardE (wr_type d = js ''commitment'') (EExpectedCommitment (wr_type d))) (\<lambda>_.
     bindE (decodePayload (wr_payload d)) (\<lambda>serverCommitment.
       let (i, c') = sendToWorker (MRound2 (JsU8 serverCommitment)) 30000 c
       in Inr (FAwaitRound2 session i, c')))"

definition onCertificate :: "cert_flow \<Rightarrow> ws_response \<Rightarrow> client_error + certificate_result" where
  "onCertificate f d =
     bindE (guardE (wr_type d = js ''certificate'') (EExpectedCertificate (wr_type d))) (\<lambda>_.
     bindE (decodePayload (wr_payload d)) (\<lambda>certBytes.
       Inr \<lparr>cr_certificate = the (wr_payload d),
            cr_serial = (case wr_serial d of Some n \<Rightarrow> n | None \<Rightarrow> 0),
            cr_userPrivateKey = f_privateKey f, cr_userPublicKey = f_publicKey f\<rparr>))"

definition enterStage :: "client_error + (flow_stage \<times> client) \<Rightarrow> cert_flow \<times> client \<Rightarrow> cert_flow \<times> client" where
  "enterStage r fc =
     (case r of Inl e \<Rightarrow> (finishFlow (Inl e) (fst fc), snd fc)
      | Inr (st, c') \<Rightarrow> ((fst fc)\<lparr>f_stage := st\<rparr>, c'))"

definition flowMessage :: "ws_response option \<Rightarrow> cert_flow \<times> client \<Rightarrow> cert_flow \<times> client" where
  "flowMessage m fc =
     (case fc of (f, c) \<Rightarrow>
        (case f_stage f of
           FAwaitSession \<Rightarrow> enterStage (bindE (receiveWS m) (\<lambda>d. onSession d c)) (f, c)
         | FAwaitCommitment session \<Rightarrow> enterStage (bindE (receiveWS m) (\<lambda>d. onCommitment session d c)) (f, c)
         | FAwaitCertificate session \<Rightarrow> (finishFlow (bindE (receiveWS m) (onCertificate f)) f, c)
         | _ \<Rightarrow> (f, c)))"

text \<open>The worker's answer to request \<open>i\<close> has arrived: send it on, or fail.\<close>

definition flowResume :: "cert_flow \<times> client \<Rightarrow> cert_flow \<times> client" where
  "flowResume fc =
     (case fc of (f, c) \<Rightarrow>
        (case f_stage f of
           FAwaitRound1 session i \<Rightarrow>
             (case c_requests c ! i of
                PPending \<Rightarrow> (f, c)
              | PRejected e \<Rightarrow> (finishFlow (Inl e) f, c)
              | PResolved r \<Rightarrow>
                  (case r of
                     RCommitment cm \<Rightarrow>
                       (case encodeC cm of
                          Inl e \<Rightarrow> (finishFlow (Inl e) f, touch c)
                        | Inr s \<Rightarrow> (sendWs (SendRound1 session s) (FAwaitCommitment session) f, touch c))
                   | _ \<Rightarrow> (finishFlow (Inl EWorkerCommitment) f, c)))
         | FAwaitRound2 session i \<Rightarrow>
             (case c_requests c ! i of
                PPending \<Rightarrow> (f, c)
              | PRejected e \<Rightarrow> (finishFlow (Inl e) f, c)
              | PResolved r \<Rightarrow>
                  (case r of
                     RPartialSig ps \<Rightarrow>
                       (case encodeC ps of
                          Inl e \<Rightarrow> (finishFlow (Inl e) f, touch c)
                        | Inr s \<Rightarrow> (sendWs (SendRound2 session s) (FAwaitCertificate session) f, touch c))
                   | _ \<Rightarrow> (finishFlow (Inl EWorkerPartialSig) f, c)))
         | _ \<Rightarrow> (f, c)))"

definition awaitsSocket :: "flow_stage \<Rightarrow> bool" where
  "awaitsSocket st = (case st of FAwaitSession \<Rightarrow> True | FAwaitCommitment _ \<Rightarrow> True
     | FAwaitCertificate _ \<Rightarrow> True | _ \<Rightarrow> False)"

fun flowStep :: "flow_event \<Rightarrow> cert_flow \<times> client \<Rightarrow> cert_flow \<times> client" where
  "flowStep FOpen (f, c) =
     (if f_stage f = FConnecting
      then (case encodeC (f_publicKey f) of
              Inl e \<Rightarrow> (finishFlow (Inl e) f, c)
            | Inr s \<Rightarrow> (sendWs (RequestCert (f_hostId f) s) FAwaitSession f, c))
      else (f, c))"
| "flowStep FWsError (f, c) = (settleFlow (Inl EWsConnection) f, c)"
| "flowStep FWsClose (f, c) = (settleFlow (Inl EWsClosed) f, c)"
| "flowStep (FWsMessage m) fc = flowMessage m fc"
| "flowStep FWsTimeout (f, c) = (if awaitsSocket (f_stage f) then (finishFlow (Inl EWsTimedOut) f, c) else (f, c))"
| "flowStep FResume fc = flowResume fc"

text \<open>A certificate request in its environment.\<close>

inductive fstep :: "cert_flow \<times> client \<Rightarrow> cert_flow \<times> client \<Rightarrow> bool" where
  f_event: "fstep fc (flowStep ev fc)"
| f_client: "cstep c c' \<Longrightarrow> fstep (f, c) (f, c')"

inductive_cases fstepE: "fstep fc fc'"

definition flowInit :: "cert_flow \<times> client \<Rightarrow> bool" where
  "flowInit fc \<longleftrightarrow> creach (snd fc) \<and> (\<exists>h sk pk. fst fc = newFlow h sk pk)"

abbreviation freach :: "cert_flow \<times> client \<Rightarrow> bool" where
  "freach \<equiv> reach flowInit fstep"

subsection \<open>Laws of the client\<close>

lemma settleP_pending [simp]: "settleP r p \<noteq> PPending"
  by (cases "(r, p)" rule: settleP.cases) auto

lemma settleP_final [simp]: "p \<noteq> PPending \<Longrightarrow> settleP r p = p"
  by (cases p; cases r) auto

lemma timed_settle [simp]: "timed (settleRequest i r c) = timed c - {i}"
  by (auto simp: timed_def settleRequest_def)

lemma timed_update [simp]:
  "timed (c\<lparr>c_pending := p\<rparr>) = timed c" "timed (c\<lparr>c_initTime := t, c_isInitialized := b\<rparr>) = timed c"
  by (simp_all add: timed_def)

lemma clientInv_settle:
  "clientInv c \<Longrightarrow> i < length (c_requests c) \<Longrightarrow> clientInv ((settleRequest i r c)\<lparr>c_pending := None\<rparr>)"
  by (auto simp: clientInv_def) (auto simp: settleRequest_def nth_list_update split: if_splits)

lemma clientInv_send: "clientInv c \<Longrightarrow> clientInv (snd (sendToWorker m ms c))"
  by (cases "c_worker c")
    (auto simp: clientInv_def sendToWorker_def Let_def nth_append less_Suc_eq timed_def image_Un)

lemma clientInv_same:
  "c_requests c' = c_requests c \<Longrightarrow> c_timers c' = c_timers c \<Longrightarrow> c_pending c' = c_pending c \<Longrightarrow>
     clientInv c' = clientInv c"
  by (simp add: clientInv_def timed_def)

lemma clientInv_pending: "clientInv c \<Longrightarrow> c_pending c = Some i \<Longrightarrow> i < length (c_requests c)"
  by (simp add: clientInv_def)

lemmas client_ops = workerError_def initWithShareBegin_def spawnWorker_def initWithConfigDone_def
  ensureAliveDone_def terminateDone_def setTimeoutMs_def touch_def

lemma terminateC_snd:
  "snd (terminateC c) = (if c_worker c = None then c\<lparr>c_isInitialized := False, c_initTime := None\<rparr>
     else snd (sendToWorker MTerminate 5000 c))"
  by (simp add: terminateC_def split_beta)

lemma clientInv_step: "cstep c c' \<Longrightarrow> clientInv c \<Longrightarrow> clientInv c'"
proof (induction rule: cstep.induct)
  case (c_timeout i due c)
  then have "i < length (c_requests c)" by (force simp: clientInv_def timed_def)
  then show ?case using c_timeout unfolding requestTimedOut_def by (intro clientInv_settle)
next
  case (c_message c r)
  then show ?case
    by (auto simp: handleWorkerMessage_def intro: clientInv_settle clientInv_pending split: option.split)
next
  case (c_terminate c)
  then show ?case by (simp add: terminateC_snd clientInv_send) (simp add: clientInv_def timed_def)
qed (simp_all add: clientInv_send,
     (auto simp: client_ops clientInv_def timed_def intro: rev_image_eqI split: if_splits sum.splits option.splits)+)

lemma clientInv_initial: "clientInv newFROSTClient"
  by (simp add: newFROSTClient_def spawnWorker_def clientInv_def timed_def)

interpretation client_system: invariant_system "\<lambda>c. c = newFROSTClient" cstep clientInv
  by unfold_locales (simp_all add: clientInv_initial clientInv_step)

text \<open>A settled request never changes.\<close>

definition settledIn :: "client \<Rightarrow> nat \<Rightarrow> worker_response promise \<Rightarrow> bool" where
  "settledIn c i p \<longleftrightarrow> i < length (c_requests c) \<and> c_requests c ! i = p \<and> p \<noteq> PPending"

lemma settledIn_send: "settledIn c i p \<Longrightarrow> settledIn (snd (sendToWorker m ms c)) i p"
  by (auto simp: settledIn_def sendToWorker_def nth_append Let_def split: option.splits)

lemma settledIn_settle: "settledIn c i p \<Longrightarrow> settledIn ((settleRequest j r c)\<lparr>c_pending := None\<rparr>) i p"
  by (cases "i = j") (auto simp: settledIn_def settleRequest_def)

lemma settledIn_step: "cstep c c' \<Longrightarrow> settledIn c i p \<Longrightarrow> settledIn c' i p"
proof (induction rule: cstep.induct)
  case (c_message c r)
  then show ?case by (auto simp: handleWorkerMessage_def intro: settledIn_settle split: option.split)
next
  case (c_terminate c)
  then show ?case by (simp add: terminateC_snd settledIn_send) (simp add: settledIn_def)
qed (simp_all add: settledIn_send requestTimedOut_def settledIn_settle,
     (auto simp: client_ops settledIn_def split: if_splits sum.splits option.splits)+)

subsection \<open>Laws of the certificate request\<close>

text \<open>The shape of what was sent, per stage: the messages of the protocol in order, with the session
  of the server throughout.\<close>

definition flowShape :: "cert_flow \<Rightarrow> bool" where
  "flowShape f =
     (case f_stage f of
        FConnecting \<Rightarrow> f_sent f = []
      | FAwaitSession \<Rightarrow> \<exists>k. f_sent f = [RequestCert (f_hostId f) k]
      | FAwaitRound1 s i \<Rightarrow> \<exists>k. f_sent f = [RequestCert (f_hostId f) k]
      | FAwaitCommitment s \<Rightarrow> \<exists>k a. f_sent f = [RequestCert (f_hostId f) k, SendRound1 s a]
      | FAwaitRound2 s i \<Rightarrow> \<exists>k a. f_sent f = [RequestCert (f_hostId f) k, SendRound1 s a]
      | FAwaitCertificate s \<Rightarrow> \<exists>k a b. f_sent f = [RequestCert (f_hostId f) k, SendRound1 s a, SendRound2 s b]
      | FFinished \<Rightarrow> \<exists>k s a b. prefix (f_sent f) [RequestCert (f_hostId f) k, SendRound1 s a, SendRound2 s b])"

text \<open>Every payload is what it has to be: the public key, and answers of the worker.\<close>

definition payloadOk :: "cert_flow \<Rightarrow> client \<Rightarrow> ws_request \<Rightarrow> bool" where
  "payloadOk f c r =
     (case r of
        RequestCert h k \<Rightarrow> encodeC (f_publicKey f) = Inr k
      | SendRound1 s a \<Rightarrow> \<exists>i cm. settledIn c i (PResolved (RCommitment cm)) \<and> encodeC cm = Inr a
      | SendRound2 s b \<Rightarrow> \<exists>i ps. settledIn c i (PResolved (RPartialSig ps)) \<and> encodeC ps = Inr b)"

definition outcomeOk :: "cert_flow \<Rightarrow> bool" where
  "outcomeOk f \<longleftrightarrow> (f_wsClosed f \<longleftrightarrow> f_stage f = FFinished) \<and>
     (f_stage f = FFinished \<longrightarrow> f_outcome f \<noteq> PPending) \<and>
     (\<forall>r. f_outcome f = PResolved r \<longrightarrow> f_stage f = FFinished \<and> length (f_sent f) = 3 \<and>
        cr_userPublicKey r = f_publicKey f \<and> cr_userPrivateKey r = f_privateKey f \<and>
        isOk (decodeC (cr_certificate r)))"

fun waitsFor :: "flow_stage \<Rightarrow> nat option" where
  "waitsFor (FAwaitRound1 s i) = Some i"
| "waitsFor (FAwaitRound2 s i) = Some i"
| "waitsFor st = None"

definition flowInv :: "cert_flow \<times> client \<Rightarrow> bool" where
  "flowInv fc \<longleftrightarrow> (case fc of (f, c) \<Rightarrow> flowShape f \<and> outcomeOk f \<and> clientInv c \<and>
     (\<forall>r\<in>set (f_sent f). payloadOk f c r) \<and>
     (\<forall>i. waitsFor (f_stage f) = Some i \<longrightarrow> i < length (c_requests c)))"

lemma cstep_length: "cstep c c' \<Longrightarrow> length (c_requests c) \<le> length (c_requests c')"
  by (induction rule: cstep.induct)
    (auto simp: client_ops sendToWorker_def Let_def handleWorkerMessage_def requestTimedOut_def settleRequest_def
      terminateC_snd split: option.splits sum.splits if_splits)

lemma payloadOk_step: "cstep c c' \<Longrightarrow> payloadOk f c r \<Longrightarrow> payloadOk f c' r"
  unfolding payloadOk_def by (cases r) (auto dest: settledIn_step)

lemma payloadOk_fields:
  "f_publicKey f' = f_publicKey f \<Longrightarrow> c_requests c' = c_requests c \<Longrightarrow> payloadOk f' c' r = payloadOk f c r"
  by (cases r) (simp_all add: payloadOk_def settledIn_def)

lemma flowInv_client: "cstep c c' \<Longrightarrow> flowInv (f, c) \<Longrightarrow> flowInv (f, c')"
  using cstep_length [of c c']
  by (auto simp: flowInv_def clientInv_step payloadOk_step intro: less_le_trans)

lemma flowShape_prefix:
  "flowShape f \<Longrightarrow> \<exists>k s a b. prefix (f_sent f) [RequestCert (f_hostId f) k, SendRound1 s a, SendRound2 s b]"
  by (cases "f_stage f") (auto simp: flowShape_def)

lemma finishFlow_fields [simp]:
  "f_stage (finishFlow r f) = FFinished" "f_sent (finishFlow r f) = f_sent f"
  "f_hostId (finishFlow r f) = f_hostId f" "f_publicKey (finishFlow r f) = f_publicKey f"
  "f_wsClosed (finishFlow r f)" "f_privateKey (finishFlow r f) = f_privateKey f"
  "f_outcome (finishFlow r f) = settleP r (f_outcome f)"
  by (simp_all add: finishFlow_def settleFlow_def)

lemma settleP_resolved: "settleP r p = PResolved v \<Longrightarrow> p = PResolved v \<or> r = Inr v"
  by (cases "(r, p)" rule: settleP.cases) auto

lemma flowInv_finish:
  assumes inv: "flowInv (f, c)" and "f_stage f \<noteq> FFinished"
    and ok: "\<And>v. r = Inr v \<Longrightarrow> length (f_sent f) = 3 \<and> cr_userPublicKey v = f_publicKey f \<and>
       cr_userPrivateKey v = f_privateKey f \<and> isOk (decodeC (cr_certificate v))"
    and c: "c_requests c' = c_requests c" "clientInv c'"
  shows "flowInv (finishFlow r f, c')"
proof -
  have "outcomeOk (finishFlow r f)"
    using inv assms(2) ok by (auto simp: flowInv_def outcomeOk_def dest!: settleP_resolved)
  moreover have "flowShape (finishFlow r f)"
    using inv flowShape_prefix [of f] by (simp add: flowInv_def) (simp add: flowShape_def)
  moreover have "payloadOk (finishFlow r f) c' x = payloadOk f c x" for x
    using c by (intro payloadOk_fields) simp_all
  ultimately show ?thesis using inv c by (simp add: flowInv_def)
qed

lemma clientInv_touch [simp]: "clientInv (touch c) = clientInv c"
  by (rule clientInv_same) (simp_all add: touch_def)

lemma touch_requests [simp]: "c_requests (touch c) = c_requests c"
  by (simp add: touch_def)

lemma flowInv_settle: "flowInv (f, c) \<Longrightarrow> flowInv (settleFlow (Inl e) f, c)"
proof -
  assume inv: "flowInv (f, c)"
  have "payloadOk (settleFlow (Inl e) f) c x = payloadOk f c x" for x
    by (rule payloadOk_fields) (simp_all add: settleFlow_def)
  moreover have "flowShape (settleFlow (Inl e) f) = flowShape f"
    by (cases "f_stage f") (simp_all add: flowShape_def settleFlow_def)
  moreover have "outcomeOk (settleFlow (Inl e) f)"
    using inv by (auto simp: flowInv_def outcomeOk_def settleFlow_def dest!: settleP_resolved)
  ultimately show ?thesis using inv by (simp add: flowInv_def settleFlow_def)
qed

text \<open>Moving to a stage that waits for the worker, with the request just sent.\<close>

lemma flowInv_wait:
  assumes inv: "flowInv (f, c)" and send: "sendToWorker m ms c = (i, c')"
    and st: "f_stage f = FAwaitSession \<and> st = FAwaitRound1 s i \<or>
             f_stage f = FAwaitCommitment s \<and> st = FAwaitRound2 s i"
  shows "flowInv (f\<lparr>f_stage := st\<rparr>, c')"
proof -
  have c': "c' = snd (sendToWorker m ms c)" "i < length (c_requests c')"
    using send by (auto simp: sendToWorker_def Let_def split: option.splits)
  have "payloadOk (f\<lparr>f_stage := st\<rparr>) c' r" if "payloadOk f c r" for r
    using that settledIn_send unfolding payloadOk_def c' by (cases r) fastforce+
  moreover have "clientInv c'" using inv clientInv_send by (simp add: flowInv_def c')
  ultimately show ?thesis
    using inv st c'(2) by (auto simp: flowInv_def flowShape_def outcomeOk_def)
qed

text \<open>Sending on an answer of the worker.\<close>

lemma flowInv_sendWs:
  assumes inv: "flowInv (f, c)" and pay: "payloadOk f c r"
    and st: "f_stage f = FConnecting \<and> (\<exists>k. r = RequestCert (f_hostId f) k) \<and> st = FAwaitSession \<or>
             (\<exists>s i a. f_stage f = FAwaitRound1 s i \<and> r = SendRound1 s a \<and> st = FAwaitCommitment s) \<or>
             (\<exists>s i b. f_stage f = FAwaitRound2 s i \<and> r = SendRound2 s b \<and> st = FAwaitCertificate s)"
    and c: "c_requests c' = c_requests c" "clientInv c'"
  shows "flowInv (sendWs r st f, c')"
proof -
  have "payloadOk (sendWs r st f) c' x = payloadOk f c x" for x
    using c by (intro payloadOk_fields) (simp_all add: sendWs_def)
  moreover have "flowShape (sendWs r st f)" "outcomeOk (sendWs r st f)"
    using inv st by (auto simp: flowInv_def flowShape_def outcomeOk_def sendWs_def)
  ultimately show ?thesis using inv pay st c by (auto simp: flowInv_def sendWs_def)
qed

lemma onCertificate_ok:
  "onCertificate f d = Inr v \<Longrightarrow> cr_userPublicKey v = f_publicKey f \<and> cr_userPrivateKey v = f_privateKey f \<and>
     wr_payload d = Some (cr_certificate v) \<and> isOk (decodeC (cr_certificate v))"
proof -
  assume a: "onCertificate f d = Inr v"
  have "\<not> isOk (decodeC (js ''undefined''))" by code_simp
  then show ?thesis
    using a by (cases "wr_payload d") (auto simp: onCertificate_def bindE_Inr_iff decodePayload_def isOk_iff)
qed

lemma onSession_stage:
  "onSession d c = Inr (st, c') \<Longrightarrow> \<exists>m i. sendToWorker m 30000 c = (i, c') \<and> st = FAwaitRound1 (wr_session d) i"
  by (auto simp: onSession_def bindE_Inr_iff split_beta)

lemma onCommitment_stage:
  "onCommitment s d c = Inr (st, c') \<Longrightarrow> \<exists>m i. sendToWorker m 30000 c = (i, c') \<and> st = FAwaitRound2 s i"
  by (auto simp: onCommitment_def bindE_Inr_iff split_beta)

lemma flowInv_enter:
  assumes "flowInv (f, c)" and "f_stage f = FAwaitSession \<or> f_stage f = FAwaitCommitment s"
    and "\<And>st c'. r = Inr (st, c') \<Longrightarrow> \<exists>m i s'. sendToWorker m 30000 c = (i, c') \<and>
       (f_stage f = FAwaitSession \<and> st = FAwaitRound1 s' i \<or> f_stage f = FAwaitCommitment s' \<and> st = FAwaitRound2 s' i)"
  shows "flowInv (enterStage r (f, c))"
proof (cases r)
  case (Inl e)
  have "clientInv c" using assms(1) by (simp add: flowInv_def)
  then show ?thesis using assms(1,2) Inl by (auto simp: enterStage_def intro!: flowInv_finish)
next
  case (Inr p)
  then show ?thesis using assms(1) assms(3) [of "fst p" "snd p"]
    by (cases p) (auto simp: enterStage_def intro: flowInv_wait)
qed

lemma flowInv_message: "flowInv (f, c) \<Longrightarrow> flowInv (flowMessage m (f, c))"
proof (cases "f_stage f")
  case FAwaitSession
  assume "flowInv (f, c)"
  then show ?thesis using FAwaitSession unfolding flowMessage_def
    by (auto simp: bindE_Inr_iff intro!: flowInv_enter dest!: onSession_stage) blast
next
  case (FAwaitCommitment s)
  assume "flowInv (f, c)"
  then show ?thesis using FAwaitCommitment unfolding flowMessage_def
    by (auto simp: bindE_Inr_iff intro!: flowInv_enter dest!: onCommitment_stage)
next
  case (FAwaitCertificate s)
  assume inv: "flowInv (f, c)"
  then have "length (f_sent f) = 3" "clientInv c"
    using FAwaitCertificate by (auto simp: flowInv_def flowShape_def)
  then show ?thesis using inv FAwaitCertificate unfolding flowMessage_def
    by (auto simp: bindE_Inr_iff intro!: flowInv_finish dest!: onCertificate_ok)
qed (simp_all add: flowMessage_def)

lemma flowInv_resume: "flowInv (f, c) \<Longrightarrow> flowInv (flowResume (f, c))"
proof (cases "f_stage f")
  case (FAwaitRound1 s i)
  assume inv: "flowInv (f, c)"
  then have i: "i < length (c_requests c)" "clientInv c" using FAwaitRound1 by (auto simp: flowInv_def)
  then have "payloadOk f c (SendRound1 s a)"
    if "c_requests c ! i = PResolved (RCommitment cm)" "encodeC cm = Inr a" for cm a
    using that by (auto simp: payloadOk_def settledIn_def)
  then show ?thesis using inv i FAwaitRound1
    by (auto simp: flowResume_def intro!: flowInv_finish flowInv_sendWs
        split: promise.split worker_response.split sum.split)
next
  case (FAwaitRound2 s i)
  assume inv: "flowInv (f, c)"
  then have i: "i < length (c_requests c)" "clientInv c" using FAwaitRound2 by (auto simp: flowInv_def)
  then have "payloadOk f c (SendRound2 s a)"
    if "c_requests c ! i = PResolved (RPartialSig ps)" "encodeC ps = Inr a" for ps a
    using that by (auto simp: payloadOk_def settledIn_def)
  then show ?thesis using inv i FAwaitRound2
    by (auto simp: flowResume_def intro!: flowInv_finish flowInv_sendWs
        split: promise.split worker_response.split sum.split)
qed (simp_all add: flowResume_def)

lemma flowInv_flowStep: "flowInv fc \<Longrightarrow> flowInv (flowStep ev fc)"
proof (cases "(ev, fc)" rule: flowStep.cases)
  case (1 f c)
  assume inv: "flowInv fc"
  then show ?thesis using 1
    by (auto simp: flowInv_def [of "(f, c)"] intro!: flowInv_finish flowInv_sendWs
        split: sum.split simp: payloadOk_def)
next
  case (4 m fc')
  then show "flowInv fc \<Longrightarrow> ?thesis" by (cases fc') (auto intro: flowInv_message)
next
  case (5 f c)
  assume inv: "flowInv fc"
  then show ?thesis using 5
    by (auto simp: awaitsSocket_def intro!: flowInv_finish) (auto simp: flowInv_def)
next
  case (6 fc')
  then show "flowInv fc \<Longrightarrow> ?thesis" by (cases fc') (auto intro: flowInv_resume)
qed (auto intro: flowInv_settle)

lemma flowInv_initial: "flowInit fc \<Longrightarrow> flowInv fc"
  using client_system.reachable_inv
  by (cases fc) (auto simp: flowInit_def newFlow_def flowInv_def flowShape_def outcomeOk_def)

lemma flowInv_step: "flowInv fc \<Longrightarrow> fstep fc fc' \<Longrightarrow> flowInv fc'"
  by (erule fstepE) (auto simp: flowInv_flowStep flowInv_client)

interpretation flow_system: invariant_system flowInit fstep flowInv
  by unfold_locales (rule flowInv_initial, assumption, rule flowInv_step)

text \<open>How far a request has come.\<close>

fun stageRank :: "flow_stage \<Rightarrow> nat" where
  "stageRank FConnecting = 0"
| "stageRank FAwaitSession = 1"
| "stageRank (FAwaitRound1 s i) = 2"
| "stageRank (FAwaitCommitment s) = 3"
| "stageRank (FAwaitRound2 s i) = 4"
| "stageRank (FAwaitCertificate s) = 5"
| "stageRank FFinished = 6"

lemma stageRank_resume:
  "waitsFor (f_stage f) = Some i \<Longrightarrow> c_requests c ! i \<noteq> PPending \<Longrightarrow>
     stageRank (f_stage f) < stageRank (f_stage (fst (flowResume (f, c))))"
  by (cases "f_stage f"; cases "c_requests c ! i")
    (auto simp: flowResume_def sendWs_def split: worker_response.split sum.split)

lemma stage_cases:
  "st = FConnecting \<or> st = FFinished \<or> awaitsSocket st \<or> (\<exists>i. waitsFor st = Some i)"
  by (cases st) (auto simp: awaitsSocket_def)

subsection \<open>Concrete runs\<close>

definition toy_client :: client where
  "toy_client = newFROSTClient"

definition toy_ws :: "string \<Rightarrow> string \<Rightarrow> flow_event" where
  "toy_ws t p = FWsMessage (Some \<lparr>wr_type = js t, wr_session = Some (js ''s1''), wr_payload = Some (js p),
     wr_serial = None, wr_error = None\<rparr>)"

definition toy_answer :: "worker_response \<Rightarrow> cert_flow \<times> client \<Rightarrow> cert_flow \<times> client" where
  "toy_answer r fc = flowStep FResume (fst fc, handleWorkerMessage r (snd fc))"

definition toy_flow :: "cert_flow \<times> client" where
  "toy_flow = flowStep (toy_ws ''session'' ''AQ=='') (flowStep FOpen (newFlow 7 [1] [2], toy_client))"

definition toy_done :: "cert_flow \<times> client" where
  "toy_done = flowStep (toy_ws ''certificate'' ''AQ=='') (toy_answer (RPartialSig [5])
     (flowStep (toy_ws ''commitment'' ''AQ=='') (toy_answer (RCommitment [4]) toy_flow)))"

lemma toy_client_reach: "creach toy_client"
  unfolding toy_client_def by (rule reach_init) simp

lemma freach_event: "freach fc \<Longrightarrow> freach (flowStep ev fc)"
  by (rule reach_step) (auto intro: fstep.f_event)

lemma freach_answer: "freach fc \<Longrightarrow> freach (toy_answer r fc)"
  unfolding toy_answer_def
  by (rule freach_event, rule reach_step, assumption)
    (use fstep.f_client [OF cstep.c_message, of "fst fc" "snd fc" r] in simp)

lemma toy_flow_reach: "freach toy_flow"
  unfolding toy_flow_def
  by (intro freach_event reach_init) (use toy_client_reach in \<open>auto simp: flowInit_def\<close>)

lemma toy_done_reach: "freach toy_done"
  unfolding toy_done_def by (intro freach_event freach_answer toy_flow_reach)

subsection \<open>Properties\<close>

text \<open>C4: the certificate request follows the signing protocol. Whatever the server, the worker, the
  timeouts and other users of the client do, the messages passed to the socket are a prefix of
  \<open>request_cert\<close>, \<open>round1\<close>, \<open>round2\<close>, both rounds with one and the same session; the first carries
  the request's own public key, and the payloads of the rounds are encodings of a commitment and of a
  partial signature that the worker answered to this client.\<close>

theorem cert_flow_protocol:
  assumes "freach (f, c)"
  shows "(\<exists>k s a b. prefix (f_sent f) [RequestCert (f_hostId f) k, SendRound1 s a, SendRound2 s b]) \<and>
    list_all (payloadOk f c) (f_sent f)"
  using flow_system.reachable_inv [OF assms] flowShape_prefix by (simp add: flowInv_def list_all_iff)

theorem cert_flow_protocol_witness:
  "f_sent (fst toy_done) = [RequestCert 7 (js ''Ag==''), SendRound1 (Some (js ''s1'')) (js ''BA==''),
     SendRound2 (Some (js ''s1'')) (js ''BQ=='')] \<and>
   list_all (payloadOk (fst toy_done) (snd toy_done)) (f_sent (fst toy_done))"
proof -
  have "f_sent (fst toy_done) = [RequestCert 7 (js ''Ag==''), SendRound1 (Some (js ''s1'')) (js ''BA==''),
     SendRound2 (Some (js ''s1'')) (js ''BQ=='')]" by code_simp
  then show ?thesis
    using cert_flow_protocol [of "fst toy_done" "snd toy_done"] toy_done_reach by simp
qed



text \<open>C9: a certificate request is never stuck. Once the socket is open, a request that has not
  returned either waits on the socket, where its timeout ends it with a closed socket and a settled
  promise, or waits for a request to the worker, which either has its own timeout pending or is
  settled, and then resuming advances to a later one of the seven stages.\<close>

theorem cert_flow_never_stuck:
  assumes "freach (f, c)" and "f_stage f \<noteq> FConnecting" and "f_stage f \<noteq> FFinished"
  shows "awaitsSocket (f_stage f) \<and> f_stage (fst (flowStep FWsTimeout (f, c))) = FFinished \<and>
      f_outcome (fst (flowStep FWsTimeout (f, c))) \<noteq> PPending \<or>
    (\<exists>i. waitsFor (f_stage f) = Some i \<and>
       ((\<exists>due. (i, due) \<in> set (c_timers c)) \<or>
        stageRank (f_stage f) < stageRank (f_stage (fst (flowStep FResume (f, c))))))"
proof (cases "awaitsSocket (f_stage f)")
  case True
  then show ?thesis by simp
next
  case False
  then obtain i where i: "waitsFor (f_stage f) = Some i" using assms(2,3) stage_cases by blast
  have "clientInv c" "i < length (c_requests c)"
    using flow_system.reachable_inv [OF assms(1)] i by (auto simp: flowInv_def)
  then have "c_requests c ! i = PPending \<longleftrightarrow> i \<in> fst ` set (c_timers c)"
    by (simp add: clientInv_def timed_def)
  then show ?thesis using i stageRank_resume [of f i c] by (cases "c_requests c ! i = PPending") auto
qed

theorem cert_flow_never_stuck_witness: "\<exists>due. (0, due) \<in> set (c_timers (snd toy_flow))"
proof -
  have st: "f_stage (fst toy_flow) = FAwaitRound1 (Some (js ''s1'')) 0" by code_simp
  moreover have "\<not> stageRank (f_stage (fst toy_flow)) < stageRank (f_stage (fst (flowStep FResume toy_flow)))"
    by code_simp
  ultimately show ?thesis
    using cert_flow_never_stuck [of "fst toy_flow" "snd toy_flow"] toy_flow_reach
    by (auto simp: awaitsSocket_def simp del: flowStep.simps)
qed

text \<open>No request to the worker hangs. In every reachable state of the client an unsettled
  request has a timeout pending, and when that fires the request is rejected as timed out.\<close>

theorem worker_request_times_out:
  assumes "creach c" and "i < length (c_requests c)" and "c_requests c ! i = PPending"
  shows "(\<exists>due. (i, due) \<in> set (c_timers c)) \<and>
    c_requests (requestTimedOut i c) ! i = PRejected EWorkerTimedOut"
proof -
  have "i \<in> timed c"
    using client_system.reachable_inv [OF assms(1)] assms(2,3) by (simp add: clientInv_def)
  then show ?thesis using assms(2,3) by (auto simp: timed_def requestTimedOut_def settleRequest_def)
qed

theorem worker_request_times_out_witness:
  "c_requests (requestTimedOut 0 (snd (sendToWorker MStatus 2500 toy_client))) ! 0 = PRejected EWorkerTimedOut"
proof -
  let ?c = "snd (sendToWorker MStatus 2500 toy_client)"
  have "creach ?c" by (rule reach_step [OF toy_client_reach]) (rule cstep.c_send, simp)
  moreover have "0 < length (c_requests ?c)" "c_requests ?c ! 0 = PPending" by code_simp+
  ultimately show ?thesis using worker_request_times_out [of ?c 0] by blast
qed

text \<open>Overlapping requests steal each other's answer. When a second message is sent before the
  first is answered, the first answer of the worker settles the second request and the first stays
  unsettled until its timeout; and if the first times out before any answer, the slot is emptied, so
  an answer to the second is dropped.\<close>

theorem overlapping_requests_misdelivered:
  assumes "c_worker c \<noteq> None" and "\<not> (\<exists>e. r = RError e)"
  shows "let (i, c1) = sendToWorker m1 t1 c; (j, c2) = sendToWorker m2 t2 c1
    in c_requests (handleWorkerMessage r c2) ! j = PResolved r \<and>
       c_requests (handleWorkerMessage r c2) ! i = PPending \<and>
       handleWorkerMessage r (requestTimedOut i c2) = requestTimedOut i c2 \<and>
       c_requests (requestTimedOut i c2) ! j = PPending"
  using assms
  by (auto simp: sendToWorker_def handleWorkerMessage_def requestTimedOut_def settleRequest_def Let_def
      nth_append split: option.splits worker_response.splits)

theorem overlapping_requests_misdelivered_witness:
  "let (i, c1) = sendToWorker MStatus 2500 toy_client; (j, c2) = sendToWorker (MRound1 (JsU8 [1])) 30000 c1
   in c_requests (handleWorkerMessage (RStatus True None None) c2) ! j = PResolved (RStatus True None None)"
proof -
  have "c_worker toy_client \<noteq> None" by code_simp
  then show ?thesis
    using overlapping_requests_misdelivered [of toy_client "RStatus True None None" MStatus 2500 "MRound1 (JsU8 [1])" 30000]
    by (auto simp: Let_def split: prod.splits)
qed

end
