(* ===== verification/Signing.thy ===== *)
theory Signing
  imports FrostClient
begin

text \<open>
  The FROST client and its worker together: the channel between the page
  (\<open>web/src/lib/frost-client.ts\<close>) and the worker thread (\<open>web/src/workers/frost-worker.ts\<close>). Messages
  of both directions arrive in the order they were posted, one at a time. The first part follows the
  life of one worker as a system of steps and shows which answer a request gets; the second runs a
  whole certificate request through client, worker and signing code.
\<close>

subsection \<open>The channel\<close>

record signing_system =
  y_client :: client
  y_worker :: worker
  y_taken :: nat         \<comment> \<open>messages of the client that the worker has handled\<close>
  y_delivered :: nat     \<comment> \<open>responses of the worker that the client has handled\<close>

definition initial_system :: signing_system where
  "initial_system = \<lparr>y_client = newFROSTClient, y_worker = initial_worker, y_taken = 0, y_delivered = 0\<rparr>"

text \<open>\<open>self.onmessage\<close> with the oldest message in the queue, and \<open>worker.onmessage\<close> with the oldest
  response. A closed worker takes nothing.\<close>

definition workerTakes :: "signer \<Rightarrow> nat \<Rightarrow> signing_system \<Rightarrow> signing_system" where
  "workerTakes sg seed y =
     (if y_taken y < length (c_posted (y_client y)) \<and> \<not> w_closed (y_worker y)
      then y\<lparr>y_worker := handleMessage sg seed (snd (c_posted (y_client y) ! y_taken y)) (y_worker y),
             y_taken := Suc (y_taken y)\<rparr>
      else y)"

definition clientReceives :: "signing_system \<Rightarrow> signing_system" where
  "clientReceives y =
     (if y_delivered y < length (w_out (y_worker y))
      then y\<lparr>y_client := handleWorkerMessage (w_out (y_worker y) ! y_delivered y) (y_client y),
             y_delivered := Suc (y_delivered y)\<rparr>
      else y)"

definition onClient :: "(client \<Rightarrow> client) \<Rightarrow> signing_system \<Rightarrow> signing_system" where
  "onClient g y = y\<lparr>y_client := g (y_client y)\<rparr>"

definition onWorker :: "(worker \<Rightarrow> worker) \<Rightarrow> signing_system \<Rightarrow> signing_system" where
  "onWorker g y = y\<lparr>y_worker := g (y_worker y)\<rparr>"

text \<open>The steps of the life of one worker. A message is sent only when every earlier one has been
  answered; the timeouts of the requests and the inactivity timer of the worker may fire in between.\<close>

inductive ystep :: "signer \<Rightarrow> signing_system \<Rightarrow> signing_system \<Rightarrow> bool" for sg where
  y_send: "length (c_posted (y_client y)) \<le> y_delivered y \<Longrightarrow> 0 < ms \<Longrightarrow>
     ystep sg y (onClient (\<lambda>c. snd (sendToWorker m ms c)) y)"
| y_take: "ystep sg y (workerTakes sg seed y)"
| y_receive: "ystep sg y (clientReceives y)"
| y_timeout: "(i, due) \<in> set (c_timers (y_client y)) \<Longrightarrow> due \<le> c_now (y_client y) \<Longrightarrow>
     ystep sg y (onClient (requestTimedOut i) y)"
| y_fire: "\<not> w_closed (y_worker y) \<Longrightarrow> p \<in> set (w_timers (y_worker y)) \<Longrightarrow> snd p \<le> w_now (y_worker y) \<Longrightarrow>
     ystep sg y (onWorker (fireTimer p) y)"
| y_initialized: "initWithConfigDone r (y_client y) = Inr c' \<Longrightarrow> ystep sg y (y\<lparr>y_client := c'\<rparr>)"
| y_touch: "ystep sg y (onClient touch y)"
| y_tick: "0 \<le> d \<Longrightarrow> ystep sg y (onClient (\<lambda>c. c\<lparr>c_now := c_now c + d\<rparr>) (onWorker (\<lambda>w. w\<lparr>w_now := w_now w + d\<rparr>) y))"

inductive_cases ystepE: "ystep sg y y'"

abbreviation yreach :: "signer \<Rightarrow> signing_system \<Rightarrow> bool" where
  "yreach sg \<equiv> reach (\<lambda>y. y = initial_system) (ystep sg)"

text \<open>The responses that can answer a message.\<close>

fun answers :: "worker_message \<Rightarrow> worker_response \<Rightarrow> bool" where
  "answers m (RError e) = (m \<noteq> MStatus \<and> m \<noteq> MTerminate)"
| "answers m RReady = (case m of MInit p \<Rightarrow> True | _ \<Rightarrow> False)"
| "answers m (RCommitment cm) = (case m of MRound1 v \<Rightarrow> True | _ \<Rightarrow> False)"
| "answers m (RPartialSig ps) = (case m of MRound2 v \<Rightarrow> True | _ \<Rightarrow> False)"
| "answers m RTerminated = (m = MTerminate)"
| "answers m (RStatus a t s) = (m = MStatus)"

text \<open>How a response settles the request it is delivered to.\<close>

definition settledBy :: "worker_response \<Rightarrow> worker_response promise" where
  "settledBy r = (case r of RError e \<Rightarrow> PRejected (EWorkerFailed e) | _ \<Rightarrow> PResolved r)"

lemma handleMessage_answers: "\<exists>r. w_out (handleMessage sg seed m w) = w_out w @ [r] \<and> answers m r"
proof (cases m)
  case (MInit p)
  then show ?thesis
    by (auto simp: handleInit_def Let_def worker_effects split: js_value.split option.split)
next
  case (MRound1 v)
  then show ?thesis
    by (auto simp: handleRound1_def Let_def worker_effects split: js_value.split option.split prod.split sum.split)
next
  case (MRound2 v)
  then show ?thesis
    by (auto simp: handleRound2_def Let_def worker_effects split: js_value.split option.split prod.split sum.split)
qed (simp_all add: handleStatus_def handleTerminate_def Let_def worker_effects)

lemma fireTimer_out:
  "w_out (fireTimer p w) = w_out w @ [RTerminated] \<and> w_closed (fireTimer p w)"
  by (simp add: fireTimer_def handleTerminate_def worker_effects)

lemma settleP_response:
  "settleP (case r of RError e \<Rightarrow> Inl (EWorkerFailed e) | _ \<Rightarrow> Inr r) PPending = settledBy r"
  by (cases r) (simp_all add: settledBy_def)

subsection \<open>Invariant\<close>

definition clientSide :: "client \<Rightarrow> bool" where
  "clientSide c \<longleftrightarrow> clientInv c \<and> c_worker c \<noteq> None \<and> length (c_requests c) = length (c_posted c)"

definition counted :: "signing_system \<Rightarrow> bool" where
  "counted y \<longleftrightarrow> y_taken y \<le> length (c_posted (y_client y)) \<and> y_delivered y \<le> length (w_out (y_worker y)) \<and>
     (length (w_out (y_worker y)) = y_taken y \<or>
      w_closed (y_worker y) \<and> length (w_out (y_worker y)) = Suc (y_taken y) \<and> last (w_out (y_worker y)) = RTerminated)"

definition answered :: "signing_system \<Rightarrow> bool" where
  "answered y \<longleftrightarrow> (\<forall>i<y_taken y. answers (snd (c_posted (y_client y) ! i)) (w_out (y_worker y) ! i))"

definition slotOk :: "signing_system \<Rightarrow> bool" where
  "slotOk y \<longleftrightarrow> (\<forall>i. c_pending (y_client y) = Some i \<longrightarrow> Suc i = length (c_posted (y_client y)) \<and>
     (y_delivered y = i \<or> w_closed (y_worker y) \<and> y_delivered y = length (w_out (y_worker y))))"

definition settledOk :: "signing_system \<Rightarrow> bool" where
  "settledOk y \<longleftrightarrow> (\<forall>i<length (c_requests (y_client y)).
     c_requests (y_client y) ! i \<in> {PPending, PRejected EWorkerTimedOut} \<or>
     i < y_delivered y \<and> c_requests (y_client y) ! i = settledBy (w_out (y_worker y) ! i))"

definition systemInv :: "signing_system \<Rightarrow> bool" where
  "systemInv y \<longleftrightarrow> clientSide (y_client y) \<and> counted y \<and> answered y \<and> slotOk y \<and> settledOk y"

lemmas system_defs = systemInv_def clientSide_def counted_def answered_def slotOk_def settledOk_def

lemma systemInv_initial: "systemInv initial_system"
  using clientInv_initial
  by (simp add: system_defs initial_system_def initial_worker_def newFROSTClient_def spawnWorker_def)

lemma systemInv_send:
  assumes inv: "systemInv y" and idle: "length (c_posted (y_client y)) \<le> y_delivered y"
  shows "systemInv (onClient (\<lambda>c. snd (sendToWorker m ms c)) y)"
proof -
  have "clientInv (snd (sendToWorker m ms (y_client y)))"
    using inv by (intro clientInv_send) (simp add: system_defs)
  moreover obtain h where h: "c_worker (y_client y) = Some h" using inv by (auto simp: system_defs)
  moreover have "y_delivered y = length (c_posted (y_client y)) \<or>
      w_closed (y_worker y) \<and> y_delivered y = length (w_out (y_worker y))"
    using inv idle by (auto simp: systemInv_def counted_def)
  ultimately show ?thesis using inv
    by (simp add: system_defs onClient_def sendToWorker_def Let_def nth_append less_Suc_eq)
qed

lemma systemInv_take: "systemInv y \<Longrightarrow> systemInv (workerTakes sg seed y)"
  using handleMessage_answers [of sg seed "snd (c_posted (y_client y) ! y_taken y)" "y_worker y"]
  by (fastforce simp: workerTakes_def system_defs nth_append less_Suc_eq)

lemma systemInv_fire: "systemInv y \<Longrightarrow> \<not> w_closed (y_worker y) \<Longrightarrow> systemInv (onWorker (fireTimer p) y)"
  using fireTimer_out [of p "y_worker y"]
  by (fastforce simp: onWorker_def system_defs nth_append less_Suc_eq)

lemma systemInv_receive:
  assumes inv: "systemInv y"
  shows "systemInv (clientReceives y)"
proof (cases "y_delivered y < length (w_out (y_worker y))")
  case True
  let ?c = "y_client y" and ?r = "w_out (y_worker y) ! y_delivered y"
  have ci: "clientInv ?c" using inv by (simp add: system_defs)
  then have ci': "clientInv (handleWorkerMessage ?r ?c)" by (rule clientInv_step [OF cstep.c_message])
  show ?thesis
  proof (cases "c_pending ?c")
    case None
    then show ?thesis using inv True
      by (auto simp: clientReceives_def handleWorkerMessage_def system_defs)
  next
    case (Some i)
    then have i: "i < length (c_requests ?c)" "c_requests ?c ! i = PPending" using ci by (auto simp: clientInv_def)
    have d: "y_delivered y = i" using inv Some True by (auto simp: systemInv_def slotOk_def)
    have "handleWorkerMessage ?r ?c =
        ?c\<lparr>c_timers := filter (\<lambda>p. fst p \<noteq> i) (c_timers ?c), c_requests := (c_requests ?c)[i := settledBy ?r], c_pending := None\<rparr>"
      using Some i by (simp add: handleWorkerMessage_def settleRequest_def settleP_response)
    then show ?thesis using inv True ci' d i
      by (auto simp: clientReceives_def system_defs nth_list_update less_Suc_eq)
  qed
next
  case False
  then show ?thesis using inv by (simp add: clientReceives_def)
qed

lemma systemInv_timeout:
  assumes inv: "systemInv y" and t: "(i, due) \<in> set (c_timers (y_client y))" "due \<le> c_now (y_client y)"
  shows "systemInv (onClient (requestTimedOut i) y)"
proof -
  let ?c = "y_client y"
  have ci: "clientInv ?c" using inv by (simp add: system_defs)
  then have ci': "clientInv (requestTimedOut i ?c)" using t by (intro clientInv_step [OF cstep.c_timeout])
  have i: "i < length (c_requests ?c)" "c_requests ?c ! i = PPending"
    using ci t(1) by (force simp: clientInv_def timed_def)+
  then have "requestTimedOut i ?c =
      ?c\<lparr>c_timers := filter (\<lambda>p. fst p \<noteq> i) (c_timers ?c), c_requests := (c_requests ?c)[i := PRejected EWorkerTimedOut],
         c_pending := None\<rparr>"
    by (simp add: requestTimedOut_def settleRequest_def)
  then show ?thesis using inv ci' i(1) by (auto simp: onClient_def system_defs nth_list_update)
qed

lemma systemInv_initialized:
  assumes "systemInv y" and "initWithConfigDone r (y_client y) = Inr c'"
  shows "systemInv (y\<lparr>y_client := c'\<rparr>)"
proof -
  have "clientInv c'" using assms by (auto simp: system_defs intro: clientInv_step [OF cstep.c_initialized])
  then show ?thesis using assms by (auto simp: initWithConfigDone_def system_defs split: if_splits)
qed

lemma systemInv_quiet:
  "systemInv y \<Longrightarrow> systemInv (onClient touch y)"
  "systemInv y \<Longrightarrow> systemInv (onClient (\<lambda>c. c\<lparr>c_now := c_now c + d\<rparr>) (onWorker (\<lambda>w. w\<lparr>w_now := w_now w + d\<rparr>) y))"
  by (auto simp: system_defs onClient_def onWorker_def touch_def clientInv_def timed_def)

lemma systemInv_step: "systemInv y \<Longrightarrow> ystep sg y y' \<Longrightarrow> systemInv y'"
  by (erule ystepE)
    (auto intro: systemInv_send systemInv_take systemInv_receive systemInv_timeout systemInv_fire systemInv_initialized systemInv_quiet)

interpretation signing: invariant_system "\<lambda>y. y = initial_system" "ystep sg" systemInv for sg
  by unfold_locales (auto intro: systemInv_initial systemInv_step)

subsection \<open>A certificate request through client and worker\<close>

text \<open>The events of the flow act on the client of the system; a worker round takes the posted message
  and delivers its response.\<close>

definition flowOn :: "flow_event \<Rightarrow> cert_flow \<times> signing_system \<Rightarrow> cert_flow \<times> signing_system" where
  "flowOn ev fy =
     (case fy of (f, y) \<Rightarrow> let (f', c') = flowStep ev (f, y_client y) in (f', y\<lparr>y_client := c'\<rparr>))"

definition workerRound :: "signer \<Rightarrow> nat \<Rightarrow> cert_flow \<times> signing_system \<Rightarrow> cert_flow \<times> signing_system" where
  "workerRound sg seed fy = (case fy of (f, y) \<Rightarrow> (f, clientReceives (workerTakes sg seed y)))"

text \<open>A server message that makes the flow ask the worker, the worker's answer, and the flow's next
  step; then a request from the opening of its socket to the certificate, with the three messages of
  the server and the randomness of round 1 as its inputs.\<close>

definition workerStage :: "signer \<Rightarrow> nat \<Rightarrow> ws_response \<Rightarrow> cert_flow \<times> signing_system \<Rightarrow> cert_flow \<times> signing_system" where
  "workerStage sg seed msg fy = flowOn FResume (workerRound sg seed (flowOn (FWsMessage (Some msg)) fy))"

definition signingRun ::
  "signer \<Rightarrow> nat \<Rightarrow> ws_response \<Rightarrow> ws_response \<Rightarrow> ws_response \<Rightarrow> cert_flow \<times> signing_system \<Rightarrow> cert_flow \<times> signing_system" where
  "signingRun sg seed session commitment certificate fy =
     flowOn (FWsMessage (Some certificate))
       (workerStage sg 0 commitment (workerStage sg seed session (flowOn FOpen fy)))"

text \<open>Nothing is on its way in either direction, and the client has its worker.\<close>

definition quiet :: "signing_system \<Rightarrow> bool" where
  "quiet y \<longleftrightarrow> y_taken y = length (c_posted (y_client y)) \<and> y_delivered y = length (w_out (y_worker y)) \<and>
     c_worker (y_client y) \<noteq> None"

definition keyBytes :: "worker \<Rightarrow> addr option \<Rightarrow> bytes" where
  "keyBytes w r = hp_buf (w_heap w) (the r)"

lemma exchange_effect:
  assumes q: "quiet y" and op: "\<not> w_closed (y_worker y)"
    and out: "w_out (handleMessage sg seed m (y_worker y)) = w_out (y_worker y) @ [r]"
    and send: "sendToWorker m ms (y_client y) = (i, c1)"
  defines "y2 \<equiv> clientReceives (workerTakes sg seed (y\<lparr>y_client := c1\<rparr>))"
  shows "quiet y2" and "y_worker y2 = handleMessage sg seed m (y_worker y)"
    and "c_requests (y_client y2) ! i = settledBy r"
proof -
  obtain h where h: "c_worker (y_client y) = Some h" using q by (auto simp: quiet_def)
  then have c1: "i = length (c_requests (y_client y))" "c_posted c1 = c_posted (y_client y) @ [(h, m)]"
      "c_pending c1 = Some i" "c_requests c1 = c_requests (y_client y) @ [PPending]" "c_worker c1 = Some h"
    using send by (auto simp: sendToWorker_def Let_def)
  have take: "workerTakes sg seed (y\<lparr>y_client := c1\<rparr>) =
      y\<lparr>y_client := c1, y_worker := handleMessage sg seed m (y_worker y), y_taken := Suc (y_taken y)\<rparr>"
    using q op c1(2) by (simp add: workerTakes_def quiet_def)
  show "quiet y2" and "y_worker y2 = handleMessage sg seed m (y_worker y)"
    and "c_requests (y_client y2) ! i = settledBy r"
    unfolding y2_def take clientReceives_def using q out c1
    by (auto simp: quiet_def handleWorkerMessage_def settleRequest_def settleP_response simp del: handleMessage.simps)
qed

lemma encodeC_eq: "\<exists>a. encodeBase64 data = Inr a \<and> encodeC data = Inr a"
  using base64.enc_total [of data] by (auto simp: encodeC_def)

text \<open>What the flow does with the worker's response, in either of the two stages.\<close>

definition afterAnswer :: "flow_stage \<Rightarrow> worker_response \<Rightarrow> cert_flow \<Rightarrow> cert_flow" where
  "afterAnswer st r f =
     (case r of
        RError e \<Rightarrow> finishFlow (Inl (EWorkerFailed e)) f
      | _ \<Rightarrow>
          (case st of
             FAwaitRound1 s i \<Rightarrow>
               (case r of RCommitment cm \<Rightarrow> sendWs (SendRound1 s (projr (encodeBase64 cm))) (FAwaitCommitment s) f
                | _ \<Rightarrow> finishFlow (Inl EWorkerCommitment) f)
           | FAwaitRound2 s i \<Rightarrow>
               (case r of RPartialSig ps \<Rightarrow> sendWs (SendRound2 s (projr (encodeBase64 ps))) (FAwaitCertificate s) f
                | _ \<Rightarrow> finishFlow (Inl EWorkerPartialSig) f)
           | _ \<Rightarrow> f))"

lemma finishFlow_stage [simp]: "finishFlow r (f\<lparr>f_stage := st\<rparr>) = finishFlow r f"
  by (simp add: finishFlow_def settleFlow_def)

lemma sendWs_stage [simp]: "sendWs q st' (f\<lparr>f_stage := st\<rparr>) = sendWs q st' f"
  by (simp add: sendWs_def)

lemma resume_round1:
  assumes "c_requests c ! i = settledBy r"
  shows "fst (flowResume (f\<lparr>f_stage := FAwaitRound1 s i\<rparr>, c)) = afterAnswer (FAwaitRound1 s i) r f \<and>
    snd (flowResume (f\<lparr>f_stage := FAwaitRound1 s i\<rparr>, c)) \<in> {c, touch c}"
proof (cases r)
  case (RCommitment cm)
  obtain a where "encodeBase64 cm = Inr a" "encodeC cm = Inr a" using encodeC_eq by blast
  then show ?thesis using assms RCommitment by (simp add: flowResume_def settledBy_def afterAnswer_def)
qed (use assms in \<open>simp_all add: flowResume_def settledBy_def afterAnswer_def\<close>)

lemma resume_round2:
  assumes "c_requests c ! i = settledBy r"
  shows "fst (flowResume (f\<lparr>f_stage := FAwaitRound2 s i\<rparr>, c)) = afterAnswer (FAwaitRound2 s i) r f \<and>
    snd (flowResume (f\<lparr>f_stage := FAwaitRound2 s i\<rparr>, c)) \<in> {c, touch c}"
proof (cases r)
  case (RPartialSig ps)
  obtain a where "encodeBase64 ps = Inr a" "encodeC ps = Inr a" using encodeC_eq by blast
  then show ?thesis using assms RPartialSig by (simp add: flowResume_def settledBy_def afterAnswer_def)
qed (use assms in \<open>simp_all add: flowResume_def settledBy_def afterAnswer_def\<close>)

lemma resume_answer:
  assumes "c_requests c ! i = settledBy r" and "st = FAwaitRound1 s i \<or> st = FAwaitRound2 s i"
  obtains c' where "flowStep FResume (f\<lparr>f_stage := st\<rparr>, c) = (afterAnswer st r f, c')" and "c' = c \<or> c' = touch c"
  using assms(2) resume_round1 [OF assms(1), of s f] resume_round2 [OF assms(1), of s f]
  by (cases "flowResume (f\<lparr>f_stage := st\<rparr>, c)") fastforce

lemma quiet_resumed: "quiet y \<Longrightarrow> c' = y_client y \<or> c' = touch (y_client y) \<Longrightarrow> quiet (y\<lparr>y_client := c'\<rparr>)"
  by (auto simp: quiet_def touch_def)

lemma stage_effect:
  assumes q: "quiet y" and op: "\<not> w_closed (y_worker y)"
    and msg: "flowStep (FWsMessage (Some d)) (f, y_client y) = (f\<lparr>f_stage := st\<rparr>, c1)"
    and send: "sendToWorker m 30000 (y_client y) = (i, c1)" and st: "st = FAwaitRound1 s i \<or> st = FAwaitRound2 s i"
    and out: "w_out (handleMessage sg seed m (y_worker y)) = w_out (y_worker y) @ [r]"
  obtains y1 where "workerStage sg seed d (f, y) = (afterAnswer st r f, y1)" and "quiet y1"
    and "y_worker y1 = handleMessage sg seed m (y_worker y)"
proof -
  let ?y2 = "clientReceives (workerTakes sg seed (y\<lparr>y_client := c1\<rparr>))"
  note ex = exchange_effect [OF q op out send]
  obtain c' where r: "flowStep FResume (f\<lparr>f_stage := st\<rparr>, y_client ?y2) = (afterAnswer st r f, c')"
      and c': "c' = y_client ?y2 \<or> c' = touch (y_client ?y2)"
    using resume_answer [OF ex(3) st] .
  have "workerStage sg seed d (f, y) = (afterAnswer st r f, ?y2\<lparr>y_client := c'\<rparr>)"
    unfolding workerStage_def flowOn_def workerRound_def by (simp add: msg r del: flowStep.simps)
  then show thesis using that ex(2) quiet_resumed [OF ex(1) c'] by simp
qed

lemma stage_session:
  assumes "quiet y" and "\<not> w_closed (y_worker y)" and "f_stage f = FAwaitSession"
    and "wr_type d = js ''session''" and "decodePayload (wr_payload d) = Inr tbs"
    and "w_out (handleMessage sg seed (MRound1 (JsU8 tbs)) (y_worker y)) = w_out (y_worker y) @ [r]"
  obtains i y1 where "workerStage sg seed d (f, y) = (afterAnswer (FAwaitRound1 (wr_session d) i) r f, y1)"
    and "quiet y1" and "y_worker y1 = handleMessage sg seed (MRound1 (JsU8 tbs)) (y_worker y)"
proof -
  obtain i c1 where send: "sendToWorker (MRound1 (JsU8 tbs)) 30000 (y_client y) = (i, c1)" by (meson surj_pair)
  have "js ''session'' \<noteq> js ''error''" by code_simp
  then have "flowStep (FWsMessage (Some d)) (f, y_client y) = (f\<lparr>f_stage := FAwaitRound1 (wr_session d) i\<rparr>, c1)"
    using assms(3-5) send by (simp add: flowMessage_def receiveWS_def onSession_def enterStage_def)
  then show thesis using stage_effect [OF assms(1,2) _ send _ assms(6)] that by blast
qed

lemma stage_commitment:
  assumes "quiet y" and "\<not> w_closed (y_worker y)" and "f_stage f = FAwaitCommitment s"
    and "wr_type d = js ''commitment''" and "decodePayload (wr_payload d) = Inr scm"
    and "w_out (handleMessage sg seed (MRound2 (JsU8 scm)) (y_worker y)) = w_out (y_worker y) @ [r]"
  obtains i y1 where "workerStage sg seed d (f, y) = (afterAnswer (FAwaitRound2 s i) r f, y1)"
    and "quiet y1" and "y_worker y1 = handleMessage sg seed (MRound2 (JsU8 scm)) (y_worker y)"
proof -
  obtain i c1 where send: "sendToWorker (MRound2 (JsU8 scm)) 30000 (y_client y) = (i, c1)" by (meson surj_pair)
  have "js ''commitment'' \<noteq> js ''error''" by code_simp
  then have "flowStep (FWsMessage (Some d)) (f, y_client y) = (f\<lparr>f_stage := FAwaitRound2 s i\<rparr>, c1)"
    using assms(3-5) send by (simp add: flowMessage_def receiveWS_def onCommitment_def enterStage_def)
  then show thesis using stage_effect [OF assms(1,2) _ send _ assms(6)] that by blast
qed

lemma stage_finished:
  "f_stage f = FFinished \<Longrightarrow> quiet y \<Longrightarrow> workerStage sg seed d (f, y) = (f, y)"
  "f_stage f = FFinished \<Longrightarrow> flowOn (FWsMessage m) (f, y) = (f, y)"
  by (simp_all add: workerStage_def flowOn_def workerRound_def flowMessage_def flowResume_def workerTakes_def
      clientReceives_def quiet_def)

text \<open>The keys of an unlocked worker as the signing code reads them.\<close>

definition signsRound1 :: "noble \<Rightarrow> nat \<Rightarrow> bytes \<Rightarrow> worker \<Rightarrow> (frost_error + bytes \<times> signing_state) \<times> heap" where
  "signsRound1 nb seed tbs w = clientRound1 nb seed (keyBytes w (w_share w)) (keyBytes w (w_serverVerifyingShare w))
     (keyBytes w (w_clientVerifyingShare w)) (keyBytes w (w_groupPublicKey w)) tbs (w_heap w)"

definition signsRound2 :: "noble \<Rightarrow> signing_state \<Rightarrow> bytes \<Rightarrow> worker \<Rightarrow> heap \<Rightarrow> (frost_error + bytes) \<times> heap" where
  "signsRound2 nb st scm w h = clientRound2 nb (keyBytes w (w_share w)) (keyBytes w (w_serverVerifyingShare w))
     (keyBytes w (w_clientVerifyingShare w)) (keyBytes w (w_groupPublicKey w)) st scm h"

lemma unlocked_keys:
  assumes "workerInv w" and "w_share w \<noteq> None"
  obtains a b c d where "w_share w = Some a" "w_groupPublicKey w = Some b" "w_serverVerifyingShare w = Some c"
    "w_clientVerifyingShare w = Some d"
  using assms by (auto simp: workerInv_def unlockedOk_def keyRefs_def)

lemma keyRefs_reset [simp]: "keyRefs (resetInactivityTimer w) = keyRefs w"
  by (simp add: keyRefs_def resetInactivityTimer_eq)

lemma round1_result:
  assumes "workerInv w" and "w_share w \<noteq> None" and "signsRound1 nb seed tbs w = (res, h1)"
  defines "w1 \<equiv> handleMessage (frostSigner nb) seed (MRound1 (JsU8 tbs)) w"
  shows "w_out w1 = w_out w @ [case res of Inl e \<Rightarrow> RError (ESigner e) | Inr p \<Rightarrow> RCommitment (fst p)]"
    and "w_heap w1 = h1" and "keyRefs w1 = keyRefs w" and "w_closed w1 = w_closed w"
    and "res = Inr (cm, st) \<Longrightarrow> w_signingState w1 = Some st"
proof -
  obtain a b c d where "w_share w = Some a" "w_groupPublicKey w = Some b" "w_serverVerifyingShare w = Some c"
      "w_clientVerifyingShare w = Some d"
    using unlocked_keys [OF assms(1,2)] .
  then have w1: "w1 = (case res of Inl e \<Rightarrow> postError (ESigner e) ((resetInactivityTimer w)\<lparr>w_heap := h1\<rparr>)
      | Inr (cm, st) \<Rightarrow> postResponse (RCommitment cm) ((resetInactivityTimer w)\<lparr>w_heap := h1, w_signingState := Some st,
          w_session := Some \<lparr>si_sessionId = [], si_round = Round1, si_commitment = Some cm, si_partialSignature = None\<rparr>\<rparr>))"
    using assms(3) unfolding w1_def
    by (simp add: handleRound1_def signsRound1_def keyBytes_def frostSigner_def Let_def split: sum.split prod.split)
  show "w_out w1 = w_out w @ [case res of Inl e \<Rightarrow> RError (ESigner e) | Inr p \<Rightarrow> RCommitment (fst p)]"
    and "w_heap w1 = h1" and "keyRefs w1 = keyRefs w" and "w_closed w1 = w_closed w"
    and "res = Inr (cm, st) \<Longrightarrow> w_signingState w1 = Some st"
    unfolding w1 by (auto simp: postError_def postResponse_def keyRefs_def resetInactivityTimer_eq split: sum.split prod.split)
qed

lemma round2_result:
  fixes seed :: nat
  assumes "workerInv w" and "w_share w \<noteq> None" and "w_signingState w = Some st" and "signsRound2 nb st scm w (w_heap w) = (res, h2)"
  defines "w2 \<equiv> handleMessage (frostSigner nb) seed (MRound2 (JsU8 scm)) w"
  shows "w_out w2 = w_out w @ [case res of Inl e \<Rightarrow> RError (ESigner e) | Inr ps \<Rightarrow> RPartialSig ps]"
    and "w_heap w2 = h2" and "w_signingState w2 = None"
proof -
  obtain a b c d where "w_share w = Some a" "w_groupPublicKey w = Some b" "w_serverVerifyingShare w = Some c"
      "w_clientVerifyingShare w = Some d"
    using unlocked_keys [OF assms(1,2)] .
  then show "w_out w2 = w_out w @ [case res of Inl e \<Rightarrow> RError (ESigner e) | Inr ps \<Rightarrow> RPartialSig ps]"
    and "w_heap w2 = h2" and "w_signingState w2 = None"
    using assms(3,4) unfolding w2_def
    by (simp_all add: handleRound2_def signsRound2_def keyBytes_def frostSigner_def Let_def postError_def postResponse_def
        split: sum.split)
qed

lemma keyBytes_kept:
  assumes "workerInv w" and "grows {} (w_heap w) (w_heap w1)" and "keyRefs w1 = keyRefs w" and "w_share w \<noteq> None"
  shows "signsRound2 nb st scm w1 h = signsRound2 nb st scm w h"
proof -
  have "keyBytes w1 (Some a) = keyBytes w (Some a)" if "a \<in> keyAddrs w" for a
    using that assms(1,2) by (auto simp: keyBytes_def workerInv_def heldAddrs_def grows_def)
  moreover obtain a b c d where "w_share w = Some a" "w_groupPublicKey w = Some b" "w_serverVerifyingShare w = Some c"
      "w_clientVerifyingShare w = Some d"
    using unlocked_keys [OF assms(1,4)] .
  ultimately show ?thesis using assms(3) by (simp add: signsRound2_def keyRefs_def keyAddrs_def)
qed

lemma certificate_stage:
  assumes "f_stage f = FAwaitCertificate s" and "f_outcome f = PPending"
    and "wr_type d = js ''certificate''" and "wr_payload d = Some cert" and "decodeBase64 cert = Inr bytes"
  shows "flowOn (FWsMessage (Some d)) (f, y) =
    (f\<lparr>f_stage := FFinished, f_wsClosed := True,
       f_outcome := PResolved \<lparr>cr_certificate = cert, cr_serial = (case wr_serial d of Some n \<Rightarrow> n | None \<Rightarrow> 0),
         cr_userPrivateKey = f_privateKey f, cr_userPublicKey = f_publicKey f\<rparr>\<rparr>, y)"
proof -
  have "js ''certificate'' \<noteq> js ''error''" by code_simp
  then show ?thesis using assms
    by (simp add: flowOn_def flowMessage_def receiveWS_def onCertificate_def decodePayload_def decodeC_def finishFlow_def settleFlow_def)
qed

lemma run_round1:
  assumes w: "workerInv (y_worker y)" "w_share (y_worker y) \<noteq> None" "\<not> w_closed (y_worker y)" and q: "quiet y"
    and s: "wr_type s = js ''session''" "decodePayload (wr_payload s) = Inr tbs"
    and res: "signsRound1 nb seed tbs (y_worker y) = (res, h1)"
  obtains k i y1 where "encodeBase64 pk = Inr k"
    and "workerStage (frostSigner nb) seed s (flowOn FOpen (newFlow hostId sk pk, y)) =
      (afterAnswer (FAwaitRound1 (wr_session s) i)
         (case res of Inl e \<Rightarrow> RError (ESigner e) | Inr p \<Rightarrow> RCommitment (fst p))
         (sendWs (RequestCert hostId k) FAwaitSession (newFlow hostId sk pk)), y1)"
    and "quiet y1" and "y_worker y1 = handleMessage (frostSigner nb) seed (MRound1 (JsU8 tbs)) (y_worker y)"
proof -
  obtain k where k: "encodeBase64 pk = Inr k" "encodeC pk = Inr k" using encodeC_eq by blast
  let ?f = "sendWs (RequestCert hostId k) FAwaitSession (newFlow hostId sk pk)"
  have o: "flowOn FOpen (newFlow hostId sk pk, y) = (?f, y)"
    using k by (simp add: flowOn_def newFlow_def)
  have "f_stage ?f = FAwaitSession" by (simp add: sendWs_def)
  from stage_session [OF q w(3) this s round1_result(1) [OF w(1,2) res]] obtain i y1 where
    "workerStage (frostSigner nb) seed s (?f, y) = (afterAnswer (FAwaitRound1 (wr_session s) i)
         (case res of Inl e \<Rightarrow> RError (ESigner e) | Inr p \<Rightarrow> RCommitment (fst p)) ?f, y1)"
    "quiet y1" "y_worker y1 = handleMessage (frostSigner nb) seed (MRound1 (JsU8 tbs)) (y_worker y)"
    by metis
  then show thesis using that k(1) o by simp
qed

text \<open>The second half, from the worker that answered round 1.\<close>

lemma run_round2:
  assumes w: "workerInv w" "w_share w \<noteq> None" "\<not> w_closed w" and r1: "signsRound1 nb seed tbs w = (Inr (cm, st), h1)"
    and w1: "w1 = handleMessage (frostSigner nb) seed (MRound1 (JsU8 tbs)) w" "workerInv w1"
    and y1: "quiet y1" "y_worker y1 = w1"
    and f: "f_stage f = FAwaitCommitment sn"
    and k: "wr_type k = js ''commitment''" "decodePayload (wr_payload k) = Inr scm"
    and r2: "signsRound2 nb st scm w h1 = (res, h2)"
  obtains i y2 where "workerStage (frostSigner nb) 0 k (f, y1) =
      (afterAnswer (FAwaitRound2 sn i) (case res of Inl e \<Rightarrow> RError (ESigner e) | Inr ps \<Rightarrow> RPartialSig ps) f, y2)"
    and "quiet y2" and "w_heap (y_worker y2) = h2" and "w_signingState (y_worker y2) = None"
proof -
  note e1 = round1_result [OF w(1,2) r1, folded w1(1)]
  have g: "grows {} (w_heap w) (w_heap w1)"
    using r1 e1(2) by (auto simp: signsRound1_def intro: clientRound1_grows)
  have "signsRound2 nb st scm w1 (w_heap w1) = (res, h2)"
    using r2 keyBytes_kept [OF w(1) g e1(3) w(2)] e1(2) by simp
  moreover have "w_share w1 \<noteq> None" using e1(3) w(2) by (simp add: keyRefs_def)
  ultimately have e2:
    "w_out (handleMessage (frostSigner nb) 0 (MRound2 (JsU8 scm)) w1) =
       w_out w1 @ [case res of Inl e \<Rightarrow> RError (ESigner e) | Inr ps \<Rightarrow> RPartialSig ps]"
    "w_heap (handleMessage (frostSigner nb) 0 (MRound2 (JsU8 scm)) w1) = h2"
    "w_signingState (handleMessage (frostSigner nb) 0 (MRound2 (JsU8 scm)) w1) = None"
    using round2_result [OF w1(2)] e1(5) by blast+
  have "\<not> w_closed (y_worker y1)" using e1(4) w(3) y1(2) by simp
  from stage_commitment [OF y1(1) this f k e2(1) [folded y1(2)]] e2(2,3) y1(2) that show thesis by metis
qed

lemma ystep_worker: "ystep sg y y' \<Longrightarrow> y_worker y' = y_worker y \<or> wstep sg (y_worker y) (y_worker y')"
proof (elim ystepE)
  fix seed
  assume "y' = workerTakes sg seed y"
  then show ?thesis by (auto simp: workerTakes_def intro: wstep.receive simp del: handleMessage.simps)
qed (auto simp: onClient_def onWorker_def clientReceives_def intro: wstep.fire wstep.tick)

lemma yreach_worker: "yreach sg y \<Longrightarrow> wreach sg (y_worker y)"
proof (induction rule: reach.induct)
  case (reach_init y)
  then show ?case by (auto simp: initial_system_def intro: reach.reach_init)
next
  case (reach_step y y')
  then show ?case using ystep_worker [OF reach_step.hyps(2)] by (auto intro: reach.reach_step)
qed

lemma yreach_unlocked:
  assumes "yreach (frostSigner nb) y" and "w_share (y_worker y) \<noteq> None"
  shows "workerInv (y_worker y)" and "\<not> w_closed (y_worker y)"
    and "workerInv (handleMessage (frostSigner nb) seed m (y_worker y))"
proof -
  have r: "wreach (frostSigner nb) (y_worker y)" using assms(1) by (rule yreach_worker)
  then show i: "workerInv (y_worker y)" using frost_rounds.worker.reachable_inv by (auto simp: workerOk_def)
  show op: "\<not> w_closed (y_worker y)" using i assms(2) by (auto simp: workerInv_def)
  show "workerInv (handleMessage (frostSigner nb) seed m (y_worker y))"
    using frost_rounds.worker.reachable_inv [OF wreach_message [OF r op]] by (simp add: workerOk_def)
qed

lemma afterAnswer_error:
  "f_outcome f = PPending \<Longrightarrow> afterAnswer st (RError e) f =
     f\<lparr>f_stage := FFinished, f_wsClosed := True, f_outcome := PRejected (EWorkerFailed e)\<rparr>"
  by (simp add: afterAnswer_def finishFlow_def settleFlow_def)

lemma afterAnswer_commitment:
  "encodeBase64 cm = Inr b \<Longrightarrow> afterAnswer (FAwaitRound1 s i) (RCommitment cm) f = sendWs (SendRound1 s b) (FAwaitCommitment s) f"
  by (simp add: afterAnswer_def)

lemma afterAnswer_partialSig:
  "encodeBase64 ps = Inr b \<Longrightarrow> afterAnswer (FAwaitRound2 s i) (RPartialSig ps) f = sendWs (SendRound2 s b) (FAwaitCertificate s) f"
  by (simp add: afterAnswer_def)

text \<open>The first round fails: the request is rejected with the worker's error, and nothing of a
  signature was sent.\<close>

lemma run_fails_round1:
  assumes y: "yreach (frostSigner nb) y" "quiet y" "w_share (y_worker y) \<noteq> None"
    and s: "wr_type s = js ''session''" "decodePayload (wr_payload s) = Inr tbs"
    and r1: "signsRound1 nb seed tbs (y_worker y) = (Inl e, h1)"
    and run: "signingRun (frostSigner nb) seed s k d (newFlow hostId sk pk, y) = (f', y')"
  shows "f_outcome f' = PRejected (EWorkerFailed (ESigner e)) \<and> length (f_sent f') = 1"
proof -
  let ?f = "\<lambda>a. sendWs (RequestCert hostId a) FAwaitSession (newFlow hostId sk pk)"
  note w = yreach_unlocked [OF y(1,3)]
  obtain a i y1 where "encodeBase64 pk = Inr a"
    and st: "workerStage (frostSigner nb) seed s (flowOn FOpen (newFlow hostId sk pk, y)) =
      (afterAnswer (FAwaitRound1 (wr_session s) i) (RError (ESigner e)) (?f a), y1)"
    and y1: "quiet y1" "y_worker y1 = handleMessage (frostSigner nb) seed (MRound1 (JsU8 tbs)) (y_worker y)"
    using run_round1 [OF w(1) y(3) w(2) y(2) s r1, of pk hostId sk, unfolded sum.case] .
  then show ?thesis using run stage_finished(1) [OF _ y1(1)]
    by (auto simp: afterAnswer_error stage_finished(2) signingRun_def sendWs_def newFlow_def)
qed

text \<open>The first round succeeds: what the second one starts from.\<close>

lemma run_reaches_round2:
  assumes y: "yreach (frostSigner nb) y" "quiet y" "w_share (y_worker y) \<noteq> None"
    and s: "wr_type s = js ''session''" "decodePayload (wr_payload s) = Inr tbs"
    and k: "wr_type k = js ''commitment''" "decodePayload (wr_payload k) = Inr scm"
    and r1: "signsRound1 nb seed tbs (y_worker y) = (Inr (cm, st), h1)"
    and r2: "signsRound2 nb st scm (y_worker y) h1 = (res, h2)"
  obtains a b i f y2 where "encodeBase64 pk = Inr a" and "encodeBase64 cm = Inr b"
    and "f = newFlow hostId sk pk\<lparr>f_sent := [RequestCert hostId a, SendRound1 (wr_session s) b],
      f_stage := FAwaitCommitment (wr_session s)\<rparr>"
    and "workerStage (frostSigner nb) 0 k (workerStage (frostSigner nb) seed s (flowOn FOpen (newFlow hostId sk pk, y))) =
      (afterAnswer (FAwaitRound2 (wr_session s) i)
         (case res of Inl e \<Rightarrow> RError (ESigner e) | Inr ps \<Rightarrow> RPartialSig ps) f, y2)"
    and "quiet y2" and "w_heap (y_worker y2) = h2" and "w_signingState (y_worker y2) = None"
proof -
  note w = yreach_unlocked [OF y(1,3)]
  obtain b where b: "encodeBase64 cm = Inr b" using encodeC_eq by blast
  obtain a i y1 where a: "encodeBase64 pk = Inr a"
    and st: "workerStage (frostSigner nb) seed s (flowOn FOpen (newFlow hostId sk pk, y)) =
      (afterAnswer (FAwaitRound1 (wr_session s) i) (RCommitment cm)
        (sendWs (RequestCert hostId a) FAwaitSession (newFlow hostId sk pk)), y1)"
    and y1: "quiet y1" "y_worker y1 = handleMessage (frostSigner nb) seed (MRound1 (JsU8 tbs)) (y_worker y)"
    using run_round1 [OF w(1) y(3) w(2) y(2) s r1, of pk hostId sk, unfolded sum.case fst_conv] .
  define f where "f = newFlow hostId sk pk\<lparr>f_sent := [RequestCert hostId a, SendRound1 (wr_session s) b],
      f_stage := FAwaitCommitment (wr_session s)\<rparr>"
  have f: "sendWs (SendRound1 (wr_session s) b) (FAwaitCommitment (wr_session s))
      (sendWs (RequestCert hostId a) FAwaitSession (newFlow hostId sk pk)) = f"
    by (simp add: f_def sendWs_def newFlow_def)
  have "f_stage f = FAwaitCommitment (wr_session s)" by (simp add: f_def)
  from run_round2 [OF w(1) y(3) w(2) r1 refl w(3) y1 this k r2] that [OF a b f_def] show thesis
    unfolding st afterAnswer_commitment [OF b] f by metis
qed

lemma run_from_round2:
  assumes y: "yreach (frostSigner nb) y" "quiet y" "w_share (y_worker y) \<noteq> None"
    and s: "wr_type s = js ''session''" "decodePayload (wr_payload s) = Inr tbs"
    and k: "wr_type k = js ''commitment''" "decodePayload (wr_payload k) = Inr scm"
    and d: "wr_type d = js ''certificate''" "wr_payload d = Some cert" "decodeBase64 cert = Inr cb"
    and run: "signingRun (frostSigner nb) seed s k d (newFlow hostId sk pk, y) = (f', y')"
    and r1: "signsRound1 nb seed tbs (y_worker y) = (Inr (cm, st), h1)"
    and r2: "signsRound2 nb st scm (y_worker y) h1 = (res, h2)"
  shows "w_signingState (y_worker y') = None \<and>
    (case res of
       Inl e \<Rightarrow> f_outcome f' = PRejected (EWorkerFailed (ESigner e)) \<and> length (f_sent f') = 2
     | Inr ps \<Rightarrow>
         f_outcome f' = PResolved \<lparr>cr_certificate = cert, cr_serial = (case wr_serial d of Some n \<Rightarrow> n | None \<Rightarrow> 0),
           cr_userPrivateKey = sk, cr_userPublicKey = pk\<rparr> \<and>
         (\<exists>a b c. encodeBase64 pk = Inr a \<and> encodeBase64 cm = Inr b \<and> encodeBase64 ps = Inr c \<and>
            f_sent f' = [RequestCert hostId a, SendRound1 (wr_session s) b, SendRound2 (wr_session s) c]) \<and>
         isZero (w_heap (y_worker y')) (fn_hiding (sg_nonces st)) \<and>
         isZero (w_heap (y_worker y')) (fn_binding (sg_nonces st)))"
proof -
  obtain a b i f y2 where ab: "encodeBase64 pk = Inr a" "encodeBase64 cm = Inr b"
    and f: "f = newFlow hostId sk pk\<lparr>f_sent := [RequestCert hostId a, SendRound1 (wr_session s) b],
      f_stage := FAwaitCommitment (wr_session s)\<rparr>"
    and st: "workerStage (frostSigner nb) 0 k (workerStage (frostSigner nb) seed s (flowOn FOpen (newFlow hostId sk pk, y))) =
      (afterAnswer (FAwaitRound2 (wr_session s) i)
         (case res of Inl e \<Rightarrow> RError (ESigner e) | Inr ps \<Rightarrow> RPartialSig ps) f, y2)"
    and y2: "quiet y2" "w_heap (y_worker y2) = h2" "w_signingState (y_worker y2) = None"
    using run_reaches_round2 [OF y s k r1 r2, of pk hostId sk] .
  have run': "flowOn (FWsMessage (Some d)) (afterAnswer (FAwaitRound2 (wr_session s) i)
      (case res of Inl e \<Rightarrow> RError (ESigner e) | Inr ps \<Rightarrow> RPartialSig ps) f, y2) = (f', y')"
    using run unfolding signingRun_def st .
  show ?thesis
  proof (cases res)
    case (Inl e)
    then show ?thesis using run' y2(3) by (auto simp: afterAnswer_error stage_finished(2) f newFlow_def)
  next
    case (Inr ps)
    obtain c where c: "encodeBase64 ps = Inr c" using encodeC_eq by blast
    have z: "isZero h2 (fn_hiding (sg_nonces st))" "isZero h2 (fn_binding (sg_nonces st))"
      using r2 Inr by (auto simp: signsRound2_def nonceAddrs_def intro!: clientRound2_zeroes)
    have "flowOn (FWsMessage (Some d)) (sendWs (SendRound2 (wr_session s) c) (FAwaitCertificate (wr_session s)) f, y2) = (f', y')"
      using run' by (simp add: Inr afterAnswer_partialSig [OF c])
    then show ?thesis using Inr ab c y2 z d by (auto simp: certificate_stage sendWs_def f newFlow_def)
  qed
qed

lemma delivered_origin:
  assumes "counted y" and "i < y_delivered y"
  shows "i < y_taken y \<or> w_closed (y_worker y) \<and> w_out (y_worker y) ! i = RTerminated"
proof (cases "i < y_taken y")
  case False
  then have l: "length (w_out (y_worker y)) = Suc (y_taken y)" "w_closed (y_worker y)"
      "last (w_out (y_worker y)) = RTerminated" "i = y_taken y"
    using assms by (auto simp: counted_def)
  then have "w_out (y_worker y) \<noteq> []" by force
  then show ?thesis using l last_conv_nth [of "w_out (y_worker y)"] by simp
qed simp

subsection \<open>Concrete system\<close>

definition toy_system :: signing_system where
  "toy_system = clientReceives (workerTakes (frostSigner toy_noble) 0
     (onClient (\<lambda>c. snd (sendToWorker (MInit toy_init) 30000 c)) initial_system))"

definition toy_msg :: "string \<Rightarrow> bytes \<Rightarrow> ws_response" where
  "toy_msg t p = \<lparr>wr_type = js t, wr_session = Some (js ''s1''), wr_payload = Some (projr (encodeBase64 p)),
     wr_serial = Some 12, wr_error = None\<rparr>"

lemma toy_system_reach: "yreach (frostSigner toy_noble) toy_system"
proof -
  let ?y1 = "onClient (\<lambda>c. snd (sendToWorker (MInit toy_init) 30000 c)) initial_system"
  have "yreach (frostSigner toy_noble) initial_system" by (rule reach_init) simp
  then have "yreach (frostSigner toy_noble) ?y1"
    by (rule reach_step) (rule ystep.y_send, simp_all add: initial_system_def newFROSTClient_def spawnWorker_def)
  then have "yreach (frostSigner toy_noble) (workerTakes (frostSigner toy_noble) 0 ?y1)"
    by (rule reach_step) (rule ystep.y_take)
  then show ?thesis unfolding toy_system_def by (rule reach_step) (rule ystep.y_receive)
qed

lemma toy_system_quiet: "quiet toy_system" "w_share (y_worker toy_system) \<noteq> None"
  by code_simp+

subsection \<open>Properties\<close>



text \<open>C11: a certificate request through client, worker and signing code. For a client and an unlocked
  worker with nothing on its way between them, and a server that answers with a session, a commitment
  and a certificate, the request ends as the two rounds of signing say. If both return, the client has
  sent its public key, the encoded commitment and the encoded partial signature, over the bytes and the
  commitment that the server sent and with the keys the worker was unlocked with, it resolves with the
  server's certificate and its own key pair, and both nonces are erased. If a round fails, the request
  is rejected with its error before anything of that round is sent. A signing state never stays behind
  a finished second round.\<close>

theorem certificate_signing_run:
  assumes y: "yreach (frostSigner nb) y" "quiet y" "w_share (y_worker y) \<noteq> None"
    and s: "wr_type s = js ''session''" "decodePayload (wr_payload s) = Inr tbs"
    and k: "wr_type k = js ''commitment''" "decodePayload (wr_payload k) = Inr scm"
    and d: "wr_type d = js ''certificate''" "wr_payload d = Some cert" "decodeBase64 cert = Inr cb"
    and run: "signingRun (frostSigner nb) seed s k d (newFlow hostId sk pk, y) = (f', y')"
  shows "case signsRound1 nb seed tbs (y_worker y) of
      (Inl e, h1) \<Rightarrow> f_outcome f' = PRejected (EWorkerFailed (ESigner e)) \<and> length (f_sent f') = 1
    | (Inr (cm, st), h1) \<Rightarrow> w_signingState (y_worker y') = None \<and>
        (case signsRound2 nb st scm (y_worker y) h1 of
           (Inl e, h2) \<Rightarrow> f_outcome f' = PRejected (EWorkerFailed (ESigner e)) \<and> length (f_sent f') = 2
         | (Inr ps, h2) \<Rightarrow>
             f_outcome f' = PResolved \<lparr>cr_certificate = cert, cr_serial = (case wr_serial d of Some n \<Rightarrow> n | None \<Rightarrow> 0),
               cr_userPrivateKey = sk, cr_userPublicKey = pk\<rparr> \<and>
             (\<exists>a b c. encodeBase64 pk = Inr a \<and> encodeBase64 cm = Inr b \<and> encodeBase64 ps = Inr c \<and>
                f_sent f' = [RequestCert hostId a, SendRound1 (wr_session s) b, SendRound2 (wr_session s) c]) \<and>
             isZero (w_heap (y_worker y')) (fn_hiding (sg_nonces st)) \<and>
             isZero (w_heap (y_worker y')) (fn_binding (sg_nonces st)))"
proof (cases "signsRound1 nb seed tbs (y_worker y)")
  case (Pair res1 h1)
  show ?thesis
  proof (cases res1)
    case (Inl e)
    then show ?thesis using run_fails_round1 [OF y s _ run] Pair by simp
  next
    case (Inr p)
    then obtain cm st where r1: "signsRound1 nb seed tbs (y_worker y) = (Inr (cm, st), h1)"
      using Pair by (cases p) simp
    obtain res2 h2 where r2: "signsRound2 nb st scm (y_worker y) h1 = (res2, h2)" by (meson surj_pair)
    show ?thesis using run_from_round2 [OF y s k d run r1 r2] by (simp add: r1 r2)
  qed
qed

theorem certificate_signing_run_witness:
  "let (f', y') = signingRun (frostSigner toy_noble) 9 (toy_msg ''session'' [1]) (toy_msg ''commitment'' toy_server_commitment)
       (toy_msg ''certificate'' [9]) (newFlow 7 [1] [2], toy_system)
   in f_outcome f' = PResolved \<lparr>cr_certificate = js ''CQ=='', cr_serial = 12, cr_userPrivateKey = [1], cr_userPublicKey = [2]\<rparr> \<and>
      length (f_sent f') = 3 \<and> w_signingState (y_worker y') = None"
proof -
  let ?r1 = "signsRound1 toy_noble 9 [1] (y_worker toy_system)"
  have m: "wr_type (toy_msg t p) = js t" for t p by (simp add: toy_msg_def)
  have d: "decodePayload (wr_payload (toy_msg ''session'' [1])) = Inr [1]"
    "decodePayload (wr_payload (toy_msg ''commitment'' toy_server_commitment)) = Inr toy_server_commitment"
    "wr_payload (toy_msg ''certificate'' [9]) = Some (js ''CQ=='')" "decodeBase64 (js ''CQ=='') = Inr [9]"
    "wr_serial (toy_msg ''certificate'' [9]) = Some 12"
    by code_simp+
  have ok: "isOk (fst ?r1)" "isOk (fst (signsRound2 toy_noble (snd (projr (fst ?r1))) toy_server_commitment (y_worker toy_system) (snd ?r1)))"
    by code_simp+
  obtain cm st h1 where r1: "?r1 = (Inr (cm, st), h1)" using ok(1) unfolding isOk_iff by (metis prod.collapse)
  obtain ps h2 where r2: "signsRound2 toy_noble st toy_server_commitment (y_worker toy_system) h1 = (Inr ps, h2)"
    using ok(2) by (simp add: r1 isOk_iff) (metis prod.collapse)
  obtain f' y' where run: "signingRun (frostSigner toy_noble) 9 (toy_msg ''session'' [1]) (toy_msg ''commitment'' toy_server_commitment)
       (toy_msg ''certificate'' [9]) (newFlow 7 [1] [2], toy_system) = (f', y')" by (meson surj_pair)
  show ?thesis
    using certificate_signing_run [OF toy_system_reach toy_system_quiet m d(1) m d(2) m d(3,4) run]
    by (auto simp: r1 r2 run d(5))
qed

text \<open>A \<open>status\<close> message sent just before the inactivity timer fires.\<close>

definition toy_waiting :: signing_system where
  "toy_waiting = onClient (\<lambda>c. c\<lparr>c_now := c_now c + 60000\<rparr>) (onWorker (\<lambda>w. w\<lparr>w_now := w_now w + 60000\<rparr>)
     (toy_system\<lparr>y_client := projr (initWithConfigDone RReady (y_client toy_system))\<rparr>))"

definition toy_pinged :: signing_system where
  "toy_pinged = onClient (\<lambda>c. snd (sendToWorker MStatus 2500 c)) toy_waiting"

definition toy_expired :: signing_system where
  "toy_expired = clientReceives (onWorker (fireTimer (1, 60000)) toy_pinged)"

lemma toy_waiting_reach: "yreach (frostSigner toy_noble) toy_waiting"
proof -
  have "initWithConfigDone RReady (y_client toy_system) = Inr (projr (initWithConfigDone RReady (y_client toy_system)))"
    by (simp add: initWithConfigDone_def)
  then have "yreach (frostSigner toy_noble) (toy_system\<lparr>y_client := projr (initWithConfigDone RReady (y_client toy_system))\<rparr>)"
    by (intro reach_step [OF toy_system_reach] ystep.y_initialized)
  then show ?thesis unfolding toy_waiting_def by (rule reach_step) (rule ystep.y_tick, simp)
qed

lemma toy_expired_reach: "yreach (frostSigner toy_noble) toy_expired"
proof -
  have "length (c_posted (y_client toy_waiting)) \<le> y_delivered toy_waiting" by code_simp
  then have p: "yreach (frostSigner toy_noble) toy_pinged"
    unfolding toy_pinged_def by (intro reach_step [OF toy_waiting_reach] ystep.y_send) simp_all
  have "\<not> w_closed (y_worker toy_pinged)" "w_timers (y_worker toy_pinged) = [(1, 60000)]" "w_now (y_worker toy_pinged) = 60000"
    by code_simp+
  then have "yreach (frostSigner toy_noble) (onWorker (fireTimer (1, 60000)) toy_pinged)"
    by (intro reach_step [OF p] ystep.y_fire) simp_all
  then show ?thesis unfolding toy_expired_def by (rule reach_step) (rule ystep.y_receive)
qed

text \<open>\<open>ensureAlive\<close> can report a dead worker as alive. It takes any response for an answer to its
  \<open>status\<close> message: when the inactivity timer fires after the message was sent and before it was handled, the
  notice of termination resolves the request, and \<open>ensureAlive\<close> returns true with the worker closed and locked.\<close>

theorem ensureAlive_accepts_terminated:
  "\<exists>nb y. yreach (frostSigner nb) y \<and> snd (last (c_posted (y_client y))) = MStatus \<and>
     last (c_requests (y_client y)) = PResolved RTerminated \<and>
     fst (ensureAliveDone (Inr RTerminated) (y_client y)) \<and> isActiveC (y_client y) \<and>
     w_closed (y_worker y) \<and> w_share (y_worker y) = None"
proof -
  have "snd (last (c_posted (y_client toy_expired))) = MStatus"
    "last (c_requests (y_client toy_expired)) = PResolved RTerminated"
    "isActiveC (y_client toy_expired)"
    "w_closed (y_worker toy_expired)" "w_share (y_worker toy_expired) = None"
    by code_simp+
  then show ?thesis using toy_expired_reach by (intro exI [of _ toy_noble] exI [of _ toy_expired]) (simp add: ensureAliveDone_def)
qed

end
