(* ===== verification/Json.thy ===== *)
theory Json
  imports JsText
begin

text \<open>
  \<open>JSON.parse\<close> and \<open>JSON.stringify\<close> of the language, as the sources use them: on strings of code
  units, with numbers kept as their literal. The parser is recursive descent with fuel; the length
  of the input is enough, and \<open>jsonParse\<close> supplies it. The round trip is the law the storage and
  message code rests on.
\<close>

datatype json =
    JNull
  | JBool bool
  | JNum jsstring
  | JStr jsstring
  | JArr "json list"
  | JObj "(jsstring \<times> json) list"

subsection \<open>Characters\<close>

abbreviation (input) unit_of :: "char \<Rightarrow> code_unit" where "unit_of c \<equiv> of_char c"

definition hexDigit :: "nat \<Rightarrow> code_unit" where
  "hexDigit n = (if n < 10 then 48 + word_of_nat n else 87 + word_of_nat n)"

definition hexVal :: "code_unit \<Rightarrow> nat option" where
  "hexVal u = (if 48 \<le> u \<and> u \<le> 57 then Some (unat u - 48)
               else if 97 \<le> u \<and> u \<le> 102 then Some (unat u - 87)
               else if 65 \<le> u \<and> u \<le> 70 then Some (unat u - 55) else None)"

definition isJsonSpace :: "code_unit \<Rightarrow> bool" where
  "isJsonSpace u \<longleftrightarrow> u = 32 \<or> u = 9 \<or> u = 10 \<or> u = 13"

definition skipWs :: "jsstring \<Rightarrow> jsstring" where
  "skipWs s = dropWhile isJsonSpace s"

subsection \<open>Strings\<close>

definition unicodeEscape :: "code_unit \<Rightarrow> jsstring" where
  "unicodeEscape u = (let n = unat u in
     [92, 117, hexDigit (n div 4096), hexDigit (n div 256 mod 16), hexDigit (n div 16 mod 16), hexDigit (n mod 16)])"

definition escapeUnit :: "code_unit \<Rightarrow> jsstring" where
  "escapeUnit u =
     (if u = 34 then [92, 34] else if u = 92 then [92, 92] else if u = 8 then [92, 98]
      else if u = 12 then [92, 102] else if u = 10 then [92, 110] else if u = 13 then [92, 114]
      else if u = 9 then [92, 116]
      else if u < 32 \<or> isHighSurrogate u \<or> isLowSurrogate u then unicodeEscape u else [u])"

text \<open>A surrogate pair is written as it is, a lone surrogate as an escape.\<close>

fun escapeString :: "jsstring \<Rightarrow> jsstring" where
  "escapeString [] = []"
| "escapeString [u] = escapeUnit u"
| "escapeString (u # v # s) =
     (if isHighSurrogate u \<and> isLowSurrogate v then u # v # escapeString s
      else escapeUnit u @ escapeString (v # s))"

definition quoteString :: "jsstring \<Rightarrow> jsstring" where
  "quoteString s = 34 # escapeString s @ [34]"

definition simpleEscape :: "code_unit \<Rightarrow> code_unit option" where
  "simpleEscape e = (if e = 34 \<or> e = 92 \<or> e = 47 then Some e else if e = 98 then Some 8 else if e = 102 then Some 12
     else if e = 110 then Some 10 else if e = 114 then Some 13 else if e = 116 then Some 9 else None)"

definition hex4 :: "code_unit \<Rightarrow> code_unit \<Rightarrow> code_unit \<Rightarrow> code_unit \<Rightarrow> code_unit option" where
  "hex4 a b c d =
     (case (hexVal a, hexVal b, hexVal c, hexVal d) of
        (Some w, Some x, Some y, Some z) \<Rightarrow> Some (word_of_nat (((w * 16 + x) * 16 + y) * 16 + z))
      | _ \<Rightarrow> None)"

definition consFst :: "'a \<Rightarrow> ('a list \<times> 'b) option \<Rightarrow> ('a list \<times> 'b) option" where
  "consFst x r = map_option (\<lambda>(xs, y). (x # xs, y)) r"

text \<open>The part of a string literal after its opening quote.\<close>

fun parseString :: "jsstring \<Rightarrow> (jsstring \<times> jsstring) option" where
  "parseString [] = None"
| "parseString (u # s) =
     (if u = 34 then Some ([], s)
      else if u = 92 then
        (case s of
           [] \<Rightarrow> None
         | e # s' \<Rightarrow>
             if e = 117 then
               (case s' of
                  a # b # c # d # s'' \<Rightarrow>
                    (case hex4 a b c d of Some v \<Rightarrow> consFst v (parseString s'') | None \<Rightarrow> None)
                | _ \<Rightarrow> None)
             else (case simpleEscape e of Some v \<Rightarrow> consFst v (parseString s') | None \<Rightarrow> None))
      else if u < 32 then None
      else consFst u (parseString s))"

subsection \<open>Numbers\<close>

definition isDigit :: "code_unit \<Rightarrow> bool" where "isDigit u \<longleftrightarrow> 48 \<le> u \<and> u \<le> 57"

definition isNumUnit :: "code_unit \<Rightarrow> bool" where
  "isNumUnit u \<longleftrightarrow> isDigit u \<or> u = 43 \<or> u = 45 \<or> u = 46 \<or> u = 69 \<or> u = 101"

definition validExp :: "jsstring \<Rightarrow> bool" where
  "validExp s = (case s of [] \<Rightarrow> True
     | e # r \<Rightarrow> (e = 69 \<or> e = 101) \<and>
         (let ds = (case r of g # r' \<Rightarrow> if g = 43 \<or> g = 45 then r' else r | [] \<Rightarrow> r)
          in ds \<noteq> [] \<and> list_all isDigit ds))"

definition validFrac :: "jsstring \<Rightarrow> bool" where
  "validFrac s = (case s of [] \<Rightarrow> True
     | p # r \<Rightarrow> if p = 46 then takeWhile isDigit r \<noteq> [] \<and> validExp (dropWhile isDigit r) else validExp s)"

definition validUnsigned :: "jsstring \<Rightarrow> bool" where
  "validUnsigned s = (case s of [] \<Rightarrow> False
     | z # r \<Rightarrow> isDigit z \<and> (if z = 48 then validFrac r else validFrac (dropWhile isDigit s)))"

definition validNumber :: "jsstring \<Rightarrow> bool" where
  "validNumber s = (case s of [] \<Rightarrow> False | m # r \<Rightarrow> if m = 45 then validUnsigned r else validUnsigned s)"

subsection \<open>Values\<close>

definition stripPrefix :: "jsstring \<Rightarrow> jsstring \<Rightarrow> jsstring option" where
  "stripPrefix p s = (if take (length p) s = p then Some (drop (length p) s) else None)"

definition parseAtom :: "jsstring \<Rightarrow> (json \<times> jsstring) option" where
  "parseAtom s =
     (case stripPrefix (js ''null'') s of Some r \<Rightarrow> Some (JNull, r) | None \<Rightarrow>
     (case stripPrefix (js ''true'') s of Some r \<Rightarrow> Some (JBool True, r) | None \<Rightarrow>
     (case stripPrefix (js ''false'') s of Some r \<Rightarrow> Some (JBool False, r) | None \<Rightarrow>
       (let n = takeWhile isNumUnit s
        in if validNumber n then Some (JNum n, dropWhile isNumUnit s) else None))))"

fun parseValue :: "nat \<Rightarrow> jsstring \<Rightarrow> (json \<times> jsstring) option"
and parseElems :: "nat \<Rightarrow> jsstring \<Rightarrow> (json list \<times> jsstring) option"
and parseMembers :: "nat \<Rightarrow> jsstring \<Rightarrow> ((jsstring \<times> json) list \<times> jsstring) option" where
  "parseValue 0 s0 = None"
| "parseValue (Suc n) s0 =
     (case skipWs s0 of
        [] \<Rightarrow> None
      | u # s \<Rightarrow>
          if u = 34 then map_option (\<lambda>(t, r). (JStr t, r)) (parseString s)
          else if u = 91 then
            (case skipWs s of
               [] \<Rightarrow> None
             | v # r \<Rightarrow> if v = 93 then Some (JArr [], r)
                        else map_option (\<lambda>(xs, r'). (JArr xs, r')) (parseElems n (v # r)))
          else if u = 123 then
            (case skipWs s of
               [] \<Rightarrow> None
             | v # r \<Rightarrow> if v = 125 then Some (JObj [], r)
                        else map_option (\<lambda>(ms, r'). (JObj ms, r')) (parseMembers n (v # r)))
          else parseAtom (u # s))"
| "parseElems 0 s0 = None"
| "parseElems (Suc n) s0 =
     (case parseValue n s0 of
        None \<Rightarrow> None
      | Some (x, s) \<Rightarrow>
          (case skipWs s of
             [] \<Rightarrow> None
           | v # r \<Rightarrow> if v = 93 then Some ([x], r)
                      else if v = 44 then consFst x (parseElems n r) else None))"
| "parseMembers 0 s0 = None"
| "parseMembers (Suc n) s0 =
     (case skipWs s0 of
        [] \<Rightarrow> None
      | q # s \<Rightarrow>
          if q \<noteq> 34 then None
          else (case parseString s of
                  None \<Rightarrow> None
                | Some (k, s1) \<Rightarrow>
                    (case skipWs s1 of
                       [] \<Rightarrow> None
                     | c # s2 \<Rightarrow>
                         if c \<noteq> 58 then None
                         else (case parseValue n s2 of
                                 None \<Rightarrow> None
                               | Some (x, s3) \<Rightarrow>
                                   (case skipWs s3 of
                                      [] \<Rightarrow> None
                                    | v # r \<Rightarrow> if v = 125 then Some ([(k, x)], r)
                                               else if v = 44 then consFst (k, x) (parseMembers n r) else None)))))"

text \<open>\<open>JSON.parse(s)\<close>: \<open>None\<close> is the SyntaxError.\<close>

definition jsonParse :: "jsstring \<Rightarrow> json option" where
  "jsonParse s = (case parseValue (Suc (Suc (2 * length s))) s of
     Some (v, r) \<Rightarrow> if skipWs r = [] then Some v else None | None \<Rightarrow> None)"

fun stringify :: "json \<Rightarrow> jsstring" where
  "stringify JNull = js ''null''"
| "stringify (JBool b) = (if b then js ''true'' else js ''false'')"
| "stringify (JNum n) = n"
| "stringify (JStr s) = quoteString s"
| "stringify (JArr xs) = [91] @ join [44] (map stringify xs) @ [93]"
| "stringify (JObj ms) = [123] @ join [44] (map (\<lambda>(k, x). quoteString k @ [58] @ stringify x) ms) @ [125]"

text \<open>\<open>v[k]\<close> on a parsed value: the last member of that name, \<open>None\<close> for \<open>undefined\<close>; strings and
  arrays have no members the sources ask for.\<close>

definition jfield :: "jsstring \<Rightarrow> json \<Rightarrow> json option" where
  "jfield k v = (case v of JObj ms \<Rightarrow> map_of (rev ms) k | _ \<Rightarrow> None)"

text \<open>Truthiness of a parsed value. A number literal is zero also when it is too small for a double: it
  rounds to zero up to \<open>2\<close> to the power \<open>-1075\<close>.\<close>

definition decimalValue :: "jsstring \<Rightarrow> nat" where
  "decimalValue s = foldl (\<lambda>v u. v * 10 + (unat u - 48)) 0 (filter isDigit s)"

definition numIsZero :: "jsstring \<Rightarrow> bool" where
  "numIsZero n =
     (let m = takeWhile (\<lambda>u. u \<noteq> 101 \<and> u \<noteq> 69) n;
          e = drop (Suc (length m)) n;
          frac = length (drop 1 (dropWhile (\<lambda>u. u \<noteq> 46) m));
          k = (if take 1 e = [45] then - int (decimalValue e) else int (decimalValue e)) - int frac
      in decimalValue m = 0 \<or> k < 0 \<and> decimalValue m * 2 ^ 1075 \<le> 10 ^ nat (- k))"

fun truthyJson :: "json \<Rightarrow> bool" where
  "truthyJson JNull = False"
| "truthyJson (JBool b) = b"
| "truthyJson (JNum n) = (\<not> numIsZero n)"
| "truthyJson (JStr s) = (s \<noteq> [])"
| "truthyJson (JArr xs) = True"
| "truthyJson (JObj ms) = True"

fun wfJson :: "json \<Rightarrow> bool" where
  "wfJson (JNum n) = (validNumber n \<and> list_all isNumUnit n)"
| "wfJson (JArr xs) = list_all wfJson xs"
| "wfJson (JObj ms) = list_all (\<lambda>(k, x). wfJson x) ms"
| "wfJson v = True"

subsection \<open>Laws of strings\<close>

lemma hexVal_hexDigit: "n < 16 \<Longrightarrow> hexVal (hexDigit n) = Some n"
proof -
  have "list_all (\<lambda>n. hexVal (hexDigit n) = Some n) [0..<16]" by code_simp
  then show "n < 16 \<Longrightarrow> ?thesis" by (simp add: list_all_iff)
qed

lemma unat_unit [simp]: "unat (u :: code_unit) < 65536"
  using unsigned_less [of u] by simp

lemma nibbles: "((n div 4096 * 16 + n div 256 mod 16) * 16 + n div 16 mod 16) * 16 + n mod 16 = (n :: nat)"
proof -
  have "n div 4096 = n div 256 div 16" "n div 256 = n div 16 div 16" by (simp_all flip: div_mult2_eq)
  then show ?thesis using div_mult_mod_eq by metis
qed

lemma hex4_unicode:
  "hex4 (hexDigit (unat u div 4096)) (hexDigit (unat u div 256 mod 16)) (hexDigit (unat u div 16 mod 16))
     (hexDigit (unat u mod 16)) = Some u"
proof -
  have "unat u div 4096 < 16" using unat_unit [of u] by linarith
  then have "hex4 (hexDigit (unat u div 4096)) (hexDigit (unat u div 256 mod 16)) (hexDigit (unat u div 16 mod 16))
     (hexDigit (unat u mod 16)) = Some (word_of_nat (unat u))"
    unfolding hex4_def by (subst nibbles [symmetric]) (simp only: hexVal_hexDigit option.case prod.case pos_mod_bound mod_less_divisor zero_less_numeral)
  then show ?thesis by simp
qed

lemma parseString_unicode: "parseString (unicodeEscape u @ s) = consFst u (parseString s)"
  by (simp add: unicodeEscape_def Let_def hex4_unicode)

lemma parseString_escapeUnit: "parseString (escapeUnit u @ s) = consFst u (parseString s)"
  by (auto simp: escapeUnit_def simpleEscape_def parseString_unicode)

lemma surrogate_plain: "isHighSurrogate u \<or> isLowSurrogate u \<Longrightarrow> \<not> u < 32 \<and> u \<noteq> 34 \<and> u \<noteq> 92"
  by (auto simp: isHighSurrogate_def isLowSurrogate_def word_le_nat_alt word_less_nat_alt)

lemma parseString_escape: "parseString (escapeString s @ 34 # r) = Some (s, r)"
proof (induction s rule: escapeString.induct)
  case (3 u v s)
  show ?case
  proof (cases "isHighSurrogate u \<and> isLowSurrogate v")
    case True
    then show ?thesis using 3(1) surrogate_plain [of u] surrogate_plain [of v] by (simp add: consFst_def)
  next
    case False
    have "parseString (escapeString (u # v # s) @ 34 # r) = consFst u (parseString (escapeString (v # s) @ 34 # r))"
      using parseString_escapeUnit [of u "escapeString (v # s) @ 34 # r"]
      using False by (simp only: escapeString.simps(3) if_False append_assoc)
    also have "\<dots> = Some (u # v # s, r)" using 3(2) [OF False] by (simp add: consFst_def)
    finally show ?thesis .
  qed
qed (use parseString_escapeUnit in \<open>simp_all add: consFst_def\<close>)

lemma skipWs_plain: "s \<noteq> [] \<Longrightarrow> \<not> isJsonSpace (hd s) \<Longrightarrow> skipWs s = s"
  by (cases s) (simp_all add: skipWs_def)

lemma skipWs_Cons [simp]: "\<not> isJsonSpace u \<Longrightarrow> skipWs (u # s) = u # s"
  by (simp add: skipWs_def)

subsection \<open>The round trip\<close>

text \<open>How much fuel a value needs, and that its text is long enough to pay for it.\<close>

fun need :: "json \<Rightarrow> nat" and needs :: "json list \<Rightarrow> nat" and needm :: "(jsstring \<times> json) list \<Rightarrow> nat" where
  "need (JArr xs) = Suc (needs xs)"
| "need (JObj ms) = Suc (needm ms)"
| "need v = 1"
| "needs [] = 0"
| "needs (x # xs) = Suc (max (need x) (needs xs))"
| "needm [] = 0"
| "needm ((k, x) # ms) = Suc (max (need x) (needm ms))"

definition numEnd :: "jsstring \<Rightarrow> bool" where
  "numEnd r \<longleftrightarrow> (case r of [] \<Rightarrow> True | u # _ \<Rightarrow> \<not> isNumUnit u)"

lemma validNumber_hd:
  "validNumber n \<Longrightarrow> n \<noteq> [] \<and> (hd n = 45 \<or> isDigit (hd n))"
  by (cases n) (auto simp: validNumber_def validUnsigned_def split: if_splits list.splits)

lemma digit_plain: "u = 45 \<or> isDigit u \<Longrightarrow>
    \<not> isJsonSpace u \<and> u \<noteq> 34 \<and> u \<noteq> 91 \<and> u \<noteq> 123 \<and> u \<noteq> of_char (CHR ''n'') \<and> u \<noteq> of_char (CHR ''t'') \<and> u \<noteq> of_char (CHR ''f'')"
  by (auto simp: isDigit_def isJsonSpace_def word_le_nat_alt)

lemma stripPrefix_append: "stripPrefix p (p @ r) = Some r"
  by (simp add: stripPrefix_def)

lemma stripPrefix_hd: "s \<noteq> [] \<Longrightarrow> p \<noteq> [] \<Longrightarrow> hd s \<noteq> hd p \<Longrightarrow> stripPrefix p s = None"
  by (cases s; cases p) (auto simp: stripPrefix_def)

lemma parseAtom_number:
  assumes "validNumber n" and "list_all isNumUnit n" and "numEnd r"
  shows "parseAtom (n @ r) = Some (JNum n, r)"
proof -
  have n: "n \<noteq> []" "hd n = 45 \<or> isDigit (hd n)" using validNumber_hd [OF assms(1)] by auto
  note plain = digit_plain [OF n(2)]
  have "stripPrefix (js (c # cs)) (n @ r) = None" if "hd n \<noteq> of_char c" for c cs
    using that n(1) by (intro stripPrefix_hd) (simp_all add: js_Cons)
  moreover have "takeWhile isNumUnit (n @ r) = n" "dropWhile isNumUnit (n @ r) = r"
    using assms(2,3) by (auto simp: takeWhile_append dropWhile_append list_all_iff numEnd_def split: list.splits)
  ultimately show ?thesis using plain assms(1) by (simp add: parseAtom_def Let_def)
qed

lemma parseAtom_literals:
  "parseAtom (js ''null'' @ r) = Some (JNull, r)" "parseAtom (js ''true'' @ r) = Some (JBool True, r)"
  "parseAtom (js ''false'' @ r) = Some (JBool False, r)"
  by (simp_all add: parseAtom_def stripPrefix_append) (simp_all add: stripPrefix_def js_Cons)

text \<open>A value's text starts with something that is not space and not a closing bracket.\<close>

lemma stringify_hd:
  "wfJson v \<Longrightarrow> stringify v \<noteq> [] \<and> \<not> isJsonSpace (hd (stringify v)) \<and> hd (stringify v) \<noteq> 93 \<and> hd (stringify v) \<noteq> 125"
proof (cases v)
  case (JNum n)
  assume "wfJson v"
  then have "n \<noteq> []" "hd n = 45 \<or> isDigit (hd n)" using validNumber_hd JNum by auto
  then show ?thesis using JNum by (auto simp: isDigit_def isJsonSpace_def word_le_nat_alt)
qed (auto simp: js_Cons isJsonSpace_def quoteString_def)

lemma numEnd_simps [simp]: "numEnd []" "numEnd (44 # r)" "numEnd (93 # r)" "numEnd (125 # r)"
  by (simp_all add: numEnd_def isNumUnit_def isDigit_def word_le_nat_alt)

lemma space_simps [simp]: "\<not> isJsonSpace 44" "\<not> isJsonSpace 93" "\<not> isJsonSpace 125" "\<not> isJsonSpace 34"
  "\<not> isJsonSpace 58" "\<not> isJsonSpace 91" "\<not> isJsonSpace 123"
  by (simp_all add: isJsonSpace_def)

lemma join_map_Cons: "xs \<noteq> [] \<Longrightarrow> join [44] (map f (x # xs)) = f x @ 44 # join [44] (map f xs)"
  by (cases xs) simp_all

lemma parseElems_join:
  assumes "\<And>x n r. x \<in> set xs \<Longrightarrow> need x \<le> n \<Longrightarrow> numEnd r \<Longrightarrow> parseValue n (stringify x @ r) = Some (x, r)"
    and "xs \<noteq> []" and "needs xs \<le> n"
  shows "parseElems n (join [44] (map stringify xs) @ 93 # r) = Some (xs, r)"
  using assms
proof (induction xs arbitrary: n)
  case (Cons x xs)
  then obtain k where n: "n = Suc k" "need x \<le> k" "needs xs \<le> k" by (cases n) auto
  show ?case
  proof (cases "xs = []")
    case True
    then show ?thesis using Cons.prems(1) [of x k "93 # r"] n by simp
  next
    case False
    let ?rest = "join [44] (map stringify xs) @ 93 # r"
    have "parseValue k (stringify x @ 44 # ?rest) = Some (x, 44 # ?rest)"
      using Cons.prems(1) n by simp
    moreover have "parseElems k ?rest = Some (xs, r)"
      by (rule Cons.IH) (use Cons.prems(1) False n in auto)
    ultimately show ?thesis using False n by (simp add: join_map_Cons consFst_def del: list.map)
  qed
qed simp

lemma parseMembers_join:
  assumes "\<And>k x n r. (k, x) \<in> set ms \<Longrightarrow> need x \<le> n \<Longrightarrow> numEnd r \<Longrightarrow> parseValue n (stringify x @ r) = Some (x, r)"
    and "ms \<noteq> []" and "needm ms \<le> n"
  shows "parseMembers n (join [44] (map (\<lambda>(k, x). quoteString k @ [58] @ stringify x) ms) @ 125 # r) = Some (ms, r)"
  using assms
proof (induction ms arbitrary: n)
  case (Cons m ms)
  let ?f = "\<lambda>(k, x). quoteString k @ [58] @ stringify x"
  obtain k x where m: "m = (k, x)" by (cases m)
  then obtain j where n: "n = Suc j" "need x \<le> j" "needm ms \<le> j" using Cons.prems(3) by (cases n) auto
  have v: "parseValue j (stringify x @ q) = Some (x, q)" if "numEnd q" for q
    using Cons.prems(1) [of k x j q] m n that by simp
  have key: "parseString (escapeString k @ 34 # 58 # q) = Some (k, 58 # q)" for q
    by (rule parseString_escape)
  show ?case
  proof (cases "ms = []")
    case True
    then show ?thesis using m n v [of "125 # r"] key by (simp add: quoteString_def)
  next
    case False
    let ?rest = "join [44] (map ?f ms) @ 125 # r"
    have "parseMembers j ?rest = Some (ms, r)"
      by (rule Cons.IH) (use Cons.prems(1) False n in auto)
    then show ?thesis using False m n v [of "44 # ?rest"] key
      by (simp add: join_map_Cons consFst_def quoteString_def del: list.map)
  qed
qed simp

lemma parseValue_atom:
  "1 \<le> n \<Longrightarrow> s \<noteq> [] \<Longrightarrow> \<not> isJsonSpace (hd s) \<Longrightarrow> hd s \<noteq> 34 \<Longrightarrow> hd s \<noteq> 91 \<Longrightarrow> hd s \<noteq> 123 \<Longrightarrow>
     parseValue n s = parseAtom s"
  by (cases n; cases s) simp_all

lemma parseValue_stringify:
  "wfJson v \<Longrightarrow> need v \<le> n \<Longrightarrow> numEnd r \<Longrightarrow> parseValue n (stringify v @ r) = Some (v, r)"
proof (induction v arbitrary: n r)
  case (JNum x)
  then obtain k where "n = Suc k" by (cases n) auto
  moreover have "x \<noteq> []" "hd x = 45 \<or> isDigit (hd x)" using validNumber_hd JNum by auto
  ultimately show ?case
    using JNum parseAtom_number [of x r] digit_plain [of "hd x"] parseValue_atom [of n "x @ r"] by simp
next
  case (JStr s)
  then show ?case using parseString_escape [of s r] by (cases n) (simp_all add: quoteString_def)
next
  case (JArr xs)
  then obtain k where n: "n = Suc k" "needs xs \<le> k" by (cases n) auto
  show ?case
  proof (cases xs)
    case Nil
    then show ?thesis using n by simp
  next
    case (Cons x ys)
    have "parseElems k (join [44] (map stringify xs) @ 93 # r) = Some (xs, r)"
      using JArr n Cons by (intro parseElems_join) (auto simp: list_all_iff)
    moreover obtain u t where "join [44] (map stringify xs) @ 93 # r = u # t" "\<not> isJsonSpace u" "u \<noteq> 93"
      using stringify_hd [of x] JArr.prems(1) Cons by (cases "stringify x"; cases ys) auto
    ultimately show ?thesis using n by simp
  qed
next
  case (JObj ms)
  then obtain k where n: "n = Suc k" "needm ms \<le> k" by (cases n) auto
  show ?case
  proof (cases ms)
    case Nil
    then show ?thesis using n by simp
  next
    case (Cons m ys)
    let ?f = "\<lambda>(k, x). quoteString k @ [58] @ stringify x"
    have "parseMembers k (join [44] (map ?f ms) @ 125 # r) = Some (ms, r)"
      using JObj n Cons by (intro parseMembers_join) (fastforce simp: list_all_iff)+
    moreover obtain t where "join [44] (map ?f ms) @ 125 # r = 34 # t"
      using Cons by (cases m; cases ys) (auto simp: quoteString_def)
    ultimately show ?thesis using n by simp
  qed
next
  case JNull
  then show ?case using parseValue_atom [of n "js ''null'' @ r"] parseAtom_literals(1) [of r]
    by (simp add: js_Cons isJsonSpace_def)
next
  case (JBool b)
  then show ?case
    using parseValue_atom [of n "js ''true'' @ r"] parseValue_atom [of n "js ''false'' @ r"] parseAtom_literals(2,3) [of r]
    by (simp add: js_Cons isJsonSpace_def)
qed

lemma needs_length:
  "(\<And>x. x \<in> set xs \<Longrightarrow> need x \<le> Suc (2 * length (stringify x))) \<Longrightarrow>
     needs xs \<le> 2 * length (join [44] (map stringify xs)) + 2"
proof (induction xs)
  case (Cons x xs)
  then have "need x \<le> Suc (2 * length (stringify x))" "needs xs \<le> 2 * length (join [44] (map stringify xs)) + 2"
    by auto
  then show ?case by (cases "xs = []") (simp_all add: join_Cons)
qed simp

lemma needm_length:
  "(\<And>k x. (k, x) \<in> set ms \<Longrightarrow> need x \<le> Suc (2 * length (stringify x))) \<Longrightarrow>
     needm ms \<le> 2 * length (join [44] (map (\<lambda>(k, x). quoteString k @ [58] @ stringify x) ms)) + 2"
proof (induction ms)
  case (Cons m ms)
  obtain k x where m: "m = (k, x)" by (cases m)
  then have "need x \<le> Suc (2 * length (stringify x))"
    "needm ms \<le> 2 * length (join [44] (map (\<lambda>(k, x). quoteString k @ [58] @ stringify x) ms)) + 2"
    using Cons by auto
  then show ?case using m by (cases "ms = []") (simp_all add: join_Cons)
qed simp

lemma need_length: "need v \<le> Suc (2 * length (stringify v))"
proof (induction v)
  case (JArr xs)
  then show ?case using needs_length [of xs] by simp
next
  case (JObj ms)
  then show ?case using needm_length [of ms] by fastforce
qed simp_all

lemma jsonParse_stringify: "wfJson v \<Longrightarrow> jsonParse (stringify v) = Some v"
  using parseValue_stringify [of v "Suc (Suc (2 * length (stringify v)))" "[]"] need_length [of v]
  by (simp add: jsonParse_def skipWs_def)

subsection \<open>Printed integers are numbers\<close>

lemma natDigits_hd: "natDigits n \<noteq> [] \<and> (hd (natDigits n) = 0 \<longrightarrow> n = 0)"
proof (induction n rule: natDigits.induct)
  case (1 n)
  show ?case
  proof (cases "n < 10")
    case False
    with 1 have "natDigits (n div 10) \<noteq> []" "hd (natDigits (n div 10)) = 0 \<longrightarrow> n div 10 = 0" by simp_all
    moreover have "n div 10 \<noteq> 0" using False by simp
    ultimately show ?thesis using False by (simp add: natDigits.simps [of n])
  qed (simp add: natDigits.simps [of n])
qed

lemma digit_unit: "d < 10 \<Longrightarrow> isDigit (48 + word_of_nat d) \<and> unat (48 + word_of_nat d :: code_unit) = 48 + d"
proof -
  assume "d < 10"
  then have "unat (48 + word_of_nat d :: code_unit) = 48 + d" by (simp add: unat_word_ariths unat_of_nat)
  then show ?thesis using \<open>d < 10\<close> by (simp add: isDigit_def word_le_nat_alt)
qed

lemma showNat_digits: "showNat n \<noteq> []" "list_all isDigit (showNat n)" "hd (showNat n) = 48 \<Longrightarrow> showNat n = [48]"
proof -
  have d: "list_all (\<lambda>d. d < 10) (natDigits n)" using natDigits_value [of n] by simp
  show "showNat n \<noteq> []" using natDigits_hd [of n] by (simp add: showNat_def)
  show "list_all isDigit (showNat n)" using d digit_unit by (auto simp: showNat_def list_all_iff)
  assume "hd (showNat n) = 48"
  then have "48 + word_of_nat (hd (natDigits n)) = (48 :: code_unit)" using natDigits_hd [of n] by (simp add: showNat_def hd_map)
  moreover have "hd (natDigits n) < 10" using d natDigits_hd [of n] by (cases "natDigits n") auto
  ultimately have "hd (natDigits n) = 0" using digit_unit [of "hd (natDigits n)"] by simp
  then have "n = 0" using natDigits_hd [of n] by simp
  then show "showNat n = [48]" by (simp add: showNat_def natDigits.simps)
qed

lemma validUnsigned_showNat: "validUnsigned (showNat n)"
proof -
  obtain z r where s: "showNat n = z # r" using showNat_digits(1) [of n] by (cases "showNat n") auto
  have "dropWhile isDigit r = []" using showNat_digits(2) [of n] by (auto simp: s list_all_iff)
  then show ?thesis using showNat_digits(2,3) [of n] by (simp add: s validUnsigned_def validFrac_def del: dropWhile_eq_Nil_conv)
qed

lemma digit_not_sign: "isDigit u \<Longrightarrow> u \<noteq> 45 \<and> u \<noteq> 43"
  by (auto simp: isDigit_def)

lemma validNumber_showInt: "validNumber (showInt i) \<and> list_all isNumUnit (showInt i)"
proof -
  have "list_all isNumUnit (showNat n)" for n using showNat_digits(2) [of n] by (auto simp: isNumUnit_def list_all_iff)
  moreover have "validNumber (showNat n)" for n
    using validUnsigned_showNat [of n] showNat_digits(1,2) [of n] digit_not_sign
    by (cases "showNat n") (auto simp: validNumber_def)
  moreover have "isNumUnit 45" by (simp add: isNumUnit_def)
  ultimately show ?thesis using validUnsigned_showNat by (simp add: showInt_def validNumber_def [of "45 # s" for s])
qed

lemma decimalValue_showNat: "decimalValue (showNat n) = n"
proof -
  have fold: "foldl (\<lambda>v u. v * 10 + (unat u - 48)) a (map (\<lambda>d. 48 + word_of_nat d :: code_unit) ds) = foldl (\<lambda>v d. v * 10 + d) a ds"
    if "list_all (\<lambda>d. d < 10) ds" for a ds
    using that by (induction ds arbitrary: a) (simp_all add: digit_unit)
  have "filter isDigit (showNat n) = showNat n" using showNat_digits(2) [of n] by (simp add: list_all_iff filter_id_conv)
  then show ?thesis using natDigits_value [of n] fold by (simp add: decimalValue_def showNat_def)
qed

end
