(* ===== verification/Storage.thy ===== *)
theory Storage
  imports JsText
begin

text \<open>
  \<open>localStorage\<close>: a map from keys to strings that may be unavailable (every access throws) or full
  (only \<open>setItem\<close> throws). \<open>None\<close> is a thrown exception.
\<close>

record storage =
  ls_available :: bool
  ls_full :: bool
  ls_items :: "jsstring \<rightharpoonup> jsstring"

definition getItem :: "jsstring \<Rightarrow> storage \<Rightarrow> jsstring option option" where
  "getItem k st = (if ls_available st then Some (ls_items st k) else None)"

definition setItem :: "jsstring \<Rightarrow> jsstring \<Rightarrow> storage \<Rightarrow> storage option" where
  "setItem k v st = (if ls_available st \<and> \<not> ls_full st then Some (st\<lparr>ls_items := (ls_items st)(k \<mapsto> v)\<rparr>) else None)"

definition removeItem :: "jsstring \<Rightarrow> storage \<Rightarrow> storage option" where
  "removeItem k st = (if ls_available st then Some (st\<lparr>ls_items := (ls_items st)(k := None)\<rparr>) else None)"

text \<open>\<open>try { ... } catch {}\<close> around a write: on an exception nothing changes.\<close>

definition tryStorage :: "storage option \<Rightarrow> storage \<Rightarrow> storage" where
  "tryStorage r st = (case r of Some st' \<Rightarrow> st' | None \<Rightarrow> st)"

definition usable :: "storage \<Rightarrow> bool" where
  "usable st \<longleftrightarrow> ls_available st \<and> \<not> ls_full st"

definition empty_storage :: storage where
  "empty_storage = \<lparr>ls_available = True, ls_full = False, ls_items = Map.empty\<rparr>"

lemma getItem_setItem:
  "usable st \<Longrightarrow> getItem k' (tryStorage (setItem k v st) st) = Some (if k' = k then Some v else ls_items st k')"
  by (simp add: usable_def getItem_def setItem_def tryStorage_def)

lemma getItem_removeItem:
  "ls_available st \<Longrightarrow> getItem k' (tryStorage (removeItem k st) st) = Some (if k' = k then None else ls_items st k')"
  by (simp add: getItem_def removeItem_def tryStorage_def)

end
