(* ===== verification/Api.thy ===== *)
theory Api
  imports Json Storage
begin

text \<open>
  The REST client (\<open>web/src/lib/api.ts\<close>): \<open>fetchApi\<close> and every endpoint function. The browser side is the
  record \<open>browser\<close>; the server is the parameter \<open>fetch\<close> of each function, which answers a request or
  fails (\<open>None\<close>: the promise of \<open>fetch\<close> rejects). Bodies and results are JSON values, because the code casts
  what it parses without checking it. \<open>rest_call\<close> is the contract every function built on \<open>fetchApi\<close> keeps.
\<close>

subsection \<open>Browser and wire\<close>

record browser =
  br_window :: bool                 \<comment> \<open>\<open>typeof window !== "undefined"\<close>\<close>
  br_storage :: storage
  br_protocol :: jsstring
  br_host :: jsstring
  br_href :: "jsstring option"      \<comment> \<open>a navigation that was started\<close>

record http_request =
  rq_url :: jsstring
  rq_method :: "jsstring option"
  rq_headers :: "(jsstring \<times> jsstring) list"
  rq_body :: "jsstring option"
  rq_keepalive :: bool

record http_response =
  rs_status :: nat
  rs_content_length :: "jsstring option"
  rs_text :: jsstring

type_synonym server = "http_request \<Rightarrow> http_response option"

datatype api_error =
    NetworkError
  | StorageError
  | Unauthorized
  | HttpError jsstring
  | SyntaxError
  | UriError

record request_init =
  ri_method :: "jsstring option"
  ri_headers :: "(jsstring \<times> jsstring) list"
  ri_body :: "jsstring option"

text \<open>\<open>o[k] = v\<close> on an object: in place when the key exists, else at the end.\<close>

fun putKey :: "'k \<Rightarrow> 'v \<Rightarrow> ('k \<times> 'v) list \<Rightarrow> ('k \<times> 'v) list" where
  "putKey k v [] = [(k, v)]"
| "putKey k v ((k', v') # kvs) = (if k' = k then (k, v) # kvs else (k', v') # putKey k v kvs)"

definition rs_ok :: "http_response \<Rightarrow> bool" where
  "rs_ok r \<longleftrightarrow> 200 \<le> rs_status r \<and> rs_status r \<le> 299"

definition jsonE :: "jsstring \<Rightarrow> api_error + json" where
  "jsonE s = (case jsonParse s of Some v \<Rightarrow> Inr v | None \<Rightarrow> Inl SyntaxError)"

subsection \<open>fetchApi\<close>

text \<open>\<open>getToken()\<close>; the outer \<open>None\<close> is an exception of \<open>localStorage\<close>.\<close>

definition getToken :: "browser \<Rightarrow> jsstring option option" where
  "getToken b = (if \<not> br_window b then Some None else getItem (js ''token'') (br_storage b))"

definition apiHeaders :: "request_init \<Rightarrow> jsstring option \<Rightarrow> (jsstring \<times> jsstring) list" where
  "apiHeaders opts token =
     (let headers = fold (\<lambda>(k, v). putKey k v) (ri_headers opts) [(js ''Content-Type'', js ''application/json'')]
      in case token of
           Some t \<Rightarrow> if t \<noteq> [] then putKey (js ''Authorization'') (js ''Bearer '' @ t) headers else headers
         | None \<Rightarrow> headers)"

definition apiRequest :: "jsstring \<Rightarrow> request_init \<Rightarrow> jsstring option \<Rightarrow> http_request" where
  "apiRequest endpoint opts token =
     \<lparr>rq_url = js ''/api/v1'' @ endpoint, rq_method = ri_method opts, rq_headers = apiHeaders opts token,
      rq_body = ri_body opts, rq_keepalive = False\<rparr>"

text \<open>The 401 branch.\<close>

definition expireSession :: "browser \<Rightarrow> (api_error + json) \<times> browser" where
  "expireSession b =
     (case removeItem (js ''token'') (br_storage b) of
        None \<Rightarrow> (Inl StorageError, b)
      | Some st \<Rightarrow>
          (case removeItem (js ''user'') st of
             None \<Rightarrow> (Inl StorageError, b\<lparr>br_storage := st\<rparr>)
           | Some st' \<Rightarrow> (Inl Unauthorized, b\<lparr>br_storage := st', br_href := Some (js ''/login'')\<rparr>)))"

text \<open>The answer of a response that is not a 401.\<close>

definition readResponse :: "http_response \<Rightarrow> api_error + json" where
  "readResponse r =
     (if \<not> rs_ok r then
        Inl (HttpError (if rs_text r \<noteq> [] then rs_text r else js ''HTTP error '' @ showNat (rs_status r)))
      else if rs_status r = 204 \<or> rs_content_length r = Some (js ''0'') \<or> rs_content_length r = None then
        (if rs_text r = [] then Inr (JObj []) else jsonE (rs_text r))
      else jsonE (rs_text r))"

definition fetchApi :: "server \<Rightarrow> jsstring \<Rightarrow> request_init \<Rightarrow> browser \<Rightarrow> (api_error + json) \<times> browser" where
  "fetchApi fetch endpoint opts b =
     (case getToken b of
        None \<Rightarrow> (Inl StorageError, b)
      | Some token \<Rightarrow>
          (case fetch (apiRequest endpoint opts token) of
             None \<Rightarrow> (Inl NetworkError, b)
           | Some r \<Rightarrow> if rs_status r = 401 then expireSession b else (readResponse r, b)))"

subsection \<open>Endpoints\<close>

definition noOptions :: request_init where
  "noOptions = \<lparr>ri_method = None, ri_headers = [], ri_body = None\<rparr>"

definition withMethod :: "string \<Rightarrow> request_init" where
  "withMethod m = noOptions\<lparr>ri_method := Some (js m)\<rparr>"

definition withBody :: "string \<Rightarrow> json \<Rightarrow> request_init" where
  "withBody m v = (withMethod m)\<lparr>ri_body := Some (stringify v)\<rparr>"

text \<open>An optional member: \<open>JSON.stringify\<close> leaves out \<open>undefined\<close>.\<close>

definition optMember :: "string \<Rightarrow> json option \<Rightarrow> (jsstring \<times> json) list" where
  "optMember k v = (case v of Some x \<Rightarrow> [(js k, x)] | None \<Rightarrow> [])"

definition voidResult :: "(api_error + 'a) \<times> browser \<Rightarrow> (api_error + unit) \<times> browser" where
  "voidResult rb = (case rb of (Inl e, b) \<Rightarrow> (Inl e, b) | (Inr v, b) \<Rightarrow> (Inr (), b))"

definition checkUsersExist where
  "checkUsersExist fetch b = fetchApi fetch (js ''/auth/status'') noOptions b"

text \<open>\<open>clientLog\<close> swallows every failure.\<close>

definition clientLog :: "server \<Rightarrow> json \<Rightarrow> browser \<Rightarrow> browser" where
  "clientLog fetch data b =
     (case fetch \<lparr>rq_url = js ''/api/v1/client-log'', rq_method = Some (js ''POST''),
                  rq_headers = [(js ''Content-Type'', js ''application/json'')], rq_body = Some (stringify data),
                  rq_keepalive = True\<rparr> of
        None \<Rightarrow> b
      | Some r \<Rightarrow> b)"

definition loginBegin where
  "loginBegin fetch email b =
     fetchApi fetch (js ''/auth/login/begin'') (withBody ''POST'' (JObj [(js ''email'', JStr email)])) b"

text \<open>The calls that go around \<open>fetchApi\<close>: no token, no 401 handling.\<close>

definition rawPost :: "string \<Rightarrow> (jsstring \<times> jsstring) list \<Rightarrow> json \<Rightarrow> http_request" where
  "rawPost url extra body =
     \<lparr>rq_url = js url, rq_method = Some (js ''POST''),
      rq_headers = (js ''Content-Type'', js ''application/json'') # extra, rq_body = Some (stringify body),
      rq_keepalive = False\<rparr>"

definition rawError :: "string \<Rightarrow> http_response \<Rightarrow> api_error" where
  "rawError msg r = HttpError (if rs_text r \<noteq> [] then rs_text r else js msg)"

definition loginFinish :: "server \<Rightarrow> jsstring \<Rightarrow> json \<Rightarrow> api_error + json" where
  "loginFinish fetch email credential =
     (case fetch (rawPost ''/api/v1/auth/login/finish'' [] (JObj [(js ''email'', JStr email), (js ''credential'', credential)])) of
        None \<Rightarrow> Inl NetworkError
      | Some r \<Rightarrow> if \<not> rs_ok r then Inl (rawError ''Login failed'' r) else jsonE (rs_text r))"

definition registerBegin where
  "registerBegin fetch email b =
     fetchApi fetch (js ''/auth/register/begin'') (withBody ''POST'' (JObj [(js ''email'', JStr email)])) b"

definition registerFinish :: "server \<Rightarrow> jsstring \<Rightarrow> json \<Rightarrow> jsstring option \<Rightarrow> api_error + json" where
  "registerFinish fetch email credential encryptedMasterKey =
     (case fetch (rawPost ''/api/v1/auth/register/finish'' []
         (JObj [(js ''email'', JStr email), (js ''credential'', credential),
                (js ''encrypted_master_key'', JStr (case encryptedMasterKey of Some k \<Rightarrow> k | None \<Rightarrow> []))])) of
        None \<Rightarrow> Inl NetworkError
      | Some r \<Rightarrow>
          if \<not> rs_ok r then Inl (rawError ''Registration failed'' r)
          else if rs_text r = [] then Inr (JObj []) else jsonE (rs_text r))"

definition pairStart where
  "pairStart fetch email b =
     fetchApi fetch (js ''/auth/pair/start'') (withBody ''POST'' (JObj [(js ''email'', JStr email)])) b"

definition pairComplete where
  "pairComplete fetch code b =
     fetchApi fetch (js ''/auth/pair/complete'') (withBody ''POST'' (JObj [(js ''code'', JStr code)])) b"

definition getSettings where
  "getSettings fetch b = fetchApi fetch (js ''/settings'') noOptions b"

definition updateSettings where
  "updateSettings fetch theme b =
     fetchApi fetch (js ''/settings'') (withBody ''PUT'' (JObj (optMember ''theme'' (map_option JStr theme)))) b"

definition listSessions where
  "listSessions fetch b = fetchApi fetch (js ''/sessions'') noOptions b"

definition getSession where
  "getSession fetch i b = fetchApi fetch (js ''/sessions/'' @ i) noOptions b"

definition deleteStaleSessions where
  "deleteStaleSessions fetch b = fetchApi fetch (js ''/sessions/stale'') (withMethod ''DELETE'') b"

definition deleteSession where
  "deleteSession fetch i b = voidResult (fetchApi fetch (js ''/sessions/'' @ i) (withMethod ''DELETE'') b)"

definition reorderSessions where
  "reorderSessions fetch sessionIds b =
     voidResult (fetchApi fetch (js ''/sessions/reorder'')
       (withBody ''POST'' (JObj [(js ''session_ids'', JArr (map JStr sessionIds))])) b)"

definition updateSessionTags where
  "updateSessionTags fetch i tags b =
     fetchApi fetch (js ''/sessions/'' @ i @ js ''/tags'') (withBody ''PUT'' (JObj [(js ''tags'', JArr (map JStr tags))])) b"

definition listPasskeys where
  "listPasskeys fetch b = fetchApi fetch (js ''/auth/passkeys'') noOptions b"

definition addPasskeyBegin where
  "addPasskeyBegin fetch b = fetchApi fetch (js ''/auth/passkeys/begin'') (withMethod ''POST'') b"

text \<open>Without a token the header is the text \<open>Bearer null\<close>.\<close>

definition addPasskeyFinish :: "server \<Rightarrow> json \<Rightarrow> browser \<Rightarrow> api_error + unit" where
  "addPasskeyFinish fetch credential b =
     (case getToken b of
        None \<Rightarrow> Inl StorageError
      | Some token \<Rightarrow>
          (case fetch (rawPost ''/api/v1/auth/passkeys/finish''
              [(js ''Authorization'', js ''Bearer '' @ (case token of Some t \<Rightarrow> t | None \<Rightarrow> js ''null''))]
              (JObj [(js ''credential'', credential)])) of
             None \<Rightarrow> Inl NetworkError
           | Some r \<Rightarrow> if \<not> rs_ok r then Inl (rawError ''Failed to add passkey'' r) else Inr ()))"

definition deletePasskey where
  "deletePasskey fetch i b = fetchApi fetch (js ''/auth/passkeys/'' @ i) (withMethod ''DELETE'') b"

definition createPasskeyEnrollment where
  "createPasskeyEnrollment fetch b = fetchApi fetch (js ''/auth/passkeys/enrollment'') (withMethod ''POST'') b"

definition enrollmentBegin where
  "enrollmentBegin fetch code b =
     fetchApi fetch (js ''/auth/passkeys/enrollment/'' @ code @ js ''/begin'') (withMethod ''POST'') b"

definition enrollmentComplete where
  "enrollmentComplete fetch code credential encryptedMasterKey b =
     fetchApi fetch (js ''/auth/passkeys/enrollment/'' @ code @ js ''/complete'')
       (withBody ''POST'' (JObj [(js ''credential'', credential), (js ''encrypted_master_key'', JStr encryptedMasterKey)])) b"

subsection \<open>encodeURIComponent and getMasterKey\<close>

text \<open>The unreserved marks, letters and digits are kept.\<close>

definition uriUnreserved :: "code_unit \<Rightarrow> bool" where
  "uriUnreserved u \<longleftrightarrow> (48 \<le> u \<and> u \<le> 57) \<or> (65 \<le> u \<and> u \<le> 90) \<or> (97 \<le> u \<and> u \<le> 122) \<or>
     u \<in> {0x2D, 0x5F, 0x2E, 0x21, 0x7E, 0x2A, 0x27, 0x28, 0x29}"

definition upperHex :: "nat \<Rightarrow> code_unit" where
  "upperHex n = (if n < 10 then 48 + word_of_nat n else 55 + word_of_nat n)"

definition percentByte :: "byte \<Rightarrow> jsstring" where
  "percentByte b = [0x25, upperHex (unat b div 16), upperHex (unat b mod 16)]"

text \<open>One code point; a lone surrogate is a \<open>URIError\<close>.\<close>

definition encodePoint :: "jsstring \<Rightarrow> jsstring option" where
  "encodePoint c =
     (case c of
        [u] \<Rightarrow> if uriUnreserved u then Some [u]
               else if isHighSurrogate u \<or> isLowSurrogate u then None
               else Some (concat (map percentByte (utf8_cp (codePointOf c))))
      | _ \<Rightarrow> Some (concat (map percentByte (utf8_cp (codePointOf c)))))"

fun concatOpt :: "'a list option list \<Rightarrow> 'a list option" where
  "concatOpt [] = Some []"
| "concatOpt (None # ys) = None"
| "concatOpt (Some x # ys) = map_option ((@) x) (concatOpt ys)"

definition encodeURIComponent :: "jsstring \<Rightarrow> jsstring option" where
  "encodeURIComponent s = concatOpt (map encodePoint (spread s))"

text \<open>A field that is a non-empty string or array: \<open>v && v.length > 0\<close>.\<close>

fun nonEmptyJ :: "json option \<Rightarrow> bool" where
  "nonEmptyJ (Some (JArr xs)) = (xs \<noteq> [])"
| "nonEmptyJ (Some (JStr s)) = (s \<noteq> [])"
| "nonEmptyJ v = False"

record master_key_answer =
  mk_blobs :: json
  mk_encrypted :: "json option"

definition masterKeyAnswer :: "json \<Rightarrow> master_key_answer" where
  "masterKeyAnswer resp =
     \<lparr>mk_blobs = (if nonEmptyJ (jfield (js ''blobs'') resp) then the (jfield (js ''blobs'') resp)
                   else if nonEmptyJ (jfield (js ''encrypted_master_key'') resp)
                        then JArr [the (jfield (js ''encrypted_master_key'') resp)] else JArr []),
      mk_encrypted = jfield (js ''encrypted_master_key'') resp\<rparr>"

definition masterKeyQuery :: "jsstring option \<Rightarrow> jsstring option" where
  "masterKeyQuery credentialId =
     (case credentialId of
        Some c \<Rightarrow> if c = [] then Some [] else map_option ((@) (js ''?credential_id='')) (encodeURIComponent c)
      | None \<Rightarrow> Some [])"

definition getMasterKey :: "server \<Rightarrow> jsstring option \<Rightarrow> browser \<Rightarrow> (api_error + master_key_answer) \<times> browser" where
  "getMasterKey fetch credentialId b =
     (case masterKeyQuery credentialId of
        None \<Rightarrow> (Inl UriError, b)
      | Some query \<Rightarrow>
          (case fetchApi fetch (js ''/auth/master-key'' @ query) noOptions b of
             (Inl e, b') \<Rightarrow> (Inl e, b')
           | (Inr resp, b') \<Rightarrow> (Inr (masterKeyAnswer resp), b')))"

definition addMasterKeyBlob where
  "addMasterKeyBlob fetch credentialId wrappedMasterKey b =
     voidResult (fetchApi fetch (js ''/auth/master-key'')
       (withBody ''POST'' (JObj [(js ''credential_id'', JStr credentialId), (js ''wrapped_master_key'', JStr wrappedMasterKey)])) b)"

subsection \<open>Socket URLs\<close>

definition wsBase :: "browser \<Rightarrow> jsstring" where
  "wsBase b = (if br_protocol b = js ''https:'' then js ''wss:'' else js ''ws:'') @ js ''//'' @ br_host b"

definition getEnrollmentWebSocketURL :: "jsstring \<Rightarrow> jsstring option \<Rightarrow> browser \<Rightarrow> jsstring option" where
  "getEnrollmentWebSocketURL code token b =
     (let base = wsBase b @ js ''/api/v1/auth/passkeys/enrollment/'' @ code
      in case token of
           Some t \<Rightarrow> if t \<noteq> [] then map_option (\<lambda>e. base @ js ''?token='' @ e) (encodeURIComponent t) else Some base
         | None \<Rightarrow> Some base)"

definition getWsEndpoint :: "browser \<Rightarrow> jsstring" where
  "getWsEndpoint b = wsBase b @ js ''/api/v1/sessions/updates''"

definition getSSHWebSocketURL :: "int \<Rightarrow> browser \<Rightarrow> jsstring" where
  "getSSHWebSocketURL hostId b = wsBase b @ js ''/api/v1/hosts/'' @ showInt hostId @ js ''/ssh''"

definition getSSHCASigningWebSocketURL :: "browser \<Rightarrow> jsstring" where
  "getSSHCASigningWebSocketURL b = wsBase b @ js ''/api/v1/sshca/sign''"

subsection \<open>Hosts, pairing, SSH CA, quick keys\<close>

text \<open>Where the source stringifies an object its caller built, the argument is that object.\<close>

definition listHosts where
  "listHosts fetch b = fetchApi fetch (js ''/hosts'') noOptions b"

definition createHost where
  "createHost fetch h b = fetchApi fetch (js ''/hosts'') (withBody ''POST'' h) b"

definition getHost where
  "getHost fetch i b = fetchApi fetch (js ''/hosts/'' @ showInt i) noOptions b"

definition updateHost where
  "updateHost fetch i h b = fetchApi fetch (js ''/hosts/'' @ showInt i) (withBody ''PUT'' h) b"

definition deleteHost where
  "deleteHost fetch i b = fetchApi fetch (js ''/hosts/'' @ showInt i) (withMethod ''DELETE'') b"

definition pairExchange where
  "pairExchange fetch code hostId newHost b =
     fetchApi fetch (js ''/auth/pair/exchange'')
       (withBody ''POST'' (JObj ([(js ''code'', JStr code)] @ optMember ''host_id'' (map_option (JNum \<circ> showInt) hostId) @
          optMember ''new_host'' newHost))) b"

definition getSSHCAConfig where
  "getSSHCAConfig fetch b = fetchApi fetch (js ''/sshca/config'') noOptions b"

definition getSSHCAPublicKey where
  "getSSHCAPublicKey fetch b = fetchApi fetch (js ''/sshca/public-key'') noOptions b"

definition updateSSHCAClientShare where
  "updateSSHCAClientShare fetch encryptedShare b =
     voidResult (fetchApi fetch (js ''/sshca/client-share'') (withBody ''PUT'' (JObj [(js ''encrypted_share'', JStr encryptedShare)])) b)"

definition listQuickKeys where
  "listQuickKeys fetch b = fetchApi fetch (js ''/quick-keys'') noOptions b"

definition createQuickKey where
  "createQuickKey fetch qk b = fetchApi fetch (js ''/quick-keys'') (withBody ''POST'' qk) b"

definition updateQuickKey where
  "updateQuickKey fetch i qk b = fetchApi fetch (js ''/quick-keys/'' @ showInt i) (withBody ''PUT'' qk) b"

definition deleteQuickKey where
  "deleteQuickKey fetch i b = fetchApi fetch (js ''/quick-keys/'' @ showInt i) (withMethod ''DELETE'') b"

subsection \<open>The contract of a call\<close>

definition authOf :: "http_request \<Rightarrow> jsstring option" where
  "authOf q = map_of (rq_headers q) (js ''Authorization'')"

definition bearerOf :: "browser \<Rightarrow> jsstring option" where
  "bearerOf b = (case getToken b of Some (Some t) \<Rightarrow> if t = [] then None else Some (js ''Bearer '' @ t) | _ \<Rightarrow> None)"

locale rest_call =
  fixes call :: "server \<Rightarrow> browser \<Rightarrow> (api_error + 'a) \<times> browser"
  assumes frame: "snd (call fetch b) = b \<or> snd (call fetch b) = snd (expireSession b)"
    and credentials: "(\<And>q. authOf q = bearerOf b \<Longrightarrow> fetch q = fetch' q) \<Longrightarrow> call fetch b = call fetch' b"
    and expiry: "fst (call fetch b) = Inl Unauthorized \<Longrightarrow>
          snd (call fetch b) = snd (expireSession b) \<and> ls_available (br_storage b)"
begin

lemma anonymous:
  "bearerOf b = None \<Longrightarrow> call fetch b = call (\<lambda>q. if authOf q \<noteq> None then None else fetch q) b"
  by (rule credentials) simp

end

subsection \<open>All calls that go through fetchApi\<close>

datatype api_op =
    CheckUsersExist | LoginBegin jsstring | RegisterBegin jsstring | PairStart jsstring | PairComplete jsstring
  | GetSettings | UpdateSettings "jsstring option" | ListSessions | GetSession jsstring | DeleteStaleSessions
  | DeleteSession jsstring | ReorderSessions "jsstring list" | UpdateSessionTags jsstring "jsstring list"
  | ListPasskeys | AddPasskeyBegin | DeletePasskey jsstring | CreatePasskeyEnrollment | EnrollmentBegin jsstring
  | EnrollmentComplete jsstring json jsstring | GetMasterKey "jsstring option" | AddMasterKeyBlob jsstring jsstring
  | ListHosts | CreateHost json | GetHost int | UpdateHost int json | DeleteHost int
  | PairExchange jsstring "int option" "json option" | GetSSHCAConfig | GetSSHCAPublicKey
  | UpdateSSHCAClientShare jsstring | ListQuickKeys | CreateQuickKey json | UpdateQuickKey int json | DeleteQuickKey int

fun runOp :: "api_op \<Rightarrow> server \<Rightarrow> browser \<Rightarrow> (api_error + unit) \<times> browser" where
  "runOp CheckUsersExist fetch b = voidResult (checkUsersExist fetch b)"
| "runOp (LoginBegin e) fetch b = voidResult (loginBegin fetch e b)"
| "runOp (RegisterBegin e) fetch b = voidResult (registerBegin fetch e b)"
| "runOp (PairStart e) fetch b = voidResult (pairStart fetch e b)"
| "runOp (PairComplete c) fetch b = voidResult (pairComplete fetch c b)"
| "runOp GetSettings fetch b = voidResult (getSettings fetch b)"
| "runOp (UpdateSettings t) fetch b = voidResult (updateSettings fetch t b)"
| "runOp ListSessions fetch b = voidResult (listSessions fetch b)"
| "runOp (GetSession i) fetch b = voidResult (getSession fetch i b)"
| "runOp DeleteStaleSessions fetch b = voidResult (deleteStaleSessions fetch b)"
| "runOp (DeleteSession i) fetch b = deleteSession fetch i b"
| "runOp (ReorderSessions is) fetch b = reorderSessions fetch is b"
| "runOp (UpdateSessionTags i ts) fetch b = voidResult (updateSessionTags fetch i ts b)"
| "runOp ListPasskeys fetch b = voidResult (listPasskeys fetch b)"
| "runOp AddPasskeyBegin fetch b = voidResult (addPasskeyBegin fetch b)"
| "runOp (DeletePasskey i) fetch b = voidResult (deletePasskey fetch i b)"
| "runOp CreatePasskeyEnrollment fetch b = voidResult (createPasskeyEnrollment fetch b)"
| "runOp (EnrollmentBegin c) fetch b = voidResult (enrollmentBegin fetch c b)"
| "runOp (EnrollmentComplete c cr k) fetch b = voidResult (enrollmentComplete fetch c cr k b)"
| "runOp (GetMasterKey c) fetch b = voidResult (getMasterKey fetch c b)"
| "runOp (AddMasterKeyBlob c k) fetch b = addMasterKeyBlob fetch c k b"
| "runOp ListHosts fetch b = voidResult (listHosts fetch b)"
| "runOp (CreateHost h) fetch b = voidResult (createHost fetch h b)"
| "runOp (GetHost i) fetch b = voidResult (getHost fetch i b)"
| "runOp (UpdateHost i h) fetch b = voidResult (updateHost fetch i h b)"
| "runOp (DeleteHost i) fetch b = voidResult (deleteHost fetch i b)"
| "runOp (PairExchange c h n) fetch b = voidResult (pairExchange fetch c h n b)"
| "runOp GetSSHCAConfig fetch b = voidResult (getSSHCAConfig fetch b)"
| "runOp GetSSHCAPublicKey fetch b = voidResult (getSSHCAPublicKey fetch b)"
| "runOp (UpdateSSHCAClientShare s) fetch b = updateSSHCAClientShare fetch s b"
| "runOp ListQuickKeys fetch b = voidResult (listQuickKeys fetch b)"
| "runOp (CreateQuickKey q) fetch b = voidResult (createQuickKey fetch q b)"
| "runOp (UpdateQuickKey i q) fetch b = voidResult (updateQuickKey fetch i q b)"
| "runOp (DeleteQuickKey i) fetch b = voidResult (deleteQuickKey fetch i b)"

lemmas endpoint_defs =
  checkUsersExist_def loginBegin_def registerBegin_def pairStart_def pairComplete_def getSettings_def
  updateSettings_def listSessions_def getSession_def deleteStaleSessions_def deleteSession_def reorderSessions_def
  updateSessionTags_def listPasskeys_def addPasskeyBegin_def deletePasskey_def createPasskeyEnrollment_def
  enrollmentBegin_def enrollmentComplete_def addMasterKeyBlob_def listHosts_def createHost_def getHost_def
  updateHost_def deleteHost_def pairExchange_def getSSHCAConfig_def getSSHCAPublicKey_def
  updateSSHCAClientShare_def listQuickKeys_def createQuickKey_def updateQuickKey_def deleteQuickKey_def

definition plainOptions :: "request_init \<Rightarrow> bool" where
  "plainOptions opts \<longleftrightarrow> ri_headers opts = []"

lemma plainOptions_simps [simp]: "plainOptions noOptions" "plainOptions (withMethod m)" "plainOptions (withBody m v)"
  by (simp_all add: plainOptions_def withBody_def withMethod_def noOptions_def)

definition viaFetchApi :: "(server \<Rightarrow> browser \<Rightarrow> (api_error + unit) \<times> browser) \<Rightarrow> bool" where
  "viaFetchApi call \<longleftrightarrow>
     (\<exists>endpoint opts. plainOptions opts \<and> (\<forall>fetch b. call fetch b = voidResult (fetchApi fetch endpoint opts b)))"

lemma viaFetchApiI:
  "plainOptions opts \<Longrightarrow> (\<And>fetch b. call fetch b = voidResult (fetchApi fetch endpoint opts b)) \<Longrightarrow> viaFetchApi call"
  unfolding viaFetchApi_def by blast

lemma getMasterKey_shape:
  "masterKeyQuery c = Some q \<Longrightarrow>
     voidResult (getMasterKey fetch c b) = voidResult (fetchApi fetch (js ''/auth/master-key'' @ q) noOptions b)"
  by (cases "fetchApi fetch (js ''/auth/master-key'' @ q) noOptions b")
    (auto simp: getMasterKey_def voidResult_def split: sum.splits)

lemma runOp_shape: "viaFetchApi (runOp op) \<or> (\<forall>fetch b. runOp op fetch b = (Inl UriError, b))"
proof (cases "\<exists>c. op = GetMasterKey c")
  case True
  then obtain c where op: "op = GetMasterKey c" by blast
  show ?thesis
  proof (cases "masterKeyQuery c")
    case None
    then show ?thesis by (simp add: op getMasterKey_def voidResult_def)
  next
    case (Some q)
    have "viaFetchApi (runOp op)"
      by (rule viaFetchApiI [of noOptions _ "js ''/auth/master-key'' @ q"]) (simp_all add: op getMasterKey_shape [OF Some])
    then show ?thesis ..
  qed
next
  case False
  then have "viaFetchApi (runOp op)"
    by (cases op) (auto intro!: viaFetchApiI simp only: runOp.simps endpoint_defs plainOptions_simps)
  then show ?thesis ..
qed

lemma putKey_lookup: "map_of (putKey k v kvs) k' = (if k' = k then Some v else map_of kvs k')"
  by (induction kvs) auto

lemma authOf_apiRequest:
  "plainOptions opts \<Longrightarrow> getToken b = Some token \<Longrightarrow> authOf (apiRequest endpoint opts token) = bearerOf b"
  by (auto simp: authOf_def apiRequest_def apiHeaders_def plainOptions_def bearerOf_def putKey_lookup split: option.splits)

lemma fetchApi_credentials:
  assumes "plainOptions opts" and "\<And>q. authOf q = bearerOf b \<Longrightarrow> fetch q = fetch' q"
  shows "fetchApi fetch endpoint opts b = fetchApi fetch' endpoint opts b"
proof (cases "getToken b")
  case (Some token)
  then have "fetch (apiRequest endpoint opts token) = fetch' (apiRequest endpoint opts token)"
    using assms(2) authOf_apiRequest [OF assms(1) Some] by blast
  then show ?thesis by (simp add: fetchApi_def Some)
qed (simp add: fetchApi_def)

lemma readResponse_not_401: "readResponse r \<noteq> Inl Unauthorized"
  by (auto simp: readResponse_def jsonE_def split: option.splits)

lemma fetchApi_frame:
  "snd (fetchApi fetch endpoint opts b) = b \<or> snd (fetchApi fetch endpoint opts b) = snd (expireSession b)"
  by (auto simp: fetchApi_def split: option.splits)

lemma expireSession_available: "fst (expireSession b) = Inl Unauthorized \<Longrightarrow> ls_available (br_storage b)"
  by (auto simp: expireSession_def removeItem_def split: option.splits if_splits)

lemma fetchApi_expiry:
  "fst (fetchApi fetch endpoint opts b) = Inl Unauthorized \<Longrightarrow>
     snd (fetchApi fetch endpoint opts b) = snd (expireSession b) \<and> ls_available (br_storage b)"
  by (auto simp: fetchApi_def readResponse_not_401 split: option.splits if_splits intro: expireSession_available)

lemma voidResult_simps [simp]: "snd (voidResult rb) = snd rb" "fst (voidResult rb) = Inl e \<longleftrightarrow> fst rb = Inl e"
  by (cases rb; cases "fst rb"; auto simp: voidResult_def)+

interpretation api: rest_call "runOp op" for op
proof
  fix fetch b
  show "snd (runOp op fetch b) = b \<or> snd (runOp op fetch b) = snd (expireSession b)"
    using runOp_shape [of op] by (metis fetchApi_frame snd_conv viaFetchApi_def voidResult_simps(1))
  show "snd (runOp op fetch b) = snd (expireSession b) \<and> ls_available (br_storage b)"
    if "fst (runOp op fetch b) = Inl Unauthorized"
    using runOp_shape [of op] fetchApi_expiry that by (auto simp: viaFetchApi_def)
  show "runOp op fetch b = runOp op fetch' b" if "\<And>q. authOf q = bearerOf b \<Longrightarrow> fetch q = fetch' q" for fetch'
    using runOp_shape [of op] fetchApi_credentials [OF _ that] by (auto simp: viaFetchApi_def)
qed

subsection \<open>Sessions that expire\<close>

text \<open>A sequence of calls, each with the server it meets.\<close>

fun runOps :: "(api_op \<times> server) list \<Rightarrow> browser \<Rightarrow> browser" where
  "runOps [] b = b"
| "runOps ((op, fetch) # calls) b = runOps calls (snd (runOp op fetch b))"

definition loggedOut :: "browser \<Rightarrow> bool" where
  "loggedOut b \<longleftrightarrow> ls_available (br_storage b) \<and> ls_items (br_storage b) (js ''token'') = None \<and>
     ls_items (br_storage b) (js ''user'') = None"

lemma expireSession_result:
  "ls_available (br_storage b) \<Longrightarrow>
     expireSession b = (Inl Unauthorized, b\<lparr>br_storage := (br_storage b)\<lparr>ls_items :=
       (ls_items (br_storage b))(js ''token'' := None, js ''user'' := None)\<rparr>, br_href := Some (js ''/login'')\<rparr>)"
  by (simp add: expireSession_def removeItem_def)

lemma expireSession_loggedOut: "ls_available (br_storage b) \<Longrightarrow> loggedOut (snd (expireSession b))"
  by (simp add: expireSession_result loggedOut_def)

lemma loggedOut_bearer: "loggedOut b \<Longrightarrow> bearerOf b = None"
  by (simp add: loggedOut_def bearerOf_def getToken_def getItem_def)

lemma loggedOut_runOps: "loggedOut b \<Longrightarrow> loggedOut (runOps calls b)"
proof (induction calls b rule: runOps.induct)
  case (2 op fetch calls b)
  then have "loggedOut (snd (runOp op fetch b))"
    using api.frame [of op fetch b] expireSession_loggedOut [of b] by (auto simp: loggedOut_def)
  with 2 show ?case by simp
qed simp



subsection \<open>The credential in the query\<close>

text \<open>What a server does with a query value: percent-decoding to bytes.\<close>

definition upperHexVal :: "code_unit \<Rightarrow> nat" where
  "upperHexVal u = (if u \<le> 57 then unat u - 48 else unat u - 55)"

fun percentDecode :: "jsstring \<Rightarrow> bytes" where
  "percentDecode [] = []"
| "percentDecode (u # us) =
     (if u = 0x25 then (case us of a # b # r \<Rightarrow> word_of_nat (upperHexVal a * 16 + upperHexVal b) # percentDecode r | _ \<Rightarrow> [])
      else ucast u # percentDecode us)"

lemma upperHex_table:
  "list_all (\<lambda>n. upperHexVal (upperHex n) = n \<and> uriUnreserved (upperHex n)) [0..<16]"
  by code_simp

lemma upperHex_val: "n < 16 \<Longrightarrow> upperHexVal (upperHex n) = n \<and> uriUnreserved (upperHex n)"
  using upperHex_table by (simp add: list_all_iff)

lemma nibble_bounds: "unat (b :: byte) div 16 < 16" "unat (b :: byte) mod 16 < 16"
  using unat_byte [of b] by (simp_all add: less_mult_imp_div_less)

lemma nibbles_word: "word_of_nat (unat b div 16) * 16 + word_of_nat (unat b mod 16) = (b :: byte)"
proof -
  have "word_of_nat (unat b div 16) * 16 + word_of_nat (unat b mod 16) = (word_of_nat (unat b div 16 * 16 + unat b mod 16) :: byte)"
    by (simp only: of_nat_add of_nat_mult of_nat_numeral)
  then show ?thesis by (simp only: div_mult_mod_eq) simp
qed

lemma percentDecode_byte: "percentDecode (percentByte b @ r) = b # percentDecode r"
  using upperHex_val [OF nibble_bounds(1) [of b]] upperHex_val [OF nibble_bounds(2) [of b]]
  by (simp add: percentByte_def nibbles_word)

lemma percentDecode_bytes: "percentDecode (concat (map percentByte bs) @ r) = bs @ percentDecode r"
  by (induction bs) (simp_all add: percentDecode_byte)

lemma unreserved_ascii: "uriUnreserved u \<Longrightarrow> u < 0x80 \<and> u \<noteq> 0x25"
proof -
  assume "uriUnreserved u"
  then have "u \<le> 122 \<or> u = 0x7E" "u \<noteq> 0x25"
    by (auto simp: uriUnreserved_def intro: order_trans)
  then show ?thesis by (auto intro: le_less_trans)
qed

lemma utf8_unreserved: "uriUnreserved u \<Longrightarrow> utf8_cp (codePointOf [u]) = [ucast u]"
  using unreserved_ascii [of u] textEncode_ascii [of "[u]"] by (simp add: textEncode_def)

lemma encodePoint_shape:
  "encodePoint c = Some e \<Longrightarrow>
     (\<exists>u. c = [u] \<and> uriUnreserved u \<and> e = [u]) \<or> e = concat (map percentByte (utf8_cp (codePointOf c)))"
  by (auto simp: encodePoint_def split: list.splits if_splits)

lemma percentDecode_point:
  "encodePoint c = Some e \<Longrightarrow> percentDecode (e @ r) = utf8_cp (codePointOf c) @ percentDecode r"
  using encodePoint_shape [of c e] by (auto simp: utf8_unreserved percentDecode_bytes dest: unreserved_ascii)

lemma percentByte_safe: "list_all (\<lambda>u. uriUnreserved u \<or> u = 0x25) (percentByte b)"
  using upperHex_val [OF nibble_bounds(1) [of b]] upperHex_val [OF nibble_bounds(2) [of b]] by (simp add: percentByte_def)

lemma encodePoint_safe: "encodePoint c = Some e \<Longrightarrow> list_all (\<lambda>u. uriUnreserved u \<or> u = 0x25) e"
  by (drule encodePoint_shape, elim disjE exE conjE)
    (use percentByte_safe in \<open>fastforce simp: list_all_iff\<close>)+

lemma concatOpt_points:
  "concatOpt (map encodePoint cs) = Some e \<Longrightarrow>
     percentDecode e = concat (map (utf8_cp \<circ> codePointOf) cs) \<and> list_all (\<lambda>u. uriUnreserved u \<or> u = 0x25) e"
proof (induction cs arbitrary: e)
  case (Cons c cs)
  then obtain a r where ar: "encodePoint c = Some a" "concatOpt (map encodePoint cs) = Some r" "e = a @ r"
    by (cases "encodePoint c") auto
  then show ?case using Cons.IH [OF ar(2)] percentDecode_point [OF ar(1)] encodePoint_safe [OF ar(1)] by simp
qed simp

lemma concatOpt_total: "list_all (\<lambda>c. encodePoint c \<noteq> None) cs \<Longrightarrow> \<exists>e. concatOpt (map encodePoint cs) = Some e"
  by (induction cs) auto

definition wellFormed :: "jsstring \<Rightarrow> bool" where
  "wellFormed s \<longleftrightarrow> list_all (\<lambda>c. case c of [u] \<Rightarrow> \<not> isHighSurrogate u \<and> \<not> isLowSurrogate u | _ \<Rightarrow> True) (spread s)"

lemma encodeURIComponent_total: "wellFormed s \<Longrightarrow> \<exists>e. encodeURIComponent s = Some e"
  unfolding encodeURIComponent_def wellFormed_def
  by (rule concatOpt_total) (auto simp: list_all_iff encodePoint_def split: list.splits)

text \<open>A credential id cannot change the shape of the request for the master key. For a well-formed
  credential id the query is built, holds nothing but unreserved characters and percent signs after its
  name, and percent-decoding gives the UTF-8 of the credential id.\<close>

theorem master_key_query:
  assumes "wellFormed c" and "c \<noteq> []"
  shows "\<exists>e. masterKeyQuery (Some c) = Some (js ''?credential_id='' @ e) \<and> percentDecode e = textEncode c \<and>
    list_all (\<lambda>u. uriUnreserved u \<or> u = 0x25) e"
proof -
  obtain e where e: "encodeURIComponent c = Some e" using encodeURIComponent_total [OF assms(1)] ..
  then have "percentDecode e = textEncode c \<and> list_all (\<lambda>u. uriUnreserved u \<or> u = 0x25) e"
    using concatOpt_points unfolding encodeURIComponent_def textEncode_def by blast
  then show ?thesis using e assms(2) by (simp add: masterKeyQuery_def)
qed

theorem master_key_query_witness:
  "wellFormed [97, 38, 98] \<and> encodeURIComponent [97, 38, 98] = Some [97, 37, 50, 54, 98] \<and>
     (\<exists>e. masterKeyQuery (Some [97, 38, 98]) = Some (js ''?credential_id='' @ e) \<and> percentDecode e = textEncode [97, 38, 98])"
proof -
  have w: "wellFormed [97, 38, 98]" by (simp add: wellFormed_def isHighSurrogate_def isLowSurrogate_def)
  moreover have "encodeURIComponent [97, 38, 98] = Some [97, 37, 50, 54, 98]"
    by (simp add: encodeURIComponent_def encodePoint_def uriUnreserved_def isHighSurrogate_def isLowSurrogate_def
        utf8_cp_def codePointOf_def percentByte_def upperHex_def)
  ultimately show ?thesis using master_key_query [OF w] by auto
qed

end
