(* ===== verification/Sessions.thy ===== *)
theory Sessions
  imports Json
begin

text \<open>
  The session data of \<open>web/src/types/api.ts\<close>, the helpers of \<open>web/src/lib/session.ts\<close>, and what the
  pages do with the stream of session updates. A list of sessions in React state is a list of rows,
  because the pages' reordering can leave an object that has nothing but a \<open>seq\<close>.
  The locale \<open>update_log\<close> is the contract of a list kept by a stream of keyed updates: its client
  lemma says that what is listed for a key is the effect of the last update with that key.
\<close>

subsection \<open>Data\<close>

record host =
  ho_id :: int
  ho_label :: jsstring
  ho_hostname :: jsstring
  ho_ssh_user :: jsstring
  ho_ssh_port :: int
  ho_ssh_principal :: jsstring

record session =
  se_id :: jsstring
  se_user_id :: int
  se_host_id :: int
  se_host :: "host option"
  se_name :: jsstring
  se_started_at :: jsstring
  se_last_ping_at :: "jsstring option"
  se_last_activity_at :: "jsstring option"
  se_ended_at :: "jsstring option"
  se_metadata :: "jsstring option"
  se_seq :: "int option"
  se_tags :: "jsstring list option"

datatype update_event = EvStart | EvPing | EvActivity | EvEnd | EvMeta | EvTags | EvClipboard | EvDelete

record session_update =
  su_event :: update_event
  su_session_id :: jsstring
  su_session :: "session option"
  su_clipboard :: "jsstring option"

datatype row = Row session | SeqOnly int

fun rowId :: "row \<Rightarrow> jsstring option" where
  "rowId (Row s) = Some (se_id s)"
| "rowId (SeqOnly n) = None"

fun rowSeq :: "row \<Rightarrow> int" where
  "rowSeq (Row s) = (case se_seq s of Some n \<Rightarrow> n | None \<Rightarrow> 0)"
| "rowSeq (SeqOnly n) = n"

subsection \<open>session.ts\<close>

definition sortBySeq :: "row list \<Rightarrow> row list" where
  "sortBySeq rows = sort_key rowSeq rows"

definition truthy :: "jsstring option \<Rightarrow> bool" where
  "truthy s \<longleftrightarrow> s \<noteq> None \<and> s \<noteq> Some []"

text \<open>\<open>getTime\<close> is \<open>new Date(s).getTime()\<close>, \<open>None\<close> for NaN, which compares false.\<close>

definition isActive :: "(jsstring \<Rightarrow> int option) \<Rightarrow> int \<Rightarrow> session \<Rightarrow> bool" where
  "isActive getTime now s =
     (if truthy (se_ended_at s) then False
      else if \<not> truthy (se_last_activity_at s) then False
      else (case getTime (the (se_last_activity_at s)) of
              Some t \<Rightarrow> now - t < 5000 | None \<Rightarrow> False))"

definition matchesNewSession :: "session_update \<Rightarrow> int \<Rightarrow> jsstring \<Rightarrow> bool" where
  "matchesNewSession update hostId name =
     (if su_event update = EvEnd \<or> su_event update = EvClipboard then False
      else (case su_session update of
              Some s \<Rightarrow> se_host_id s = hostId \<and> se_name s = name | None \<Rightarrow> False))"

text \<open>\<open>String(v)\<close> of a parsed value; \<open>showNum\<close> is the language's rendering of a number literal.\<close>

fun toStringJ :: "(jsstring \<Rightarrow> jsstring) \<Rightarrow> json \<Rightarrow> jsstring" where
  "toStringJ showNum JNull = js ''null''"
| "toStringJ showNum (JBool b) = (if b then js ''true'' else js ''false'')"
| "toStringJ showNum (JNum n) = showNum n"
| "toStringJ showNum (JStr s) = s"
| "toStringJ showNum (JArr xs) = join (js '','') (map (\<lambda>x. if x = JNull then [] else toStringJ showNum x) xs)"
| "toStringJ showNum (JObj ms) = js ''[object Object]''"

definition statusMetadata :: "(jsstring \<Rightarrow> jsstring) \<Rightarrow> jsstring option \<Rightarrow> jsstring option" where
  "statusMetadata showNum metadata =
     (if \<not> truthy metadata then None
      else (case jsonParse (the metadata) of
              None \<Rightarrow> None
            | Some parsed \<Rightarrow>
                (case jfield (js ''status'') parsed of
                   None \<Rightarrow> None
                 | Some v \<Rightarrow> if v = JNull \<or> v = JStr [] then None else Some (toStringJ showNum v))))"

subsection \<open>Keeping a list by updates\<close>

text \<open>\<open>prev.map(s => s.id === id ? session : s)\<close>, \<open>prev.filter(s => s.id !== id)\<close> and the upsert the
  pages build from them.\<close>

definition replaceRow :: "session \<Rightarrow> row list \<Rightarrow> row list" where
  "replaceRow s rows = map (\<lambda>r. if rowId r = Some (se_id s) then Row s else r) rows"

definition removeRow :: "jsstring \<Rightarrow> row list \<Rightarrow> row list" where
  "removeRow i rows = filter (\<lambda>r. rowId r \<noteq> Some i) rows"

definition upsertRow :: "session \<Rightarrow> row list \<Rightarrow> row list" where
  "upsertRow s rows =
     (if list_ex (\<lambda>r. rowId r = Some (se_id s)) rows then replaceRow s rows else Row s # rows)"

text \<open>\<open>update.session?.id\<close>, when truthy.\<close>

definition updateKey :: "session_update \<Rightarrow> jsstring option" where
  "updateKey u = (case su_session u of Some s \<Rightarrow> if se_id s = [] then None else Some (se_id s) | None \<Rightarrow> None)"

definition lookupRow :: "jsstring \<Rightarrow> row list \<Rightarrow> session option" where
  "lookupRow i rows = (case find (\<lambda>r. rowId r = Some i) rows of Some (Row s) \<Rightarrow> Some s | _ \<Rightarrow> None)"

text \<open>The contract of a store kept by keyed updates, and last-write-wins.\<close>

locale update_log =
  fixes apply_u :: "'u \<Rightarrow> 'st \<Rightarrow> 'st"
    and key :: "'u \<Rightarrow> 'k option"
    and effect :: "'u \<Rightarrow> 'v option"
    and look :: "'st \<Rightarrow> 'k \<Rightarrow> 'v option"
  assumes ignored: "key u = None \<Longrightarrow> apply_u u st = st"
    and hit: "key u = Some k \<Longrightarrow> look (apply_u u st) k = effect u"
    and miss: "key u = Some k \<Longrightarrow> k' \<noteq> k \<Longrightarrow> look (apply_u u st) k' = look st k'"
begin

lemma look_apply: "look (apply_u u st) k = (if key u = Some k then effect u else look st k)"
  by (cases "key u") (auto simp: ignored hit miss)

lemma last_write_wins:
  "look (fold apply_u us st) k =
     (case filter (\<lambda>u. key u = Some k) us of [] \<Rightarrow> look st k | vs \<Rightarrow> effect (last vs))"
proof (induction us rule: rev_induct)
  case (snoc u us)
  then show ?case by (auto simp: look_apply split: list.splits)
qed simp

end

subsection \<open>Laws\<close>

lemma lookupRow_simps [simp]:
  "lookupRow k [] = None"
  "lookupRow k (Row s # rows) = (if se_id s = k then Some s else lookupRow k rows)"
  "lookupRow k (SeqOnly n # rows) = lookupRow k rows"
  by (simp_all add: lookupRow_def)

lemma rowId_Row: "rowId r = Some i \<longleftrightarrow> (\<exists>s. r = Row s \<and> se_id s = i)"
  by (cases r) auto

lemma lookupRow_None: "lookupRow k rows = None \<longleftrightarrow> Some k \<notin> set (map rowId rows)"
proof (induction rows)
  case (Cons r rows)
  then show ?case by (cases r) auto
qed simp

lemma lookupRow_remove: "lookupRow k (removeRow i rows) = (if k = i then None else lookupRow k rows)"
proof (induction rows)
  case (Cons r rows)
  then show ?case by (cases r) (auto simp: removeRow_def)
qed (simp add: removeRow_def)

lemma lookupRow_replace:
  "lookupRow k (replaceRow s rows) =
     (if k = se_id s \<and> lookupRow k rows \<noteq> None then Some s else lookupRow k rows)"
proof (induction rows)
  case (Cons r rows)
  then show ?case by (cases r) (auto simp: replaceRow_def)
qed (simp add: replaceRow_def)

lemma hasRow: "list_ex (\<lambda>r. rowId r = Some k) rows \<longleftrightarrow> lookupRow k rows \<noteq> None"
  unfolding lookupRow_None by (auto simp: list_ex_iff image_iff) metis

lemma lookupRow_upsert: "lookupRow k (upsertRow s rows) = (if k = se_id s then Some s else lookupRow k rows)"
  by (auto simp: upsertRow_def hasRow lookupRow_replace)

lemma map_rowId_replace: "map rowId (replaceRow s rows) = map rowId rows"
  by (simp add: replaceRow_def)

lemma map_rowId_upsert:
  "map rowId (upsertRow s rows) =
     (if lookupRow (se_id s) rows \<noteq> None then map rowId rows else Some (se_id s) # map rowId rows)"
  by (simp add: upsertRow_def hasRow map_rowId_replace)

end
