(* ===== verification/Reorder.thy ===== *)
theory Reorder
  imports JsText
begin

text \<open>
  Reordering lists by dragging: the native drag-and-drop hook (\<open>web/src/hooks/useDragReorder.ts\<close>)
  and the pointer hook (\<open>web/src/hooks/usePointerReorder.ts\<close>), each as its state and one definition
  per event handler. What the pages rely on is the locale \<open>reorder_hook\<close>: whatever a hook reports is
  a permutation of the ids it was given.
\<close>

type_synonym sid = jsstring

subsection \<open>useDragReorder\<close>

record drag_state =
  dr_dragging :: "sid option"      \<comment> \<open>\<open>draggingRef\<close> and the \<open>draggingId\<close> state, always set together\<close>
  dr_overId :: "sid option"

definition idle_drag :: drag_state where
  "idle_drag = \<lparr>dr_dragging = None, dr_overId = None\<rparr>"

text \<open>\<open>finish(targetId)\<close>: the new state, and the ids passed to \<open>onReorder\<close> when it is called. An empty
  id is falsy.\<close>

definition truthyId :: "sid option \<Rightarrow> sid option" where
  "truthyId r = (case r of Some i \<Rightarrow> if i = [] then None else Some i | None \<Rightarrow> None)"

definition finish :: "sid list \<Rightarrow> sid option \<Rightarrow> drag_state \<Rightarrow> drag_state \<times> sid list option" where
  "finish orderedIds targetId s =
     (idle_drag,
      case (truthyId (dr_dragging s), truthyId targetId) of
        (Some dragId, Some target) \<Rightarrow>
          if dragId \<noteq> target then
            (case (indexOf orderedIds dragId, indexOf orderedIds target) of
               (Some from, Some to) \<Rightarrow> Some (splice_move orderedIds from to)
             | _ \<Rightarrow> None)
          else None
      | _ \<Rightarrow> None)"

definition onDragStart :: "sid \<Rightarrow> drag_state \<Rightarrow> drag_state" where
  "onDragStart i s = s\<lparr>dr_dragging := Some i\<rparr>"

definition onDragEnd :: "sid list \<Rightarrow> drag_state \<Rightarrow> drag_state \<times> sid list option" where
  "onDragEnd orderedIds s = finish orderedIds None s"

definition onDragEnter :: "sid \<Rightarrow> drag_state \<Rightarrow> drag_state" where
  "onDragEnter i s = (if truthyId (dr_dragging s) \<noteq> None \<and> dr_dragging s \<noteq> Some i then s\<lparr>dr_overId := Some i\<rparr> else s)"

definition onDrop :: "sid list \<Rightarrow> sid \<Rightarrow> drag_state \<Rightarrow> drag_state \<times> sid list option" where
  "onDrop orderedIds i s = finish orderedIds (Some i) s"

subsection \<open>usePointerReorder\<close>

record pointer_state =
  po_dragging :: "sid option"
  po_order :: "sid list"           \<comment> \<open>\<open>orderRef\<close> and the \<open>order\<close> state, always set together\<close>

definition bar :: jsstring where "bar = js ''|''"

text \<open>The effect that mirrors the input order while nothing is dragged.\<close>

definition syncOrder :: "sid list \<Rightarrow> pointer_state \<Rightarrow> pointer_state" where
  "syncOrder ids s =
     (if truthyId (po_dragging s) = None \<and> join bar ids \<noteq> join bar (po_order s) then s\<lparr>po_order := ids\<rparr> else s)"

definition pointerDown :: "sid list \<Rightarrow> sid \<Rightarrow> pointer_state \<Rightarrow> pointer_state" where
  "pointerDown ids i s = s\<lparr>po_order := ids, po_dragging := Some i\<rparr>"

text \<open>The vertical midpoint of every row, doubled to stay an integer: the first row whose midpoint is
  below the pointer, else the last one.\<close>

fun targetIndex :: "int \<Rightarrow> (int \<times> int) list \<Rightarrow> nat \<Rightarrow> nat option" where
  "targetIndex y [] i = None"
| "targetIndex y ((rtop, rheight) # rects) i = (if 2 * y < 2 * rtop + rheight then Some i else targetIndex y rects (Suc i))"

definition pointerMove :: "sid \<Rightarrow> int \<Rightarrow> (int \<times> int) list \<Rightarrow> pointer_state \<Rightarrow> pointer_state" where
  "pointerMove i y rects s =
     (if rects = [] then s
      else let target = (case targetIndex y rects 0 of Some t \<Rightarrow> t | None \<Rightarrow> length rects - 1)
           in case indexOf (po_order s) i of
                None \<Rightarrow> s
              | Some from \<Rightarrow> if from = target then s else s\<lparr>po_order := splice_move (po_order s) from target\<rparr>)"

definition pointerEnd :: "sid list \<Rightarrow> pointer_state \<Rightarrow> pointer_state \<times> sid list option" where
  "pointerEnd ids s =
     (s\<lparr>po_dragging := None\<rparr>,
      if join bar (po_order s) \<noteq> join bar ids then Some (po_order s) else None)"

text \<open>A whole drag: grab row \<open>i\<close>, any sequence of moves (pointer position and the rows on screen),
  release. \<open>ids'\<close> are the ids at release, which may have changed meanwhile.\<close>

definition pointerDrag ::
  "sid list \<Rightarrow> sid \<Rightarrow> (int \<times> (int \<times> int) list) list \<Rightarrow> sid list \<Rightarrow> pointer_state \<Rightarrow> pointer_state \<times> sid list option" where
  "pointerDrag ids i moves ids' s =
     pointerEnd ids' (fold (\<lambda>(y, rects). pointerMove i y rects) moves (pointerDown ids i s))"

subsection \<open>The contract\<close>

text \<open>\<open>emits ids ids'\<close>: the hook, rendered with \<open>ids\<close>, may call \<open>onReorder(ids')\<close>.\<close>

locale reorder_hook =
  fixes emits :: "sid list \<Rightarrow> sid list \<Rightarrow> bool"
  assumes emits_perm: "emits ids ids' \<Longrightarrow> mset ids' = mset ids"
begin

lemma emits_set: "emits ids ids' \<Longrightarrow> set ids' = set ids"
  using emits_perm by (metis set_mset_mset)

lemma emits_distinct: "emits ids ids' \<Longrightarrow> distinct ids \<Longrightarrow> distinct ids'"
  using emits_perm distinct_mset_eq by metis

end

definition dragEmits :: "sid list \<Rightarrow> sid list \<Rightarrow> bool" where
  "dragEmits ids ids' \<longleftrightarrow> (\<exists>t s. snd (finish ids t s) = Some ids')"

definition pointerEmits :: "sid list \<Rightarrow> sid list \<Rightarrow> bool" where
  "pointerEmits ids ids' \<longleftrightarrow> (\<exists>i moves cur s. snd (pointerDrag ids i moves cur s) = Some ids')"

subsection \<open>Laws\<close>

lemma finish_move:
  assumes "snd (finish ids t s) = Some ids'"
  shows "\<exists>a b from to. dr_dragging s = Some a \<and> t = Some b \<and> a \<noteq> b \<and> indexOf ids a = Some from \<and>
     indexOf ids b = Some to \<and> ids' = splice_move ids from to"
  using assms by (auto simp: finish_def truthyId_def split: option.splits if_splits)

lemma targetIndex_bound: "targetIndex y rects i = Some t \<Longrightarrow> i \<le> t \<and> t < i + length rects"
  by (induction y rects i rule: targetIndex.induct) (auto split: if_splits)

lemma mset_pointerMove: "mset (po_order (pointerMove i y rects s)) = mset (po_order s)"
  by (auto simp: pointerMove_def Let_def mset_splice_move dest: indexOf_Some split: option.split)

lemma mset_pointerMoves:
  "mset (po_order (fold (\<lambda>(y, rects). pointerMove i y rects) moves s)) = mset (po_order s)"
proof (induction moves arbitrary: s)
  case (Cons m moves)
  then show ?case by (cases m) (simp add: mset_pointerMove)
qed simp

lemma filter_splice_move:
  assumes "i < length xs"
  shows "filter (\<lambda>x. x \<noteq> xs ! i) (splice_move xs i k) = filter (\<lambda>x. x \<noteq> xs ! i) xs"
proof -
  let ?P = "\<lambda>x. x \<noteq> xs ! i"
  have "filter ?P (splice_move xs i k) = filter ?P (take k (splice_remove xs i)) @ filter ?P (drop k (splice_remove xs i))"
    by (simp add: splice_move_def splice_insert_def)
  also have "\<dots> = filter ?P (splice_remove xs i)" by (metis append_take_drop_id filter_append)
  also have "\<dots> = filter ?P (take i xs @ [xs ! i] @ drop (Suc i) xs)" by (simp add: splice_remove_def)
  also have "\<dots> = filter ?P xs" using assms by (simp add: id_take_nth_drop [symmetric])
  finally show ?thesis .
qed

interpretation drag_hook: reorder_hook dragEmits
proof
  fix ids ids'
  assume "dragEmits ids ids'"
  then obtain t s where "snd (finish ids t s) = Some ids'" by (auto simp: dragEmits_def)
  from finish_move [OF this] obtain a j k where "indexOf ids a = Some j" "ids' = splice_move ids j k" by blast
  then show "mset ids' = mset ids" using indexOf_Some [of ids a j] by (simp add: mset_splice_move)
qed

interpretation pointer_hook: reorder_hook pointerEmits
proof
  fix ids ids'
  assume "pointerEmits ids ids'"
  then show "mset ids' = mset ids"
    by (auto simp: pointerEmits_def pointerDrag_def pointerEnd_def mset_pointerMoves pointerDown_def split: if_splits)
qed

text \<open>Joining with a separator no id contains is injective on lists of the same length.\<close>

lemma join_inj:
  assumes "length xs = length ys" and "\<forall>x\<in>set xs \<union> set ys. c \<notin> set x" and "join [c] xs = join [c] ys"
  shows "xs = ys"
  using assms
proof (induction xs ys rule: list_induct2)
  case (Cons x xs y ys)
  have c: "c \<notin> set x" "c \<notin> set y" "\<forall>z\<in>set xs \<union> set ys. c \<notin> set z" using Cons.prems(1) by auto
  show ?case
  proof (cases "xs = []")
    case True
    then show ?thesis using Cons.hyps Cons.prems(2) by simp
  next
    case False
    then have "ys \<noteq> []" using Cons.hyps by auto
    then have eq: "x @ c # join [c] xs = y @ c # join [c] ys"
      using Cons.prems(2) False by (simp add: join_Cons)
    have "x = y \<and> join [c] xs = join [c] ys" by (rule append_sep_inj [OF c(1,2) eq])
    then show ?thesis using Cons.IH c(3) by blast
  qed
qed simp

subsection \<open>Properties\<close>

text \<open>A drop moves the dragged id to the slot of its target and keeps everything else in order.
  When \<open>finish\<close> calls \<open>onReorder\<close>, the reported ids are a permutation of the rendered ones, the
  dragged id stands at the old index of the target, the other ids keep their relative order; and
  the hook is idle again whatever happened.\<close>

theorem finish_reorders:
  assumes "distinct ids" and "finish ids t s = (s', Some ids')"
  shows "\<exists>a b to. dr_dragging s = Some a \<and> t = Some b \<and> mset ids' = mset ids \<and>
    indexOf ids b = Some to \<and> indexOf ids' a = Some to \<and>
    filter (\<lambda>x. x \<noteq> a) ids' = filter (\<lambda>x. x \<noteq> a) ids \<and> s' = idle_drag"
proof -
  have fin: "snd (finish ids t s) = Some ids'" "s' = idle_drag"
    using assms(2) by (simp_all add: finish_def)
  obtain a b j to where ab: "dr_dragging s = Some a" "t = Some b" "indexOf ids a = Some j"
      "indexOf ids b = Some to" "ids' = splice_move ids j to"
    using finish_move [OF fin(1)] by blast
  have le: "j < length ids" "ids ! j = a" "to < length ids" using ab indexOf_Some by metis+
  then have "mset ids' = mset ids" by (simp add: ab mset_splice_move)
  moreover have "distinct ids'" using calculation assms(1) distinct_mset_eq by metis
  then have "indexOf ids' a = Some to"
    using indexOf_distinct [of ids' to] le ab splice_move_nth [of j ids to] by simp
  moreover have "filter (\<lambda>x. x \<noteq> a) ids' = filter (\<lambda>x. x \<noteq> a) ids"
    using le filter_splice_move [of j ids to] by (simp add: ab)
  ultimately show ?thesis using ab fin(2) by blast
qed

theorem finish_reorders_witness:
  "let ids = [js ''a'', js ''b'', js ''c'']; s = onDragStart (js ''a'') idle_drag
   in finish ids (Some (js ''c'')) s = (idle_drag, Some [js ''b'', js ''c'', js ''a'']) \<and>
      indexOf [js ''b'', js ''c'', js ''a''] (js ''a'') = Some 2"
proof -
  let ?ids = "[js ''a'', js ''b'', js ''c'']"
  let ?s = "onDragStart (js ''a'') idle_drag"
  have "distinct ?ids" by simp
  moreover have fin: "finish ?ids (Some (js ''c'')) ?s = (idle_drag, Some [js ''b'', js ''c'', js ''a''])"
    by code_simp
  ultimately have "\<exists>a b to. dr_dragging ?s = Some a \<and> Some (js ''c'') = Some b \<and>
      indexOf ?ids b = Some to \<and> indexOf [js ''b'', js ''c'', js ''a''] a = Some to"
    using finish_reorders [of ?ids "Some (js ''c'')" ?s] by blast
  then show ?thesis using fin by (auto simp: onDragStart_def)
qed

text \<open>A pointer drag reports exactly the real changes. For ids without the separator, and a list
  that did not change during the drag, releasing calls \<open>onReorder\<close> if and only if the moves changed
  the order, and then with a permutation of the ids.\<close>

theorem pointerDrag_reports_changes:
  assumes "\<forall>x\<in>set ids. of_char (CHR ''|'') \<notin> set x"
  shows "let final = po_order (fold (\<lambda>(y, rects). pointerMove i y rects) moves (pointerDown ids i s))
    in snd (pointerDrag ids i moves ids s) = (if final = ids then None else Some final) \<and> mset final = mset ids"
proof -
  define final where "final = po_order (fold (\<lambda>(y, rects). pointerMove i y rects) moves (pointerDown ids i s))"
  have perm: "mset final = mset ids" by (simp add: final_def mset_pointerMoves pointerDown_def)
  then have "length final = length ids" "set final = set ids"
    by (metis size_mset, metis set_mset_mset)
  moreover have "bar = [of_char (CHR ''|'')]" by (simp add: bar_def js_def)
  ultimately have "join bar final = join bar ids \<longleftrightarrow> final = ids"
    using join_inj [of final ids "of_char (CHR ''|'')"] assms by auto
  then show ?thesis
    using perm unfolding pointerDrag_def pointerEnd_def final_def [symmetric] by (simp add: Let_def)
qed

theorem pointerDrag_reports_changes_witness:
  "snd (pointerDrag [js ''a'', js ''b''] (js ''a'') [(30, [(0, 10), (10, 10)])] [js ''a'', js ''b'']
     \<lparr>po_dragging = None, po_order = []\<rparr>) = Some [js ''b'', js ''a'']"
proof -
  let ?ids = "[js ''a'', js ''b'']" and ?s = "\<lparr>po_dragging = None, po_order = []\<rparr>"
  let ?moves = "[(30, [(0, 10), (10, 10)])]"
  have sep: "\<forall>x\<in>set ?ids. of_char (CHR ''|'') \<notin> set x" by code_simp
  have "po_order (fold (\<lambda>(y, rects). pointerMove (js ''a'') y rects) ?moves (pointerDown ?ids (js ''a'') ?s)) =
      [js ''b'', js ''a'']" by code_simp
  then show ?thesis
    using pointerDrag_reports_changes [OF sep, of "js ''a''" ?moves ?s] by (auto simp: Let_def)
qed

end
