(* ===== verification/Tags.thy ===== *)
theory Tags
  imports Sessions Storage Reorder "HOL-Library.Sorting_Algorithms"
begin

text \<open>
  Session tags: \<open>web/src/lib/tags.ts\<close>, the filter hook \<open>web/src/hooks/useTagFilter.ts\<close>, and the logic
  of the components \<open>TagEditor\<close> and \<open>TagFilter\<close>. Case folding (\<open>toLowerCase\<close>) is the argument \<open>lc\<close>
  and the collation of \<open>localeCompare\<close> the comparator \<open>cmp\<close>; nothing is assumed of either.
\<close>

definition MAX_TAG_LENGTH :: nat where "MAX_TAG_LENGTH = 32"
definition MAX_TAGS :: nat where "MAX_TAGS = 20"
definition FILTER_STORAGE_KEY :: jsstring where "FILTER_STORAGE_KEY = js ''tagFilter''"

definition sessionTags :: "row \<Rightarrow> jsstring list" where
  "sessionTags r = (case r of Row s \<Rightarrow> (case se_tags s of Some ts \<Rightarrow> ts | None \<Rightarrow> []) | SeqOnly _ \<Rightarrow> [])"

definition sameTag :: "(jsstring \<Rightarrow> jsstring) \<Rightarrow> jsstring \<Rightarrow> jsstring \<Rightarrow> bool" where
  "sameTag lc a b \<longleftrightarrow> lc a = lc b"

text \<open>The insertion-ordered \<open>Map\<close> of \<open>allTags\<close>, as an association list.\<close>

definition addSeen :: "(jsstring \<Rightarrow> jsstring) \<Rightarrow> jsstring \<Rightarrow> (jsstring \<times> jsstring) list \<Rightarrow> (jsstring \<times> jsstring) list" where
  "addSeen lc t seen = (if lc t \<in> fst ` set seen then seen else seen @ [(lc t, t)])"

definition allTags :: "(jsstring \<Rightarrow> jsstring) \<Rightarrow> jsstring comparator \<Rightarrow> row list \<Rightarrow> jsstring list" where
  "allTags lc cmp sessions =
     Sorting_Algorithms.sort cmp (map snd (fold (\<lambda>s seen. fold (addSeen lc) (sessionTags s) seen) sessions []))"

datatype tag_error = TagEmpty | TagTooLong | TagComma | TagDuplicate | TooManyTags | TagSaveFailed

definition isControl :: "jsstring \<Rightarrow> bool" where
  "isControl ch \<longleftrightarrow> (case ch of u # _ \<Rightarrow> u < 32 \<or> u = 127 | [] \<Rightarrow> False)"

definition checkNewTag :: "(jsstring \<Rightarrow> jsstring) \<Rightarrow> jsstring \<Rightarrow> jsstring list \<Rightarrow> tag_error + jsstring" where
  "checkNewTag lc raw existing =
     (let tag = trim raw
      in if tag = [] then Inl TagEmpty
         else if MAX_TAG_LENGTH < length (spread tag) then Inl TagTooLong
         else if list_ex (\<lambda>ch. ch = js '','' \<or> isControl ch) (spread tag) then Inl TagComma
         else if list_ex (\<lambda>t. sameTag lc t tag) existing then Inl TagDuplicate
         else if MAX_TAGS \<le> length existing then Inl TooManyTags
         else Inr tag)"

definition effectiveFilter :: "(jsstring \<Rightarrow> jsstring) \<Rightarrow> jsstring list \<Rightarrow> jsstring list \<Rightarrow> jsstring list" where
  "effectiveFilter lc selected available = filter (\<lambda>a. list_ex (\<lambda>s. sameTag lc s a) selected) available"

definition filterByTags :: "(jsstring \<Rightarrow> jsstring) \<Rightarrow> row list \<Rightarrow> jsstring list \<Rightarrow> row list" where
  "filterByTags lc sessions selected =
     (if selected = [] then sessions
      else filter (\<lambda>s. list_ex (\<lambda>t. list_ex (\<lambda>f. sameTag lc f t) selected) (sessionTags s)) sessions)"

text \<open>The loop of \<open>mergeReorder\<close>; \<open>next\<close> counts the visible ids placed so far, and reading past
  the end of \<open>visibleNew\<close> places \<open>undefined\<close>.\<close>

fun mergeLoop :: "'a list \<Rightarrow> 'a list \<Rightarrow> nat \<Rightarrow> 'a option list" where
  "mergeLoop visibleNew [] nxt = []"
| "mergeLoop visibleNew (x # xs) nxt =
     (if x \<in> set visibleNew then js_nth visibleNew nxt # mergeLoop visibleNew xs (Suc nxt)
      else Some x # mergeLoop visibleNew xs nxt)"

definition mergeReorder :: "'a list \<Rightarrow> 'a list \<Rightarrow> 'a option list" where
  "mergeReorder fullIds visibleNew = mergeLoop visibleNew fullIds 0"

subsection \<open>The saved filter\<close>

definition loadTagFilter :: "storage \<Rightarrow> jsstring list" where
  "loadTagFilter st =
     (case getItem FILTER_STORAGE_KEY st of
        None \<Rightarrow> []
      | Some raw \<Rightarrow>
          (case (if truthy raw then jsonParse (the raw) else Some (JArr [])) of
             Some (JArr xs) \<Rightarrow> List.map_filter (\<lambda>x. case x of JStr t \<Rightarrow> Some t | _ \<Rightarrow> None) xs
           | _ \<Rightarrow> []))"

definition saveTagFilter :: "jsstring list \<Rightarrow> storage \<Rightarrow> storage" where
  "saveTagFilter selected st =
     (if selected = [] then tryStorage (removeItem FILTER_STORAGE_KEY st) st
      else tryStorage (setItem FILTER_STORAGE_KEY (stringify (JArr (map JStr selected))) st) st)"

subsection \<open>useTagFilter\<close>

record tag_filter =
  tf_tags :: "jsstring list"
  tf_selected :: "jsstring list"
  tf_visible :: "row list"

definition useTagFilter :: "(jsstring \<Rightarrow> jsstring) \<Rightarrow> jsstring comparator \<Rightarrow> jsstring list \<Rightarrow> row list \<Rightarrow> tag_filter" where
  "useTagFilter lc cmp stored sessions =
     (let tags = allTags lc cmp sessions; selected = effectiveFilter lc stored tags
      in \<lparr>tf_tags = tags, tf_selected = selected, tf_visible = filterByTags lc sessions selected\<rparr>)"

definition setSelected :: "jsstring list \<Rightarrow> jsstring list \<times> storage \<Rightarrow> jsstring list \<times> storage" where
  "setSelected nxt st = (nxt, saveTagFilter nxt (snd st))"

text \<open>\<open>toggle\<close> of \<open>TagFilter\<close>: the selection passed to \<open>onChange\<close>.\<close>

definition isOn :: "(jsstring \<Rightarrow> jsstring) \<Rightarrow> jsstring list \<Rightarrow> jsstring \<Rightarrow> bool" where
  "isOn lc selected tag = list_ex (\<lambda>s. lc s = lc tag) selected"

definition toggleTag :: "(jsstring \<Rightarrow> jsstring) \<Rightarrow> jsstring list \<Rightarrow> jsstring \<Rightarrow> jsstring list" where
  "toggleTag lc selected tag =
     (if isOn lc selected tag then filter (\<lambda>s. lc s \<noteq> lc tag) selected else selected @ [tag])"

subsection \<open>TagEditor\<close>

record tag_editor =
  te_draft :: jsstring
  te_error :: "tag_error option"

text \<open>\<open>add\<close> and \<open>remove\<close>: the editor's new state and the list handed to \<open>onChange\<close>.\<close>

definition addTag :: "(jsstring \<Rightarrow> jsstring) \<Rightarrow> jsstring list \<Rightarrow> tag_editor \<Rightarrow> tag_editor \<times> jsstring list option" where
  "addTag lc tags ed =
     (case checkNewTag lc (te_draft ed) tags of
        Inl e \<Rightarrow> (ed\<lparr>te_error := Some e\<rparr>, None)
      | Inr tag \<Rightarrow> (ed\<lparr>te_draft := [], te_error := None\<rparr>, Some (tags @ [tag])))"

definition removeTag :: "jsstring \<Rightarrow> jsstring list \<Rightarrow> tag_editor \<Rightarrow> tag_editor \<times> jsstring list option" where
  "removeTag tag tags ed = (ed\<lparr>te_error := None\<rparr>, Some (filter (\<lambda>t. t \<noteq> tag) tags))"

text \<open>\<open>commit\<close> when \<open>onChange\<close> rejects.\<close>

definition commitFailed :: "tag_editor \<Rightarrow> tag_editor" where
  "commitFailed ed = ed\<lparr>te_error := Some TagSaveFailed\<rparr>"

definition unusedSuggestions :: "(jsstring \<Rightarrow> jsstring) \<Rightarrow> jsstring list \<Rightarrow> jsstring list \<Rightarrow> jsstring list" where
  "unusedSuggestions lc suggestions tags = filter (\<lambda>s. \<not> list_ex (\<lambda>t. lc t = lc s) tags) suggestions"

subsection \<open>Well-formed tag lists\<close>

definition validTag :: "jsstring \<Rightarrow> bool" where
  "validTag t \<longleftrightarrow> t \<noteq> [] \<and> trim t = t \<and> length (spread t) \<le> MAX_TAG_LENGTH \<and>
     \<not> list_ex (\<lambda>ch. ch = js '','' \<or> isControl ch) (spread t)"

definition tagsOk :: "(jsstring \<Rightarrow> jsstring) \<Rightarrow> jsstring list \<Rightarrow> bool" where
  "tagsOk lc ts \<longleftrightarrow> list_all validTag ts \<and> distinct (map lc ts) \<and> length ts \<le> MAX_TAGS"

subsection \<open>Laws\<close>

lemma validTag_trim_iff:
  "validTag (trim raw) \<longleftrightarrow> trim raw \<noteq> [] \<and> length (spread (trim raw)) \<le> MAX_TAG_LENGTH \<and>
     \<not> list_ex (\<lambda>ch. ch = js '','' \<or> isControl ch) (spread (trim raw))"
  by (simp add: validTag_def)

lemma list_ex_same: "list_ex (\<lambda>t. sameTag lc t tag) ts \<longleftrightarrow> lc tag \<in> lc ` set ts"
  by (auto simp: sameTag_def list_ex_iff image_iff) metis

lemma checkNewTag_ok:
  "checkNewTag lc raw existing = Inr tag \<longleftrightarrow>
     tag = trim raw \<and> validTag tag \<and> lc tag \<notin> lc ` set existing \<and> length existing < MAX_TAGS"
  by (auto simp: checkNewTag_def Let_def validTag_def list_ex_same)

text \<open>The \<open>seen\<close> map: keys are distinct, and each holds the first tag with that key.\<close>

lemma addSeen_fold:
  "map snd (fold (addSeen lc) ts []) = fold (\<lambda>t acc. if lc t \<in> lc ` set acc then acc else acc @ [t]) ts [] \<and>
   list_all (\<lambda>p. fst p = lc (snd p)) (fold (addSeen lc) ts [])"
proof (induction ts rule: rev_induct)
  case (snoc t ts)
  define S where "S = fold (addSeen lc) ts []"
  define A where "A = fold (\<lambda>t acc. if lc t \<in> lc ` set acc then acc else acc @ [t]) ts []"
  have IH: "map snd S = A" "list_all (\<lambda>p. fst p = lc (snd p)) S" using snoc by (simp_all add: S_def A_def)
  have "fst ` set S = (\<lambda>p. lc (snd p)) ` set S"
    by (rule image_cong) (use IH in \<open>auto simp: list_all_iff\<close>)
  then have "fst ` set S = lc ` set A" by (simp add: IH(1) [symmetric] image_image)
  then have "map snd (addSeen lc t S) = (if lc t \<in> lc ` set A then A else A @ [t])"
      "list_all (\<lambda>p. fst p = lc (snd p)) (addSeen lc t S)"
    using IH by (simp_all add: addSeen_def)
  then show ?case by (simp add: S_def A_def)
qed simp

text \<open>The same as one fold over all tags in order, and what it keeps.\<close>

definition firstSpellings :: "(jsstring \<Rightarrow> jsstring) \<Rightarrow> jsstring list \<Rightarrow> jsstring list" where
  "firstSpellings lc ts = fold (\<lambda>t acc. if lc t \<in> lc ` set acc then acc else acc @ [t]) ts []"

lemma allTags_firstSpellings:
  "allTags lc cmp sessions = Sorting_Algorithms.sort cmp (firstSpellings lc (concat (map sessionTags sessions)))"
proof -
  have "fold (\<lambda>s seen. fold (addSeen lc) (sessionTags s) seen) sessions [] =
      fold (addSeen lc) (concat (map sessionTags sessions)) []" for lc
    by (induction sessions rule: rev_induct) (simp_all add: fold_append)
  then show ?thesis using addSeen_fold by (simp add: allTags_def firstSpellings_def)
qed

lemma firstSpellings_snoc:
  "firstSpellings lc (ts @ [t]) =
     (if lc t \<in> lc ` set (firstSpellings lc ts) then firstSpellings lc ts else firstSpellings lc ts @ [t])"
  by (simp add: firstSpellings_def)

lemma firstSpellings_spec:
  "distinct (map lc (firstSpellings lc ts)) \<and> lc ` set (firstSpellings lc ts) = lc ` set ts \<and>
   (\<forall>u\<in>set (firstSpellings lc ts). find (\<lambda>t. lc t = lc u) ts = Some u)"
proof (induction ts rule: rev_induct)
  case (snoc t ts)
  have f: "find P (ts @ [t]) = (case find P ts of None \<Rightarrow> if P t then Some t else None | Some x \<Rightarrow> Some x)" for P
    by (induction ts) auto
  have none: "find (\<lambda>x. lc x = lc t) ts = None" if "lc t \<notin> lc ` set ts"
    using that unfolding find_None_iff by (metis image_eqI)
  show ?case
  proof (cases "lc t \<in> lc ` set ts")
    case True
    then show ?thesis using snoc by (auto simp: firstSpellings_snoc f)
  next
    case False
    then show ?thesis using snoc none by (auto simp: firstSpellings_snoc f)
  qed
qed (simp add: firstSpellings_def)

lemma map_filter_JStr:
  "List.map_filter (\<lambda>x. case x of JStr t \<Rightarrow> Some t | _ \<Rightarrow> None) (map JStr ts) = ts"
  by (induction ts) (simp_all add: map_filter_simps)

lemma image_restrict: "f ` {x \<in> A. f x \<in> B} = B \<inter> f ` A"
  by blast

lemma stringify_array_nonempty: "stringify (JArr xs) \<noteq> []"
  by simp

subsection \<open>Merging a reorder\<close>

lemma length_mergeLoop [simp]: "length (mergeLoop vis full n) = length full"
  by (induction full arbitrary: n) auto

lemma mergeLoop_hidden:
  "i < length full \<Longrightarrow> full ! i \<notin> set vis \<Longrightarrow> mergeLoop vis full n ! i = Some (full ! i)"
proof (induction full arbitrary: i n)
  case (Cons x full)
  then show ?case by (cases i) auto
qed simp

lemma mergeLoop_visible:
  assumes "n + length (filter (\<lambda>x. x \<in> set vis) full) \<le> length vis"
  shows "\<exists>ids. mergeLoop vis full n = map Some ids \<and>
    filter (\<lambda>x. x \<notin> set vis) ids = filter (\<lambda>x. x \<notin> set vis) full \<and>
    filter (\<lambda>x. x \<in> set vis) ids = take (length (filter (\<lambda>x. x \<in> set vis) full)) (drop n vis)"
  using assms
proof (induction full arbitrary: n)
  case (Cons x full)
  show ?case
  proof (cases "x \<in> set vis")
    case True
    then have n: "Suc n + length (filter (\<lambda>x. x \<in> set vis) full) \<le> length vis" using Cons.prems by simp
    from Cons.IH [OF n] obtain ids where ids: "mergeLoop vis full (Suc n) = map Some ids"
      "filter (\<lambda>x. x \<notin> set vis) ids = filter (\<lambda>x. x \<notin> set vis) full"
      "filter (\<lambda>x. x \<in> set vis) ids = take (length (filter (\<lambda>x. x \<in> set vis) full)) (drop (Suc n) vis)"
      by blast
    have d: "drop n vis = vis ! n # drop (Suc n) vis" "n < length vis"
      using n by (simp_all add: Cons_nth_drop_Suc)
    have "mergeLoop vis (x # full) n = map Some (vis ! n # ids)" using True ids(1) d(2) by (simp add: js_nth_def)
    then show ?thesis
      using True ids(2,3) d by (intro exI [of _ "vis ! n # ids"]) simp
  next
    case False
    then have "n + length (filter (\<lambda>x. x \<in> set vis) full) \<le> length vis" using Cons.prems by simp
    from Cons.IH [OF this] obtain ids where "mergeLoop vis full n = map Some ids"
      "filter (\<lambda>x. x \<notin> set vis) ids = filter (\<lambda>x. x \<notin> set vis) full"
      "filter (\<lambda>x. x \<in> set vis) ids = take (length (filter (\<lambda>x. x \<in> set vis) full)) (drop n vis)"
      by blast
    then show ?thesis using False by (intro exI [of _ "x # ids"]) simp
  qed
qed simp

lemma mset_partition: "mset xs = mset (filter P xs) + mset (filter (\<lambda>x. \<not> P x) xs)"
  by (induction xs) auto

lemma mergeReorder_perm:
  assumes "distinct full" and "distinct vis" and "set vis \<subseteq> set full"
  shows "\<exists>ids. mergeReorder full vis = map Some ids \<and> mset ids = mset full \<and>
    filter (\<lambda>x. x \<in> set vis) ids = vis"
proof -
  let ?F = "filter (\<lambda>x. x \<in> set vis) full"
  have "set ?F = set vis" "distinct ?F" using assms by auto
  then have F: "mset ?F = mset vis" using set_eq_iff_mset_eq_distinct assms(2) by blast
  then have len: "length (filter (\<lambda>x. x \<in> set vis) full) = length vis" by (metis size_mset)
  then obtain ids where ids: "mergeLoop vis full 0 = map Some ids"
      "filter (\<lambda>x. x \<notin> set vis) ids = filter (\<lambda>x. x \<notin> set vis) full" "filter (\<lambda>x. x \<in> set vis) ids = vis"
    using mergeLoop_visible [of 0 vis full] by auto
  have "mset ids = mset vis + mset (filter (\<lambda>x. x \<notin> set vis) full)"
    using mset_partition [of ids "\<lambda>x. x \<in> set vis"] unfolding ids(2,3) .
  also have "\<dots> = mset full" using mset_partition [of full "\<lambda>x. x \<in> set vis"] unfolding F by (rule sym)
  finally have "mset ids = mset full" .
  then show ?thesis using ids by (auto simp: mergeReorder_def)
qed

lemma addTag_tagsOk:
  assumes "tagsOk lc tags"
  shows "snd (addTag lc tags ed) =
    (if tagsOk lc (tags @ [trim (te_draft ed)]) then Some (tags @ [trim (te_draft ed)]) else None)"
proof -
  have ok: "tagsOk lc (tags @ [t]) \<longleftrightarrow> validTag t \<and> lc t \<notin> lc ` set tags \<and> length tags < MAX_TAGS" for t
    using assms by (auto simp: tagsOk_def)
  show ?thesis unfolding ok using checkNewTag_ok [of lc "te_draft ed" tags]
    by (cases "checkNewTag lc (te_draft ed) tags") (auto simp: addTag_def)
qed

lemma removeTag_tagsOk:
  assumes "tagsOk lc tags"
  shows "\<exists>ts. snd (removeTag tag tags ed) = Some ts \<and> tagsOk lc ts \<and> tag \<notin> set ts"
proof -
  have "length (filter (\<lambda>t. t \<noteq> tag) tags) \<le> MAX_TAGS"
    using assms length_filter_le [of "\<lambda>t. t \<noteq> tag" tags] unfolding tagsOk_def by linarith
  then show ?thesis using assms by (auto simp: removeTag_def tagsOk_def list_all_iff distinct_map inj_on_def)
qed

subsection \<open>Properties\<close>

text \<open>The editor accepts exactly the tags that keep the list well-formed. Starting from a list of
  valid tags, unique ignoring case and at most 20, \<open>add\<close> hands a list to \<open>onChange\<close> if and only if
  appending the trimmed draft keeps it so (one to 32 code points, no comma or control character), it
  is that list, and removing a tag always keeps it so.\<close>

theorem tag_editor_wellformed:
  assumes "tagsOk lc tags"
  shows "snd (addTag lc tags ed) =
      (if tagsOk lc (tags @ [trim (te_draft ed)]) then Some (tags @ [trim (te_draft ed)]) else None) \<and>
    (\<exists>ts. snd (removeTag tag tags ed) = Some ts \<and> tagsOk lc ts \<and> tag \<notin> set ts)"
  using addTag_tagsOk [OF assms] removeTag_tagsOk [OF assms] by blast

theorem tag_editor_wellformed_witness:
  "snd (addTag asciiLower [js ''work''] \<lparr>te_draft = js ''  Home '', te_error = None\<rparr>) =
     Some [js ''work'', js ''Home'']"
proof -
  have "tagsOk asciiLower [js ''work'']" "tagsOk asciiLower ([js ''work''] @ [trim (js ''  Home '')])"
    "trim (js ''  Home '') = js ''Home''" by code_simp+
  then show ?thesis
    using tag_editor_wellformed [of asciiLower "[js ''work'']" "\<lparr>te_draft = js ''  Home '', te_error = None\<rparr>"]
    by simp
qed

text \<open>\<open>allTags\<close> lists every tag in use once, ignoring case, in its first spelling, in the order of
  the collation, for whatever case folding and collation the browser has.\<close>

theorem allTags_spec:
  "(let tags = allTags lc cmp sessions; inUse = concat (map sessionTags sessions)
    in distinct (map lc tags) \<and> lc ` set tags = lc ` set inUse \<and> Sorting_Algorithms.sorted cmp tags \<and>
       list_all (\<lambda>u. find (\<lambda>t. lc t = lc u) inUse = Some u) tags)"
proof -
  let ?use = "concat (map sessionTags sessions)"
  let ?f = "firstSpellings lc ?use"
  have "mset (map lc (Sorting_Algorithms.sort cmp ?f)) = mset (map lc ?f)" by simp
  then have "distinct (map lc (Sorting_Algorithms.sort cmp ?f))"
    using firstSpellings_spec distinct_mset_eq by metis
  then show ?thesis
    using firstSpellings_spec [of lc ?use] by (simp add: allTags_firstSpellings list_all_iff)
qed

text \<open>The filter never empties the list. Whatever selection is stored, including tags nobody uses
  any more, if there are sessions then some are visible; the visible ones are a subsequence of the
  sessions, all of them when no selected tag is in use, and otherwise exactly those with a selected
  tag.\<close>

theorem tag_filter_never_empty:
  "(let f = useTagFilter lc cmp stored sessions
    in (tf_visible f = [] \<longleftrightarrow> sessions = []) \<and> subseq (tf_visible f) sessions \<and>
       tf_visible f = (if tf_selected f = [] then sessions
          else filter (\<lambda>s. lc ` set (sessionTags s) \<inter> lc ` set stored \<noteq> {}) sessions))"
proof -
  let ?use = "concat (map sessionTags sessions)"
  define sel where "sel = effectiveFilter lc stored (allTags lc cmp sessions)"
  define hit where "hit s = list_ex (\<lambda>t. list_ex (\<lambda>f. sameTag lc f t) sel) (sessionTags s)" for s
  have tags: "lc ` set (allTags lc cmp sessions) = lc ` set ?use"
    using allTags_firstSpellings firstSpellings_spec by (simp add: allTags_firstSpellings)
  have sel: "lc ` set sel = lc ` set stored \<inter> lc ` set ?use"
    unfolding sel_def effectiveFilter_def list_ex_same tags [symmetric] set_filter by (rule image_restrict)
  have hit: "hit s \<longleftrightarrow> lc ` set (sessionTags s) \<inter> lc ` set stored \<noteq> {}" if "s \<in> set sessions" for s
  proof -
    have "hit s \<longleftrightarrow> lc ` set (sessionTags s) \<inter> lc ` set sel \<noteq> {}"
      unfolding hit_def list_ex_same by (auto simp: list_ex_iff)
    moreover have "lc ` set (sessionTags s) \<subseteq> lc ` set ?use" using that by auto
    ultimately show ?thesis unfolding sel by blast
  qed
  have "filter hit sessions \<noteq> []" if ne: "sel \<noteq> []"
  proof -
    obtain t where "t \<in> set sel" using ne by (cases sel) auto
    then have "lc t \<in> lc ` set sel" by (rule imageI)
    then have "lc t \<in> lc ` set stored" "lc t \<in> lc ` set ?use" unfolding sel by blast+
    then obtain s where "s \<in> set sessions" "lc ` set (sessionTags s) \<inter> lc ` set stored \<noteq> {}" by auto
    then show ?thesis using hit [of s] by (auto simp: filter_empty_conv)
  qed
  moreover have "filter hit sessions = filter (\<lambda>s. lc ` set (sessionTags s) \<inter> lc ` set stored \<noteq> {}) sessions"
    using hit by (rule filter_cong [OF refl])
  ultimately show ?thesis
    by (auto simp: useTagFilter_def Let_def filterByTags_def sel_def [symmetric] hit_def [symmetric]
        subseq_filter_left)
qed

text \<open>C33: reordering a filtered list leaves the hidden ids where they are. For distinct ids and a
  reordering of some of them, \<open>mergeReorder\<close> returns a permutation of the full list with no gap, in
  which every hidden id keeps its index and the visible ids appear in their new order.\<close>

theorem mergeReorder_spec:
  assumes "distinct full" and "distinct vis" and "set vis \<subseteq> set full"
  shows "\<exists>ids. mergeReorder full vis = map Some ids \<and> mset ids = mset full \<and>
    filter (\<lambda>x. x \<in> set vis) ids = vis \<and>
    (\<forall>i<length full. full ! i \<notin> set vis \<longrightarrow> ids ! i = full ! i)"
proof -
  obtain ids where ids: "mergeReorder full vis = map Some ids" "mset ids = mset full"
      "filter (\<lambda>x. x \<in> set vis) ids = vis"
    using mergeReorder_perm [OF assms] by blast
  have len: "length ids = length full" using ids(2) by (metis size_mset)
  have "ids ! i = full ! i" if "i < length full" "full ! i \<notin> set vis" for i
    using mergeLoop_hidden [OF that, of 0] ids(1) that(1) len by (simp add: mergeReorder_def)
  then show ?thesis using ids by blast
qed

theorem mergeReorder_spec_witness:
  "mergeReorder [js ''a'', js ''b'', js ''c''] [js ''c'', js ''a''] = map Some [js ''c'', js ''b'', js ''a''] \<and>
   filter (\<lambda>x. x \<in> set [js ''c'', js ''a'']) [js ''c'', js ''b'', js ''a''] = [js ''c'', js ''a'']"
proof -
  let ?full = "[js ''a'', js ''b'', js ''c'']" and ?vis = "[js ''c'', js ''a'']"
  have "mergeReorder ?full ?vis = map Some [js ''c'', js ''b'', js ''a'']" by code_simp
  moreover have "\<exists>ids. mergeReorder ?full ?vis = map Some ids \<and> filter (\<lambda>x. x \<in> set ?vis) ids = ?vis"
    using mergeReorder_spec [of ?full ?vis] by auto
  ultimately show ?thesis by (auto simp: inj_map_eq_map)
qed

text \<open>The saved filter comes back. When the storage works, loading after saving returns the
  saved selection, whatever strings it holds; and when the storage throws, saving changes nothing and
  loading returns the empty selection.\<close>

theorem tag_filter_roundtrip:
  "(usable st \<longrightarrow> loadTagFilter (saveTagFilter selected st) = selected) \<and>
   (\<not> ls_available st \<longrightarrow> saveTagFilter selected st = st \<and> loadTagFilter st = [])"
proof -
  have "jsonParse (stringify (JArr (map JStr selected))) = Some (JArr (map JStr selected))"
    by (rule jsonParse_stringify) (simp add: list_all_iff)
  then show ?thesis
    by (auto simp: saveTagFilter_def loadTagFilter_def getItem_setItem getItem_removeItem map_filter_JStr truthy_def
        usable_def map_filter_simps simp del: stringify.simps(5)
        simp: stringify_array_nonempty) (auto simp: getItem_def setItem_def removeItem_def tryStorage_def)
qed

theorem tag_filter_roundtrip_witness:
  "loadTagFilter (saveTagFilter [js ''a,b'', js ''x''] empty_storage) = [js ''a,b'', js ''x'']"
proof -
  have "usable empty_storage" by code_simp
  then show ?thesis using tag_filter_roundtrip by blast
qed

end
