(* ===== verification/Dashboard.thy ===== *)
theory Dashboard
  imports Tags
begin

text \<open>
  The dashboard page (\<open>web/src/pages/DashboardPage.tsx\<close>): its list of sessions, the update stream, the
  optimistic reorder, deletion and the creation of a session. A handler that closes over the rendered
  order takes it as an argument, because by the time it runs the state may have moved on.
\<close>

record dashboard =
  da_sessions :: "row list"
  da_loading :: bool
  da_creating :: "(host \<times> jsstring) option"

definition initial_dashboard :: dashboard where
  "initial_dashboard = \<lparr>da_sessions = [], da_loading = True, da_creating = None\<rparr>"

text \<open>\<open>loadSessions\<close> after its request: \<open>None\<close> is a failed one, \<open>Some None\<close> a null body.\<close>

definition sessionsLoaded :: "session list option option \<Rightarrow> dashboard \<Rightarrow> dashboard" where
  "sessionsLoaded r d =
     d\<lparr>da_sessions := (case r of Some (Some ss) \<Rightarrow> map Row ss | _ \<Rightarrow> []), da_loading := False\<rparr>"

definition handleUpdateRows :: "session_update \<Rightarrow> row list \<Rightarrow> row list" where
  "handleUpdateRows update prev =
     (case updateKey update of
        None \<Rightarrow> prev
      | Some i \<Rightarrow>
          if su_event update = EvEnd \<or> su_event update = EvDelete then removeRow i prev
          else upsertRow (the (su_session update)) prev)"

definition handleUpdate :: "session_update \<Rightarrow> dashboard \<Rightarrow> dashboard" where
  "handleUpdate update d = d\<lparr>da_sessions := handleUpdateRows update (da_sessions d)\<rparr>"

text \<open>\<open>new Map(prev.map(s => [s.id, s])).get(id)\<close>: the last row with that id, \<open>undefined\<close> included.\<close>

definition byIdGet :: "row list \<Rightarrow> sid option \<Rightarrow> row option" where
  "byIdGet prev i = find (\<lambda>r. rowId r = i) (rev prev)"

text \<open>\<open>{ ...row, seq: i }\<close>; spreading \<open>undefined\<close> leaves only the \<open>seq\<close>.\<close>

definition withSeq :: "nat \<Rightarrow> row option \<Rightarrow> row" where
  "withSeq i r = (case r of Some (Row s) \<Rightarrow> Row (s\<lparr>se_seq := Some (int i)\<rparr>) | _ \<Rightarrow> SeqOnly (int i))"

definition reorderIds :: "row list \<Rightarrow> sid list \<Rightarrow> sid option list" where
  "reorderIds ordered visibleIds =
     map (\<lambda>r. Option.bind r id) (mergeReorder (map rowId ordered) (map Some visibleIds))"

definition handleReorderRows :: "row list \<Rightarrow> sid list \<Rightarrow> row list \<Rightarrow> row list" where
  "handleReorderRows ordered visibleIds prev =
     (let ids = reorderIds ordered visibleIds
      in map (\<lambda>(i, sid). withSeq i (byIdGet prev sid)) (enumerate 0 ids))"

text \<open>\<open>handleReorder\<close> of the render that computed \<open>ordered\<close>: the new state and the ids it sends.\<close>

definition handleReorder :: "row list \<Rightarrow> sid list \<Rightarrow> dashboard \<Rightarrow> dashboard \<times> sid option list" where
  "handleReorder ordered visibleIds d =
     (d\<lparr>da_sessions := handleReorderRows ordered visibleIds (da_sessions d)\<rparr>, reorderIds ordered visibleIds)"

definition sessionDeleted :: "sid \<Rightarrow> bool \<Rightarrow> dashboard \<Rightarrow> dashboard" where
  "sessionDeleted i ok d = (if ok then d\<lparr>da_sessions := removeRow i (da_sessions d)\<rparr> else d)"

definition handleNewSession :: "host \<Rightarrow> jsstring \<Rightarrow> dashboard \<Rightarrow> dashboard" where
  "handleNewSession h name d = d\<lparr>da_creating := Some (h, name)\<rparr>"

definition handleCreated :: "dashboard \<Rightarrow> dashboard" where
  "handleCreated d = d\<lparr>da_creating := None\<rparr>"

definition handleCreateError :: "dashboard \<Rightarrow> dashboard" where
  "handleCreateError d = d\<lparr>da_creating := None\<rparr>"

text \<open>What the page renders.\<close>

definition orderedSessions :: "dashboard \<Rightarrow> row list" where
  "orderedSessions d = sortBySeq (da_sessions d)"

definition visibleSessions :: "(jsstring \<Rightarrow> jsstring) \<Rightarrow> jsstring comparator \<Rightarrow> jsstring list \<Rightarrow> dashboard \<Rightarrow> row list" where
  "visibleSessions lc cmp stored d = tf_visible (useTagFilter lc cmp stored (orderedSessions d))"

definition orderedIds :: "row list \<Rightarrow> sid list" where
  "orderedIds rows = List.map_filter rowId rows"

subsection \<open>The update stream\<close>

definition updateEffect :: "session_update \<Rightarrow> session option" where
  "updateEffect u = (if su_event u = EvEnd \<or> su_event u = EvDelete then None else su_session u)"

lemma updateKey_Some: "updateKey u = Some k \<longleftrightarrow> (\<exists>s. su_session u = Some s \<and> se_id s = k \<and> k \<noteq> [])"
  by (auto simp: updateKey_def split: option.splits)

lemma handleUpdateRows_eq:
  "handleUpdateRows u rows =
     (case su_session u of None \<Rightarrow> rows
      | Some s \<Rightarrow> if se_id s = [] then rows
                  else if su_event u = EvEnd \<or> su_event u = EvDelete then removeRow (se_id s) rows
                  else upsertRow s rows)"
  by (simp add: handleUpdateRows_def updateKey_def split: option.split)

interpretation dashboard_log: update_log handleUpdateRows updateKey updateEffect "\<lambda>rows k. lookupRow k rows"
  by unfold_locales
    (auto simp: handleUpdateRows_eq updateKey_def updateEffect_def lookupRow_remove lookupRow_upsert
      split: option.splits if_splits)

definition rowsOk :: "row list \<Rightarrow> bool" where
  "rowsOk rows \<longleftrightarrow> distinct (map rowId rows) \<and> None \<notin> set (map rowId rows)"

lemma rowsOk_upsert: "rowsOk rows \<Longrightarrow> rowsOk (upsertRow s rows)"
  unfolding rowsOk_def map_rowId_upsert lookupRow_None by simp

lemma rowsOk_remove: "rowsOk rows \<Longrightarrow> rowsOk (removeRow i rows)"
  by (auto simp: rowsOk_def removeRow_def distinct_map inj_on_def)

lemma rowsOk_handleUpdate: "rowsOk rows \<Longrightarrow> rowsOk (handleUpdateRows u rows)"
  by (simp add: handleUpdateRows_eq rowsOk_upsert rowsOk_remove split: option.split)

lemma rowsOk_fold: "rowsOk rows \<Longrightarrow> rowsOk (fold handleUpdateRows us rows)"
  by (induction us arbitrary: rows) (simp_all add: rowsOk_handleUpdate)

subsection \<open>Reordering\<close>

lemma byIdGet_Some:
  assumes "rowsOk rows" and "Row s \<in> set rows"
  shows "byIdGet rows (Some (se_id s)) = Some (Row s)"
proof -
  obtain r where r: "find (\<lambda>r. rowId r = Some (se_id s)) (rev rows) = Some r"
    using assms(2) by (cases "find (\<lambda>r. rowId r = Some (se_id s)) (rev rows)") (auto simp: find_None_iff)
  then have "r \<in> set rows" "rowId r = Some (se_id s)" by (auto simp: find_Some_iff) (metis nth_mem set_rev length_rev)
  moreover have "inj_on rowId (set rows)" using assms(1) by (simp add: rowsOk_def distinct_map)
  ultimately have "r = Row s" using assms(2) by (simp add: inj_on_def)
  then show ?thesis using r by (simp add: byIdGet_def)
qed

lemma byIdGet_id: "byIdGet rows x = Some r \<Longrightarrow> rowId r = x"
  by (auto simp: byIdGet_def find_Some_iff)

lemma rowsOk_Row: "rowsOk rows \<Longrightarrow> Some i \<in> set (map rowId rows) \<Longrightarrow> \<exists>s. Row s \<in> set rows \<and> se_id s = i"
proof -
  assume "Some i \<in> set (map rowId rows)"
  then obtain r where "r \<in> set rows" "rowId r = Some i" by auto
  then show "\<exists>s. Row s \<in> set rows \<and> se_id s = i" by (auto simp: rowId_Row)
qed

lemma mset_sortBySeq: "mset (sortBySeq rows) = mset rows"
  by (simp add: sortBySeq_def)

lemma rowsOk_sort [simp]: "rowsOk (sortBySeq rows) = rowsOk rows"
proof -
  have "mset (map rowId (sortBySeq rows)) = mset (map rowId rows)" by (simp add: mset_sortBySeq)
  then show ?thesis unfolding rowsOk_def by (metis distinct_mset_eq mset_eq_setD)
qed

lemma reorderIds_perm:
  assumes "rowsOk ordered" and "distinct vis" and "Some ` set vis \<subseteq> set (map rowId ordered)"
  shows "mset (reorderIds ordered vis) = mset (map rowId ordered) \<and>
    filter (\<lambda>x. x \<in> Some ` set vis) (reorderIds ordered vis) = map Some vis \<and>
    (\<forall>i<length ordered. rowId (ordered ! i) \<notin> Some ` set vis \<longrightarrow> reorderIds ordered vis ! i = rowId (ordered ! i))"
proof -
  let ?full = "map rowId ordered" and ?vis = "map Some vis"
  have pre: "distinct ?full" "distinct ?vis" "set ?vis \<subseteq> set ?full"
    using assms by (auto simp: rowsOk_def distinct_map)
  obtain ids where ids: "mergeReorder ?full ?vis = map Some ids" "mset ids = mset ?full"
      "filter (\<lambda>x. x \<in> set ?vis) ids = ?vis"
    using mergeReorder_perm [OF pre] by blast
  have eq: "reorderIds ordered vis = ids" by (simp add: reorderIds_def ids(1) comp_def)
  have len: "length ids = length ordered" using ids(2) by (metis size_mset length_map)
  have "ids ! i = rowId (ordered ! i)" if "i < length ordered" "rowId (ordered ! i) \<notin> Some ` set vis" for i
    using mergeLoop_hidden [of i ?full ?vis 0] ids(1) that len by (simp add: mergeReorder_def)
  then show ?thesis using ids eq by simp
qed

text \<open>Renumbering: the rows come out in the order of the ids, numbered by position, otherwise unchanged.\<close>

lemma handleReorderRows_nth:
  assumes rows: "rowsOk rows" and ids: "set (reorderIds ordered vis) \<subseteq> set (map rowId rows)"
    and i: "i < length (reorderIds ordered vis)"
  shows "\<exists>s. Row s \<in> set rows \<and> Some (se_id s) = reorderIds ordered vis ! i \<and>
    handleReorderRows ordered vis rows ! i = Row (s\<lparr>se_seq := Some (int i)\<rparr>)"
proof -
  have mem: "reorderIds ordered vis ! i \<in> set (map rowId rows)" using ids i nth_mem by blast
  then have "reorderIds ordered vis ! i \<noteq> None" using rows unfolding rowsOk_def by metis
  then obtain k where k: "reorderIds ordered vis ! i = Some k" by blast
  with mem obtain s where s: "Row s \<in> set rows" "se_id s = k" using rowsOk_Row [OF rows] by metis
  then have "byIdGet rows (reorderIds ordered vis ! i) = Some (Row s)" using byIdGet_Some [OF rows] k by metis
  then show ?thesis
    using s k i by (intro exI [of _ s]) (simp add: handleReorderRows_def Let_def nth_enumerate_eq withSeq_def)
qed

lemma length_handleReorderRows [simp]: "length (handleReorderRows ordered vis rows) = length (reorderIds ordered vis)"
  by (simp add: handleReorderRows_def Let_def)

lemma handleReorderRows_ids:
  assumes "rowsOk rows" and "set (reorderIds ordered vis) \<subseteq> set (map rowId rows)"
  shows "map rowId (handleReorderRows ordered vis rows) = reorderIds ordered vis \<and>
    map rowSeq (handleReorderRows ordered vis rows) = map int [0..<length (reorderIds ordered vis)]"
proof
  show "map rowId (handleReorderRows ordered vis rows) = reorderIds ordered vis"
    by (rule nth_equalityI) (use handleReorderRows_nth [OF assms] in force)+
  show "map rowSeq (handleReorderRows ordered vis rows) = map int [0..<length (reorderIds ordered vis)]"
    by (rule nth_equalityI) (use handleReorderRows_nth [OF assms] in force)+
qed

lemma subseq_distinct: "subseq xs ys \<Longrightarrow> distinct ys \<Longrightarrow> distinct xs \<and> set xs \<subseteq> set ys"
  by (induction rule: list_emb.induct) auto

lemma orderedIds_subseq:
  assumes "rowsOk rows" and "subseq vis rows"
  shows "map Some (orderedIds vis) = map rowId vis \<and> distinct (orderedIds vis) \<and>
    Some ` set (orderedIds vis) \<subseteq> set (map rowId rows)"
proof -
  have "subseq (map rowId vis) (map rowId rows)" using assms(2) by (rule subseq_map)
  then have sub: "distinct (map rowId vis)" "set (map rowId vis) \<subseteq> set (map rowId rows)"
    using assms(1) subseq_distinct unfolding rowsOk_def by blast+
  then have "None \<notin> set (map rowId vis)" using assms(1) unfolding rowsOk_def by blast
  then have "list_all (\<lambda>r. rowId r \<noteq> None) vis" by (force simp: list_all_iff)
  then have eq: "map Some (orderedIds vis) = map rowId vis"
    by (induction vis) (auto simp: orderedIds_def map_filter_simps)
  have "distinct (orderedIds vis)" using sub(1) unfolding eq [symmetric] by (simp add: distinct_map)
  moreover have "Some ` set (orderedIds vis) \<subseteq> set (map rowId rows)" using sub(2) unfolding eq [symmetric] by simp
  ultimately show ?thesis using eq by blast
qed

lemma lookupRow_mem: "rowsOk rows \<Longrightarrow> Row s \<in> set rows \<Longrightarrow> lookupRow (se_id s) rows = Some s"
proof (induction rows)
  case (Cons r rows)
  show ?case
  proof (cases "r = Row s")
    case False
    then have s: "Row s \<in> set rows" using Cons.prems(2) by simp
    then have "rowId (Row s) \<in> rowId ` set rows" by (rule imageI)
    then have "rowId r \<noteq> Some (se_id s)" using Cons.prems(1) unfolding rowsOk_def by fastforce
    then show ?thesis using Cons.IH s Cons.prems(1) by (cases r) (auto simp: rowsOk_def)
  qed simp
qed simp

context reorder_hook
begin

text \<open>What the page may conclude from the contract of the hook it uses: a reported order is applied
  to the current list without losing, inventing or hiding a session.\<close>

lemma reorder_applied:
  assumes rows: "rowsOk rows" and vis: "subseq vis (sortBySeq rows)"
    and em: "emits (orderedIds vis) ids"
  shows "(let new = handleReorderRows (sortBySeq rows) ids rows
    in rowsOk new \<and> sortBySeq new = new \<and>
       filter (\<lambda>x. x \<in> Some ` set ids) (map rowId new) = map Some ids \<and>
       (\<forall>i<length rows. rowId (sortBySeq rows ! i) \<notin> Some ` set ids \<longrightarrow>
          rowId (new ! i) = rowId (sortBySeq rows ! i)) \<and>
       (\<forall>k. map_option (\<lambda>s. s\<lparr>se_seq := None\<rparr>) (lookupRow k new) =
            map_option (\<lambda>s. s\<lparr>se_seq := None\<rparr>) (lookupRow k rows)))"
proof -
  define ordered where "ordered = sortBySeq rows"
  define new where "new = handleReorderRows ordered ids rows"
  have ok: "rowsOk ordered" "mset (map rowId ordered) = mset (map rowId rows)"
    using rows by (simp_all add: ordered_def mset_sortBySeq)
  have v: "distinct (orderedIds vis)" "Some ` set (orderedIds vis) \<subseteq> set (map rowId ordered)"
    using orderedIds_subseq [OF ok(1), of vis] vis by (simp_all add: ordered_def)
  have ids: "distinct ids" "Some ` set ids \<subseteq> set (map rowId ordered)"
    using v emits_distinct [OF em] emits_set [OF em] by simp_all
  note perm = reorderIds_perm [OF ok(1) ids]
  have set: "set (reorderIds ordered ids) = set (map rowId rows)"
    using perm ok(2) by (metis mset_eq_setD)
  have new: "map rowId new = reorderIds ordered ids" "map rowSeq new = map int [0..<length (reorderIds ordered ids)]"
    using handleReorderRows_ids [OF rows] set by (simp_all add: new_def)
  have rok: "rowsOk new"
    using rows perm ok(2) set distinct_mset_eq unfolding rowsOk_def new(1) by metis
  have "List.linorder_class.sorted (map rowSeq new)" unfolding new(2) by (simp add: sorted_wrt_map)
  then have srt: "sortBySeq new = new" unfolding sortBySeq_def by (rule sort_key_id_if_sorted)
  have len: "length new = length rows" "length ordered = length rows"
    using new(1) perm ok(2) by (metis length_map size_mset)+
  have hidden: "rowId (new ! i) = rowId (ordered ! i)"
    if "i < length rows" "rowId (ordered ! i) \<notin> Some ` set ids" for i
    using perm that len new(1) by (metis nth_map)
  have look: "map_option (\<lambda>s. s\<lparr>se_seq := None\<rparr>) (lookupRow k new) = map_option (\<lambda>s. s\<lparr>se_seq := None\<rparr>) (lookupRow k rows)" for k
  proof (cases "Some k \<in> set (map rowId rows)")
    case False
    then have "lookupRow k rows = None" "lookupRow k new = None"
      unfolding lookupRow_None new(1) set by simp_all
    then show ?thesis by simp
  next
    case True
    then obtain i where i: "i < length (reorderIds ordered ids)" "reorderIds ordered ids ! i = Some k"
      using set by (metis in_set_conv_nth)
    then obtain s where s: "Row s \<in> set rows" "se_id s = k" "new ! i = Row (s\<lparr>se_seq := Some (int i)\<rparr>)"
      using handleReorderRows_nth [OF rows, of ordered ids i] set unfolding new_def by auto
    have "Row (s\<lparr>se_seq := Some (int i)\<rparr>) \<in> set new"
      using s(3) i(1) new(1) by (metis length_map nth_mem)
    then have "lookupRow k new = Some (s\<lparr>se_seq := Some (int i)\<rparr>)" using lookupRow_mem [OF rok] s(2) by fastforce
    moreover have "lookupRow k rows = Some s" using lookupRow_mem [OF rows s(1)] s(2) by simp
    ultimately show ?thesis by simp
  qed
  show ?thesis
    using rok srt perm new(1) hidden look by (simp add: Let_def ordered_def [symmetric] new_def [symmetric])
qed

end

subsection \<open>Properties\<close>

text \<open>C26: the list shows, for every session, its last event. After any sequence of updates the row
  listed for an id is the session of the last update that carried this id, no row if that was an
  \<open>end\<close> or \<open>delete\<close>, and the row of before if there was none; updates without a session id change
  nothing, and no id is ever listed twice.\<close>

theorem dashboard_last_event_wins:
  "lookupRow k (fold handleUpdateRows us rows) =
     (case filter (\<lambda>u. updateKey u = Some k) us of [] \<Rightarrow> lookupRow k rows | vs \<Rightarrow> updateEffect (last vs)) \<and>
   (rowsOk rows \<longrightarrow> rowsOk (fold handleUpdateRows us rows))"
  using dashboard_log.last_write_wins [where us = us and st = rows and k = k] rowsOk_fold by simp

definition toy_session :: "string \<Rightarrow> int \<Rightarrow> session" where
  "toy_session i n = \<lparr>se_id = js i, se_user_id = 1, se_host_id = 1, se_host = None, se_name = js i,
     se_started_at = [], se_last_ping_at = None, se_last_activity_at = None, se_ended_at = None,
     se_metadata = None, se_seq = Some n, se_tags = None\<rparr>"

definition toy_update :: "update_event \<Rightarrow> session \<Rightarrow> session_update" where
  "toy_update ev s = \<lparr>su_event = ev, su_session_id = se_id s, su_session = Some s, su_clipboard = None\<rparr>"

definition toy_rows :: "row list" where
  "toy_rows = [Row (toy_session ''a'' 0), Row (toy_session ''b'' 1), Row (toy_session ''c'' 2)]"

theorem dashboard_last_event_wins_witness:
  "lookupRow (js ''d'') (fold handleUpdateRows [toy_update EvStart (toy_session ''d'' 3), toy_update EvEnd (toy_session ''a'' 0)]
     toy_rows) = Some (toy_session ''d'' 3) \<and> rowsOk toy_rows"
proof -
  let ?us = "[toy_update EvStart (toy_session ''d'' 3), toy_update EvEnd (toy_session ''a'' 0)]"
  have "filter (\<lambda>u. updateKey u = Some (js ''d'')) ?us = [toy_update EvStart (toy_session ''d'' 3)]" "rowsOk toy_rows"
    by code_simp+
  then show ?thesis
    using dashboard_last_event_wins [of "js ''d''" ?us toy_rows] by (simp add: updateEffect_def toy_update_def)
qed


definition toy_dashboard :: dashboard where
  "toy_dashboard = initial_dashboard\<lparr>da_sessions := toy_rows\<rparr>"


text \<open>A reorder from an outdated render loses sessions. The pointer hook keeps calling the
  \<open>onReorder\<close> of the render in which the drag began: a session that arrived since then is not among
  the ids it writes, and the new list has no row for it.\<close>

theorem stale_reorder_drops_session:
  assumes "lookupRow k (da_sessions d) = None" and "k \<notin> set ids" and "se_id s = k" and "k \<noteq> []"
    and "su_event u = EvStart" and "su_session u = Some s"
  shows "lookupRow k (da_sessions (handleUpdate u d)) = Some s \<and>
    lookupRow k (da_sessions (fst (handleReorder (orderedSessions d) ids (handleUpdate u d)))) = None"
proof
  show "lookupRow k (da_sessions (handleUpdate u d)) = Some s"
    using assms by (simp add: handleUpdate_def handleUpdateRows_eq lookupRow_upsert)
  let ?rids = "reorderIds (orderedSessions d) ids"
  have "Some (Some k) \<notin> set (mergeLoop vis full n)" if "Some k \<notin> set full" "Some k \<notin> set vis" for vis full n
    using that
  proof (induction full arbitrary: n)
    case (Cons x full)
    then show ?case using js_nth_mem [of vis n "Some k"] by auto
  qed simp
  moreover have "Some k \<notin> set (map rowId (orderedSessions d))"
    using assms(1) unfolding lookupRow_None by (simp add: orderedSessions_def sortBySeq_def)
  ultimately have "Some (Some k) \<notin> set (mergeReorder (map rowId (orderedSessions d)) (map Some ids))"
    using assms(2) by (simp add: mergeReorder_def image_iff)
  then have notin: "Some k \<notin> set ?rids" by (auto simp: reorderIds_def split: bind_splits)
  have "rowId (withSeq i (byIdGet rows x)) \<noteq> Some k" if "x \<noteq> Some k" for i rows x
    using that byIdGet_id [of rows x] by (auto simp: withSeq_def split: option.split row.split)
  then have "Some k \<notin> set (map rowId (handleReorderRows (orderedSessions d) ids rows))" for rows
    using notin by (auto simp: handleReorderRows_def Let_def dest!: in_set_enumerate_eq [THEN iffD1] nth_mem) metis
  then show "lookupRow k (da_sessions (fst (handleReorder (orderedSessions d) ids (handleUpdate u d)))) = None"
    unfolding lookupRow_None by (simp add: handleReorder_def)
qed

theorem stale_reorder_drops_session_witness:
  "let u = toy_update EvStart (toy_session ''d'' 3); ids = [js ''b'', js ''a'', js ''c'']
   in lookupRow (js ''d'') (da_sessions (handleUpdate u toy_dashboard)) = Some (toy_session ''d'' 3) \<and>
      lookupRow (js ''d'') (da_sessions (fst (handleReorder (orderedSessions toy_dashboard) ids (handleUpdate u toy_dashboard)))) = None"
proof -
  have "lookupRow (js ''d'') (da_sessions toy_dashboard) = None" "js ''d'' \<notin> set [js ''b'', js ''a'', js ''c'']"
    by code_simp+
  then show ?thesis
    using stale_reorder_drops_session [of "js ''d''" toy_dashboard "[js ''b'', js ''a'', js ''c'']" "toy_session ''d'' 3"
        "toy_update EvStart (toy_session ''d'' 3)"]
    by (simp add: toy_session_def toy_update_def Let_def)
qed

end
