(* ===== verification/SessionPage.thy ===== *)
theory SessionPage
  imports Dashboard
begin

text \<open>
  The session page (\<open>web/src/pages/SessionDetailPage.tsx\<close>) with the clipboard helpers it uses
  (\<open>web/src/lib/clipboard.ts\<close>): the viewed session, the list of its Sessions tab, the pending
  clipboard buffer with its dismissal timers, and the optimistic tag update.
\<close>

subsection \<open>clipboard.ts\<close>

record key_event =
  ke_keydown :: bool
  ke_code :: jsstring
  ke_meta :: bool
  ke_ctrl :: bool
  ke_shift :: bool
  ke_alt :: bool

datatype clipboard_action = Paste | Flush

definition clipboardKeyAction :: "key_event \<Rightarrow> bool \<Rightarrow> clipboard_action option" where
  "clipboardKeyAction e mac =
     (if \<not> ke_keydown e then None
      else if mac then
        (if ke_meta e \<and> \<not> ke_ctrl e \<and> \<not> ke_alt e \<and> \<not> ke_shift e \<and> ke_code e = js ''KeyV'' then Some Paste
         else if ke_meta e \<and> ke_shift e \<and> ke_code e = js ''KeyC'' then Some Flush
         else None)
      else if ke_ctrl e \<and> ke_shift e \<and> ke_code e = js ''KeyV'' then Some Paste
      else if ke_ctrl e \<and> ke_shift e \<and> ke_code e = js ''KeyC'' then Some Flush
      else None)"

datatype clipboard_status = CbReady | CbCopied | CbError

record clipboard_buffer =
  cb_text :: jsstring
  cb_bytes :: nat
  cb_status :: clipboard_status

definition clipboardBufferFor :: "session_update \<Rightarrow> jsstring \<Rightarrow> clipboard_buffer option" where
  "clipboardBufferFor update currentId =
     (if su_event update \<noteq> EvClipboard \<or> su_session_id update \<noteq> currentId then None
      else let text = (case su_clipboard update of Some t \<Rightarrow> t | None \<Rightarrow> [])
           in Some \<lparr>cb_text = text, cb_bytes = length (textEncode text), cb_status = CbReady\<rparr>)"

subsection \<open>State\<close>

record session_page =
  sp_id :: "jsstring option"               \<comment> \<open>the route parameter\<close>
  sp_session :: "session option"
  sp_sessions :: "row list"
  sp_loading :: bool
  sp_error :: jsstring
  sp_clipboard :: "clipboard_buffer option"
  sp_dismissals :: nat                     \<comment> \<open>pending \<open>setTimeout(() => setClipboard(null), 1200)\<close>\<close>
  sp_panelOpen :: bool
  sp_storage :: storage

definition PANEL_KEY :: jsstring where "PANEL_KEY = js ''sessionPanelCollapsed''"

definition initial_page :: "jsstring option \<Rightarrow> storage \<Rightarrow> session_page" where
  "initial_page i st =
     \<lparr>sp_id = i, sp_session = None, sp_sessions = [], sp_loading = True, sp_error = [], sp_clipboard = None,
      sp_dismissals = 0,
      sp_panelOpen = (case getItem PANEL_KEY st of Some v \<Rightarrow> v \<noteq> Some (js ''1'') | None \<Rightarrow> True),
      sp_storage = st\<rparr>"

definition togglePanel :: "session_page \<Rightarrow> session_page" where
  "togglePanel p =
     (let nxt = \<not> sp_panelOpen p
      in p\<lparr>sp_panelOpen := nxt,
           sp_storage := tryStorage (setItem PANEL_KEY (if nxt then js ''0'' else js ''1'') (sp_storage p)) (sp_storage p)\<rparr>)"

subsection \<open>Loading\<close>

text \<open>\<open>loadSession\<close> after its request, whatever the route parameter has become; the message of an
  error is never empty.\<close>

definition sessionLoaded :: "jsstring + session \<Rightarrow> session_page \<Rightarrow> session_page" where
  "sessionLoaded r p =
     (case r of Inr s \<Rightarrow> p\<lparr>sp_session := Some s, sp_loading := False\<rparr>
      | Inl msg \<Rightarrow> p\<lparr>sp_error := msg, sp_loading := False\<rparr>)"

definition pageSessionsLoaded :: "session list option option \<Rightarrow> session_page \<Rightarrow> session_page" where
  "pageSessionsLoaded r p = p\<lparr>sp_sessions := (case r of Some (Some ss) \<Rightarrow> map Row ss | _ \<Rightarrow> [])\<rparr>"

definition navigateTo :: "jsstring \<Rightarrow> session_page \<Rightarrow> session_page" where
  "navigateTo i p = p\<lparr>sp_id := Some i\<rparr>"

datatype page_view = ViewLoading | ViewError jsstring | ViewSession session

definition renderPage :: "session_page \<Rightarrow> page_view" where
  "renderPage p =
     (if sp_loading p then ViewLoading
      else if sp_error p \<noteq> [] then ViewError (sp_error p)
      else (case sp_session p of None \<Rightarrow> ViewError (js ''Session not found'') | Some s \<Rightarrow> ViewSession s))"

subsection \<open>The update stream\<close>

definition pageUpdateRows :: "session_update \<Rightarrow> row list \<Rightarrow> row list" where
  "pageUpdateRows update prev =
     (case su_session update of
        None \<Rightarrow> prev
      | Some s \<Rightarrow> if su_event update = EvEnd then removeRow (se_id s) prev else upsertRow s prev)"

definition pageHandleUpdate :: "session_update \<Rightarrow> session_page \<Rightarrow> session_page" where
  "pageHandleUpdate update p =
     (if su_event update = EvClipboard then
        (case clipboardBufferFor update (case sp_id p of Some i \<Rightarrow> i | None \<Rightarrow> []) of
           Some buf \<Rightarrow> p\<lparr>sp_clipboard := Some buf\<rparr> | None \<Rightarrow> p)
      else if updateKey update = None then p
      else (if Some (su_session_id update) = sp_id p then p\<lparr>sp_session := su_session update\<rparr> else p)
             \<lparr>sp_sessions := pageUpdateRows update (sp_sessions p)\<rparr>)"

subsection \<open>The clipboard buffer\<close>

text \<open>\<open>handleCopyClipboard\<close>: the text it writes, and what runs when the write settles.\<close>

definition copyText :: "session_page \<Rightarrow> jsstring option" where
  "copyText p = map_option cb_text (sp_clipboard p)"

definition copySettled :: "bool \<Rightarrow> session_page \<Rightarrow> session_page" where
  "copySettled ok p =
     (if ok then p\<lparr>sp_clipboard := map_option (\<lambda>b. b\<lparr>cb_status := CbCopied\<rparr>) (sp_clipboard p),
                   sp_dismissals := Suc (sp_dismissals p)\<rparr>
      else p\<lparr>sp_clipboard := map_option (\<lambda>b. b\<lparr>cb_status := CbError\<rparr>) (sp_clipboard p)\<rparr>)"

definition dismissTimer :: "session_page \<Rightarrow> session_page" where
  "dismissTimer p = (if sp_dismissals p = 0 then p
     else p\<lparr>sp_clipboard := None, sp_dismissals := sp_dismissals p - 1\<rparr>)"

definition handleDismissClipboard :: "session_page \<Rightarrow> session_page" where
  "handleDismissClipboard p = p\<lparr>sp_clipboard := None\<rparr>"

subsection \<open>Reordering, tags, shortcuts\<close>

definition handleReorderSessions :: "row list \<Rightarrow> sid list \<Rightarrow> session_page \<Rightarrow> session_page \<times> sid option list" where
  "handleReorderSessions ordered visibleIds p =
     (p\<lparr>sp_sessions := handleReorderRows ordered visibleIds (sp_sessions p)\<rparr>, reorderIds ordered visibleIds)"

text \<open>\<open>apply(next)\<close> of \<open>handleTagsChange\<close> for the id it closed over.\<close>

definition tagSession :: "jsstring \<Rightarrow> jsstring list option \<Rightarrow> session \<Rightarrow> session" where
  "tagSession i nxt s = (if se_id s = i then s\<lparr>se_tags := nxt\<rparr> else s)"

fun tagRow :: "jsstring \<Rightarrow> jsstring list option \<Rightarrow> row \<Rightarrow> row" where
  "tagRow i nxt (Row s) = Row (tagSession i nxt s)"
| "tagRow i nxt (SeqOnly n) = SeqOnly n"

definition applyTags :: "jsstring \<Rightarrow> jsstring list option \<Rightarrow> session_page \<Rightarrow> session_page" where
  "applyTags i nxt p =
     p\<lparr>sp_session := map_option (tagSession i nxt) (sp_session p),
       sp_sessions := map (tagRow i nxt) (sp_sessions p)\<rparr>"

definition handleTagsChange :: "jsstring list \<Rightarrow> session_page \<Rightarrow> session_page" where
  "handleTagsChange tags p =
     (case sp_id p of Some i \<Rightarrow> if i = [] then p else applyTags i (Some tags) p | None \<Rightarrow> p)"

text \<open>After the request: the server's list, or, on failure, the tags of the render that made the call.\<close>

definition tagsSaved :: "jsstring \<Rightarrow> jsstring list option \<Rightarrow> jsstring list option \<Rightarrow> session_page \<Rightarrow> session_page" where
  "tagsSaved i currentTags saved p =
     (case saved of Some ts \<Rightarrow> applyTags i (Some ts) p | None \<Rightarrow> applyTags i currentTags p)"

text \<open>Ctrl+1..9 in the installed app: the id it navigates to.\<close>

definition shortcutTarget :: "row list \<Rightarrow> jsstring option \<Rightarrow> nat \<Rightarrow> jsstring option" where
  "shortcutTarget visible current digit =
     (if 1 \<le> digit \<and> digit \<le> 9 then
        (case js_nth visible (digit - 1) of
           Some r \<Rightarrow> if rowId r \<noteq> current then rowId r else None
         | None \<Rightarrow> None)
      else None)"

subsection \<open>The list of the Sessions tab\<close>

definition pageListUpdate :: "session_update \<Rightarrow> row list \<Rightarrow> row list" where
  "pageListUpdate u rows = (if su_event u = EvClipboard \<or> updateKey u = None then rows else pageUpdateRows u rows)"

definition pageKey :: "session_update \<Rightarrow> jsstring option" where
  "pageKey u = (if su_event u = EvClipboard then None else updateKey u)"

definition pageEffect :: "session_update \<Rightarrow> session option" where
  "pageEffect u = (if su_event u = EvEnd then None else su_session u)"

lemma pageHandleUpdate_rows: "sp_sessions (pageHandleUpdate u p) = pageListUpdate u (sp_sessions p)"
  by (auto simp: pageHandleUpdate_def pageListUpdate_def split: option.splits)

interpretation page_log: update_log pageListUpdate pageKey pageEffect "\<lambda>rows k. lookupRow k rows"
  by unfold_locales
    (auto simp: pageListUpdate_def pageUpdateRows_def pageKey_def pageEffect_def updateKey_def
      lookupRow_remove lookupRow_upsert split: if_splits option.splits)

lemma tagSession_twice: "tagSession i ts (tagSession i us s) = tagSession i ts s"
  by (simp add: tagSession_def)

lemma tagRow_twice: "tagRow i ts (tagRow i us r) = tagRow i ts r"
  by (cases r) (simp_all add: tagSession_twice)

lemma applyTags_applyTags: "applyTags i ts (applyTags i us p) = applyTags i ts p"
  by (simp add: applyTags_def option.map_comp comp_def tagSession_twice tagRow_twice)

lemma applyTags_same:
  assumes "\<And>s. sp_session p = Some s \<Longrightarrow> se_id s = i \<Longrightarrow> se_tags s = ts"
    and "\<And>s. Row s \<in> set (sp_sessions p) \<Longrightarrow> se_id s = i \<Longrightarrow> se_tags s = ts"
  shows "applyTags i ts p = p"
proof -
  have "map_option (tagSession i ts) (sp_session p) = sp_session p"
    using assms(1) by (cases "sp_session p") (auto simp: tagSession_def)
  moreover have "tagRow i ts r = r" if "r \<in> set (sp_sessions p)" for r
    using assms(2) that by (cases r) (auto simp: tagSession_def)
  then have "map (tagRow i ts) (sp_sessions p) = sp_sessions p" by (rule map_idI)
  ultimately show ?thesis by (simp add: applyTags_def)
qed

subsection \<open>Properties\<close>

text \<open>C37: the Sessions tab follows the dashboard's rules except for two events. For every event other
  than \<open>delete\<close> and \<open>clipboard\<close> the page updates its list exactly as the dashboard does; a \<open>delete\<close>,
  which removes the row on the dashboard, lists the deleted session here.\<close>

theorem session_page_update_rules:
  "(su_event u \<noteq> EvDelete \<and> su_event u \<noteq> EvClipboard \<longrightarrow>
      sp_sessions (pageHandleUpdate u p) = handleUpdateRows u (sp_sessions p)) \<and>
   (su_event u = EvDelete \<and> updateKey u = Some k \<longrightarrow>
      lookupRow k (handleUpdateRows u (sp_sessions p)) = None \<and>
      lookupRow k (sp_sessions (pageHandleUpdate u p)) = su_session u \<and> su_session u \<noteq> None)"
proof (intro conjI impI)
  assume "su_event u \<noteq> EvDelete \<and> su_event u \<noteq> EvClipboard"
  then show "sp_sessions (pageHandleUpdate u p) = handleUpdateRows u (sp_sessions p)"
    by (auto simp: pageHandleUpdate_rows pageListUpdate_def pageUpdateRows_def handleUpdateRows_eq updateKey_def
        split: option.splits)
next
  assume u: "su_event u = EvDelete \<and> updateKey u = Some k"
  show "lookupRow k (handleUpdateRows u (sp_sessions p)) = None"
    using dashboard_log.hit [where u = u and k = k and st = "sp_sessions p"] u by (simp add: updateEffect_def)
  show "lookupRow k (sp_sessions (pageHandleUpdate u p)) = su_session u"
    using page_log.hit [where u = u and k = k and st = "sp_sessions p"] u
    by (simp add: pageHandleUpdate_rows pageKey_def pageEffect_def)
  show "su_session u \<noteq> None" using u by (auto simp: updateKey_Some)
qed

theorem session_page_update_rules_witness:
  "let u = toy_update EvDelete (toy_session ''a'' 0); p = (initial_page None empty_storage)\<lparr>sp_sessions := toy_rows\<rparr>
   in lookupRow (js ''a'') (handleUpdateRows u toy_rows) = None \<and>
      lookupRow (js ''a'') (sp_sessions (pageHandleUpdate u p)) = Some (toy_session ''a'' 0)"
proof -
  let ?u = "toy_update EvDelete (toy_session ''a'' 0)"
  let ?p = "(initial_page None empty_storage)\<lparr>sp_sessions := toy_rows\<rparr>"
  have "su_event ?u = EvDelete" "updateKey ?u = Some (js ''a'')" "su_session ?u = Some (toy_session ''a'' 0)"
    "sp_sessions ?p = toy_rows" by code_simp+
  then show ?thesis using session_page_update_rules [of ?u ?p "js ''a''"] by (simp add: Let_def)
qed

text \<open>A failed save of tags is undone. Changing the tags of the viewed session shows the new list
  everywhere at once; if the save fails, and every copy of the session had the tags of the render that
  made the change, the page is exactly as before; on success it shows the server's list.\<close>

theorem tags_change_rollback:
  assumes "sp_id p = Some i" and "i \<noteq> []"
    and "\<forall>s. sp_session p = Some s \<and> se_id s = i \<longrightarrow> se_tags s = cur"
    and "\<forall>s. Row s \<in> set (sp_sessions p) \<and> se_id s = i \<longrightarrow> se_tags s = cur"
  shows "tagsSaved i cur None (handleTagsChange tags p) = p \<and>
    tagsSaved i cur (Some stored) (handleTagsChange tags p) = applyTags i (Some stored) p"
  using assms applyTags_same [of p i cur] by (simp add: handleTagsChange_def tagsSaved_def applyTags_applyTags)

definition toy_page :: session_page where
  "toy_page = (initial_page (Some (js ''a'')) empty_storage)
     \<lparr>sp_sessions := toy_rows, sp_session := Some (toy_session ''a'' 0), sp_loading := False\<rparr>"

theorem tags_change_rollback_witness:
  "tagsSaved (js ''a'') None None (handleTagsChange [js ''x''] toy_page) = toy_page"
proof -
  have p: "sp_id toy_page = Some (js ''a'')" "sp_sessions toy_page = toy_rows"
    "sp_session toy_page = Some (toy_session ''a'' 0)" by code_simp+
  have "se_tags s = None" if "Row s \<in> set toy_rows" for s
    using that by (auto simp: toy_rows_def toy_session_def)
  then show ?thesis
    using tags_change_rollback [of toy_page "js ''a''" None "[js ''x'']"] p by (simp add: toy_session_def)
qed

text \<open>A clipboard push can be lost. When the buffer has been copied, its dismissal is pending; a new
  push for the viewed session replaces the buffer, and the old dismissal then discards it although it
  was never written. A push that arrives while a write is under way is marked as copied, although the
  text written is the old one.\<close>

theorem clipboard_push_lost:
  assumes "sp_clipboard p = Some b" and "su_event u = EvClipboard" and "sp_id p = Some (su_session_id u)"
    and "su_clipboard u = Some t"
  shows "map_option cb_text (sp_clipboard (pageHandleUpdate u (copySettled True p))) = Some t \<and>
    sp_clipboard (dismissTimer (pageHandleUpdate u (copySettled True p))) = None \<and>
    copyText p = Some (cb_text b) \<and>
    map_option (\<lambda>c. (cb_text c, cb_status c)) (sp_clipboard (copySettled True (pageHandleUpdate u p))) = Some (t, CbCopied)"
  using assms by (simp add: pageHandleUpdate_def copySettled_def dismissTimer_def copyText_def clipboardBufferFor_def Let_def)

theorem clipboard_push_lost_witness:
  "let p = toy_page\<lparr>sp_clipboard := Some \<lparr>cb_text = js ''old'', cb_bytes = 3, cb_status = CbReady\<rparr>\<rparr>;
       u = \<lparr>su_event = EvClipboard, su_session_id = js ''a'', su_session = None, su_clipboard = Some (js ''new'')\<rparr>
   in sp_clipboard (dismissTimer (pageHandleUpdate u (copySettled True p))) = None"
proof -
  let ?p = "toy_page\<lparr>sp_clipboard := Some \<lparr>cb_text = js ''old'', cb_bytes = 3, cb_status = CbReady\<rparr>\<rparr>"
  let ?u = "\<lparr>su_event = EvClipboard, su_session_id = js ''a'', su_session = None, su_clipboard = Some (js ''new'')\<rparr>"
  have "sp_id ?p = Some (su_session_id ?u)" by code_simp
  then show ?thesis using clipboard_push_lost [of ?p _ ?u "js ''new''"] by (simp add: Let_def)
qed

text \<open>An error of an earlier load hides every session loaded afterwards, and a load that answers
  after the user has moved on still replaces the viewed session.\<close>

lemma load_error_sticky:
  "msg \<noteq> [] \<Longrightarrow> renderPage (sessionLoaded (Inr s) (navigateTo i (sessionLoaded (Inl msg) p))) = ViewError msg"
  by (simp add: renderPage_def sessionLoaded_def navigateTo_def)

lemma late_load_wins:
  "sp_error p = [] \<Longrightarrow> sp_id (navigateTo i p) = Some i \<and>
     renderPage (sessionLoaded (Inr s) (sessionLoaded (Inr s') (navigateTo i p))) = ViewSession s"
  by (simp add: renderPage_def sessionLoaded_def navigateTo_def)

end
