(* ===== verification/QuickKeys.thy ===== *)
theory QuickKeys
  imports Json
begin

text \<open>
  Encoding of quick keys into terminal input: \<open>web/src/lib/quick-keys.ts\<close>. Combos become xterm
  sequences; the key tables are objects, so a key named like a member of \<open>Object.prototype\<close> finds that
  member (\<open>csiLookup\<close>). \<open>lc\<close> is \<open>toLowerCase\<close>.
\<close>

datatype quick_key_step =
    Combo (qk_ctrl: bool) (qk_alt: bool) (qk_shift: bool) (qk_key: jsstring)
  | Literal (qk_text: jsstring) (qk_enter: bool)

definition ESC :: byte where "ESC = 0x1b"
definition CSI :: byte where "CSI = 0x5b"
definition SS3 :: byte where "SS3 = 0x4f"

text \<open>The \<open>num\<close> of a table entry: a number, \<open>null\<close>, or \<open>undefined\<close> for an inherited member.\<close>

datatype csi_num = CsiNull | CsiNum nat | CsiUndefined

definition CSI_KEYS :: "(jsstring \<times> csi_num \<times> byte) list" where
  "CSI_KEYS =
     [(js ''up'', CsiNull, 0x41), (js ''down'', CsiNull, 0x42), (js ''right'', CsiNull, 0x43),
      (js ''left'', CsiNull, 0x44), (js ''home'', CsiNull, 0x48), (js ''end'', CsiNull, 0x46),
      (js ''page up'', CsiNum 5, 0x7e), (js ''page down'', CsiNum 6, 0x7e), (js ''f5'', CsiNum 15, 0x7e),
      (js ''f6'', CsiNum 17, 0x7e), (js ''f7'', CsiNum 18, 0x7e), (js ''f8'', CsiNum 19, 0x7e),
      (js ''f9'', CsiNum 20, 0x7e), (js ''f10'', CsiNum 21, 0x7e), (js ''f11'', CsiNum 23, 0x7e),
      (js ''f12'', CsiNum 24, 0x7e)]"

definition SS3_KEYS :: "(jsstring \<times> byte) list" where
  "SS3_KEYS = [(js ''f1'', 0x50), (js ''f2'', 0x51), (js ''f3'', 0x52), (js ''f4'', 0x53)]"

text \<open>The lower-case names every object inherits; an element \<open>undefined\<close> of a byte array is 0.\<close>

definition inheritedNames :: "jsstring list" where
  "inheritedNames = [js ''constructor'', js ''__proto__'']"

definition csiLookup :: "jsstring \<Rightarrow> (csi_num \<times> byte) option" where
  "csiLookup key = (if key \<in> set inheritedNames then Some (CsiUndefined, 0) else map_of CSI_KEYS key)"

definition modifierCode :: "bool \<Rightarrow> bool \<Rightarrow> bool \<Rightarrow> nat" where
  "modifierCode ctrl alt shift = 1 + (if shift then 1 else 0) + (if alt then 2 else 0) + (if ctrl then 4 else 0)"

definition asciiDigits :: "nat \<Rightarrow> bytes" where
  "asciiDigits n = map (\<lambda>d. 48 + word_of_nat d) (natDigits n)"

definition prefixEsc :: "bytes \<Rightarrow> bytes" where
  "prefixEsc bs = ESC # bs"

definition isLetter :: "jsstring \<Rightarrow> bool" where
  "isLetter key \<longleftrightarrow> (case key of [u] \<Rightarrow> 97 \<le> u \<and> u \<le> 122 | _ \<Rightarrow> False)"

definition isAlnum :: "jsstring \<Rightarrow> bool" where
  "isAlnum key \<longleftrightarrow> isLetter key \<or> (case key of [u] \<Rightarrow> 48 \<le> u \<and> u \<le> 57 | _ \<Rightarrow> False)"

definition encodeLiteral :: "jsstring \<Rightarrow> bool \<Rightarrow> bytes" where
  "encodeLiteral text enter = (if enter then textEncode text @ [0x0d] else textEncode text)"

definition encodeCsi :: "csi_num \<Rightarrow> byte \<Rightarrow> nat \<Rightarrow> bytes" where
  "encodeCsi num final md =
     (if md = 1 then
        (case num of
           CsiNull \<Rightarrow> [ESC, CSI, final]
         | CsiNum n \<Rightarrow> [ESC, CSI] @ asciiDigits n @ [final]
         | CsiUndefined \<Rightarrow> [ESC, CSI] @ textEncode (js ''undefined'') @ [final])
      else [ESC, CSI] @ asciiDigits (case num of CsiNum n \<Rightarrow> n | _ \<Rightarrow> 1) @ [0x3b] @ asciiDigits md @ [final])"

definition encodeCombo :: "(jsstring \<Rightarrow> jsstring) \<Rightarrow> bool \<Rightarrow> bool \<Rightarrow> bool \<Rightarrow> jsstring \<Rightarrow> bytes" where
  "encodeCombo lc ctrl alt shift key0 =
     (let key = lc key0; md = modifierCode ctrl alt shift
      in if key = js ''escape'' then (if alt then [ESC, ESC] else [ESC])
         else if key = js ''tab'' then
           (if shift then [ESC, CSI, 0x5a] else if alt then [ESC, 0x09] else [0x09])
         else (case csiLookup key of
            Some (num, final) \<Rightarrow> encodeCsi num final md
          | None \<Rightarrow>
              (case map_of SS3_KEYS key of
                 Some ss3 \<Rightarrow> if md = 1 then [ESC, SS3, ss3]
                             else [ESC, CSI, 0x31, 0x3b] @ asciiDigits md @ [ss3]
               | None \<Rightarrow>
                   (let bs = (if ctrl \<and> isLetter key then [ucast (hd (asciiUpper key)) - 64]
                              else if isAlnum key then textEncode (if shift then asciiUpper key else key)
                              else textEncode key)
                    in if alt then prefixEsc bs else bs))))"

fun encodeStep :: "(jsstring \<Rightarrow> jsstring) \<Rightarrow> quick_key_step \<Rightarrow> bytes" where
  "encodeStep lc (Literal text enter) = encodeLiteral text enter"
| "encodeStep lc (Combo ctrl alt shift key) = encodeCombo lc ctrl alt shift key"

text \<open>The copy loop of \<open>encodeSpec\<close>; \<open>None\<close> would be a RangeError.\<close>

fun copyParts :: "bytes list \<Rightarrow> nat \<Rightarrow> bytes \<Rightarrow> bytes option" where
  "copyParts [] off result = Some result"
| "copyParts (part # parts) off result =
     Option.bind (u8_set result part off) (copyParts parts (off + length part))"

definition encodeSpec :: "(jsstring \<Rightarrow> jsstring) \<Rightarrow> quick_key_step list \<Rightarrow> bytes option" where
  "encodeSpec lc spec =
     (let parts = map (encodeStep lc) spec; totalLength = foldl (\<lambda>sum p. sum + length p) 0 parts
      in copyParts parts 0 (newUint8Array totalLength))"

definition hexByte :: "byte \<Rightarrow> jsstring" where
  "hexByte b = js [CHR 0x5C] @ js ''x'' @ [hexDigit (unat b div 16), hexDigit (unat b mod 16)]"

definition previewSpec :: "(jsstring \<Rightarrow> jsstring) \<Rightarrow> quick_key_step list \<Rightarrow> jsstring option" where
  "previewSpec lc spec =
     map_option (\<lambda>bs. concat (map (\<lambda>b. if 0x20 \<le> b \<and> b \<le> 0x7e then [ucast b] else hexByte b) bs)) (encodeSpec lc spec)"

text \<open>\<open>parseSpec\<close>: any JSON value comes back as it is; only a syntax error gives the empty array.\<close>

definition parseSpec :: "jsstring \<Rightarrow> json" where
  "parseSpec s = (case jsonParse s of Some v \<Rightarrow> v | None \<Rightarrow> JArr [])"

record preset =
  pr_name :: jsstring
  pr_token :: jsstring
  pr_spec :: "quick_key_step list"

definition ctrlPreset :: "string \<Rightarrow> string \<Rightarrow> string \<Rightarrow> preset" where
  "ctrlPreset name token key = \<lparr>pr_name = js name, pr_token = js token, pr_spec = [Combo True False False (js key)]\<rparr>"

definition keyPreset :: "string \<Rightarrow> jsstring \<Rightarrow> string \<Rightarrow> preset" where
  "keyPreset name token key = \<lparr>pr_name = js name, pr_token = token, pr_spec = [Combo False False False (js key)]\<rparr>"

definition PRESET_QUICK_KEYS :: "preset list" where
  "PRESET_QUICK_KEYS =
     [ctrlPreset ''Ctrl+C'' ''^C'' ''c'', ctrlPreset ''Ctrl+D'' ''^D'' ''d'', ctrlPreset ''Ctrl+Z'' ''^Z'' ''z'',
      ctrlPreset ''Ctrl+L'' ''^L'' ''l'', ctrlPreset ''Ctrl+A'' ''^A'' ''a'', ctrlPreset ''Ctrl+E'' ''^E'' ''e'',
      keyPreset ''Esc'' (js ''Esc'') ''escape'', keyPreset ''Tab'' (js ''Tab'') ''tab'',
      keyPreset ''Up'' [0x2191] ''up'', keyPreset ''Down'' [0x2193] ''down'', keyPreset ''Left'' [0x2190] ''left'',
      keyPreset ''Right'' [0x2192] ''right'', keyPreset ''F1'' (js ''F1'') ''f1'', keyPreset ''F2'' (js ''F2'') ''f2'',
      keyPreset ''F3'' (js ''F3'') ''f3'', keyPreset ''F4'' (js ''F4'') ''f4'', keyPreset ''F5'' (js ''F5'') ''f5'',
      keyPreset ''F6'' (js ''F6'') ''f6'', keyPreset ''F7'' (js ''F7'') ''f7'', keyPreset ''F8'' (js ''F8'') ''f8'',
      keyPreset ''F9'' (js ''F9'') ''f9'', keyPreset ''F10'' (js ''F10'') ''f10'', keyPreset ''F11'' (js ''F11'') ''f11'',
      keyPreset ''F12'' (js ''F12'') ''f12'', keyPreset ''Home'' (js ''Home'') ''home'', keyPreset ''End'' (js ''End'') ''end'',
      keyPreset ''PgUp'' (js ''PgUp'') ''page up'', keyPreset ''PgDn'' (js ''PgDn'') ''page down'']"

subsection \<open>Laws\<close>

lemma foldl_length: "foldl (\<lambda>sum p. sum + length p) n parts = n + length (concat parts)"
  by (induction parts arbitrary: n) simp_all

lemma copyParts_concat:
  "copyParts parts (length done) (done @ newUint8Array (length (concat parts))) = Some (done @ concat parts)"
proof (induction parts arbitrary: "done")
  case (Cons part parts)
  have "u8_set (done @ newUint8Array (length (concat (part # parts)))) part (length done) =
      Some ((done @ part) @ newUint8Array (length (concat parts)))"
    by (simp add: u8_set_def newUint8Array_def drop_replicate)
  then show ?case using Cons [of "done @ part"] by simp
qed (simp add: newUint8Array_def)

lemma encodeSpec_concat: "encodeSpec lc spec = Some (concat (map (encodeStep lc) spec))"
  using copyParts_concat [of "map (encodeStep lc) spec" "[]"] by (simp add: encodeSpec_def Let_def foldl_length)

text \<open>Decimal digits are injective and never a semicolon.\<close>

lemma digit_inj: "d < 10 \<Longrightarrow> e < 10 \<Longrightarrow> (48 + word_of_nat d :: byte) = 48 + word_of_nat e \<longleftrightarrow> d = e"
  by (simp add: word_of_nat_eq_iff take_bit_nat_eq_self)

lemma asciiDigits_inj: "asciiDigits m = asciiDigits n \<longleftrightarrow> m = n"
proof
  assume eq: "asciiDigits m = asciiDigits n"
  have "natDigits m = natDigits n"
  proof (rule nth_equalityI)
    show len: "length (natDigits m) = length (natDigits n)"
      using eq unfolding asciiDigits_def by (rule map_eq_imp_length_eq)
    fix i
    assume i: "i < length (natDigits m)"
    then have "(48 + word_of_nat (natDigits m ! i) :: byte) = 48 + word_of_nat (natDigits n ! i)"
      using eq len unfolding asciiDigits_def by (metis nth_map)
    moreover have "natDigits m ! i < 10" "natDigits n ! i < 10"
      using natDigits_value i len by (auto simp: list_all_length)
    ultimately show "natDigits m ! i = natDigits n ! i" using digit_inj by blast
  qed
  then show "m = n" using natDigits_value by metis
qed simp

lemma digit_not_semicolon: "d < 10 \<Longrightarrow> (48 + word_of_nat d :: byte) \<noteq> 0x3b"
proof -
  have "list_all (\<lambda>d. (48 + word_of_nat d :: byte) \<noteq> 0x3b) [0..<10]" by code_simp
  then show "d < 10 \<Longrightarrow> ?thesis" by (simp add: list_all_iff)
qed

lemma asciiDigits_semicolon: "0x3b \<notin> set (asciiDigits n)"
  using natDigits_value [of n] digit_not_semicolon by (fastforce simp: asciiDigits_def list_all_iff)

lemma asciiDigits_nonempty [simp]: "asciiDigits n \<noteq> []" "[] \<noteq> asciiDigits n"
  by (simp_all add: asciiDigits_def natDigits.simps [of n])

text \<open>The navigation and function keys: what each sends for a modifier code.\<close>

datatype special_kind = KCsi csi_num byte | KSs3 byte

definition specialTable :: "(jsstring \<times> special_kind) list" where
  "specialTable = map (\<lambda>(k, n, f). (k, KCsi n f)) CSI_KEYS @ map (\<lambda>(k, f). (k, KSs3 f)) SS3_KEYS"

fun seqIntro :: "special_kind \<Rightarrow> nat \<Rightarrow> byte" where
  "seqIntro (KCsi n f) md = CSI"
| "seqIntro (KSs3 f) md = (if md = 1 then SS3 else CSI)"

fun seqMid :: "special_kind \<Rightarrow> nat \<Rightarrow> bytes" where
  "seqMid (KCsi CsiNull f) md = (if md = 1 then [] else asciiDigits 1 @ 0x3b # asciiDigits md)"
| "seqMid (KCsi (CsiNum n) f) md = (if md = 1 then asciiDigits n else asciiDigits n @ 0x3b # asciiDigits md)"
| "seqMid (KCsi CsiUndefined f) md = []"
| "seqMid (KSs3 f) md = (if md = 1 then [] else asciiDigits 1 @ 0x3b # asciiDigits md)"

fun seqFinal :: "special_kind \<Rightarrow> byte" where
  "seqFinal (KCsi n f) = f"
| "seqFinal (KSs3 f) = f"

fun kindNum :: "special_kind \<Rightarrow> nat" where
  "kindNum (KCsi (CsiNum n) f) = n"
| "kindNum k = 1"

lemma digits_one: "asciiDigits 1 = [0x31]"
  by code_simp

lemma special_lookup:
  "list_all (\<lambda>(k, kind). k \<noteq> js ''escape'' \<and> k \<noteq> js ''tab'' \<and>
     (case kind of KCsi n f \<Rightarrow> csiLookup k = Some (n, f) \<and> n \<noteq> CsiUndefined
      | KSs3 f \<Rightarrow> csiLookup k = None \<and> map_of SS3_KEYS k = Some f)) specialTable"
  by (simp add: specialTable_def CSI_KEYS_def SS3_KEYS_def csiLookup_def inheritedNames_def)

lemma special_sequence:
  assumes "(k, kind) \<in> set specialTable" and "lc k = k"
  shows "encodeStep lc (Combo c a s k) =
    [ESC, seqIntro kind (modifierCode c a s)] @ seqMid kind (modifierCode c a s) @ [seqFinal kind]"
proof -
  have k: "k \<noteq> js ''escape''" "k \<noteq> js ''tab''"
    "case kind of KCsi n f \<Rightarrow> csiLookup k = Some (n, f) \<and> n \<noteq> CsiUndefined
      | KSs3 f \<Rightarrow> csiLookup k = None \<and> map_of SS3_KEYS k = Some f"
    using special_lookup assms(1) by (auto simp: list_all_iff)
  show ?thesis
  proof (cases kind)
    case (KCsi n f)
    then show ?thesis using k assms(2) by (cases n) (simp_all add: encodeCombo_def Let_def encodeCsi_def)
  next
    case (KSs3 f)
    then show ?thesis using k assms(2) by (simp add: encodeCombo_def Let_def digits_one [unfolded One_nat_def])
  qed
qed

lemma special_finals:
  "distinct (map (\<lambda>(k, kind). (seqFinal kind, kindNum kind)) specialTable)"
  by code_simp

fun bareMid :: "special_kind \<Rightarrow> bytes" where
  "bareMid (KCsi (CsiNum n) f) = asciiDigits n"
| "bareMid k = []"

lemma seqMid_eq:
  "(\<And>f. kind \<noteq> KCsi CsiUndefined f) \<Longrightarrow>
     seqMid kind md = (if md = 1 then bareMid kind else asciiDigits (kindNum kind) @ 0x3b # asciiDigits md)"
  by (cases kind rule: kindNum.cases) auto

lemma bareMid_semicolon: "0x3b \<notin> set (bareMid kind)"
  by (cases kind rule: bareMid.cases) (simp_all add: asciiDigits_semicolon)

lemma bareMid_num: "bareMid k = bareMid k' \<Longrightarrow> kindNum k = kindNum k'"
  by (cases k rule: bareMid.cases; cases k' rule: bareMid.cases) (auto simp: asciiDigits_inj)

lemma seqMid_inj:
  assumes "\<And>f. k \<noteq> KCsi CsiUndefined f" and "\<And>f. k' \<noteq> KCsi CsiUndefined f"
    and "seqMid k md = seqMid k' md'"
  shows "kindNum k = kindNum k' \<and> md = md'"
proof -
  note mk = seqMid_eq [OF assms(1), of md] and mk' = seqMid_eq [OF assms(2), of md']
  consider "md = 1" "md' = 1" | "md \<noteq> 1" "md' \<noteq> 1" | "md = 1" "md' \<noteq> 1" | "md \<noteq> 1" "md' = 1" by blast
  then show ?thesis
  proof cases
    case 1
    then have "bareMid k = bareMid k'" using assms(3) mk mk' by simp
    from bareMid_num [OF this] show ?thesis using 1 by simp
  next
    case 2
    then have "asciiDigits (kindNum k) @ 0x3b # asciiDigits md = asciiDigits (kindNum k') @ 0x3b # asciiDigits md'"
      using assms(3) mk mk' by simp
    from append_sep_inj [OF asciiDigits_semicolon asciiDigits_semicolon this] show ?thesis
      by (simp add: asciiDigits_inj)
  next
    case 3
    then have "bareMid k = asciiDigits (kindNum k') @ 0x3b # asciiDigits md'" using assms(3) mk mk' by simp
    then have "0x3b \<in> set (bareMid k)" by simp
    then show ?thesis using bareMid_semicolon by simp
  next
    case 4
    then have "bareMid k' = asciiDigits (kindNum k) @ 0x3b # asciiDigits md" using assms(3) mk mk' by simp
    then have "0x3b \<in> set (bareMid k')" by simp
    then show ?thesis using bareMid_semicolon by simp
  qed
qed

lemma modifierCode_inj:
  "modifierCode c a s = modifierCode c' a' s' \<longleftrightarrow> c = c' \<and> a = a' \<and> s = s'"
  by (cases c; cases a; cases s; cases c'; cases a'; cases s') (simp_all add: modifierCode_def)

definition specialKeys :: "jsstring list" where
  "specialKeys = map fst CSI_KEYS @ map fst SS3_KEYS"

lemma specialKeys_table: "k \<in> set specialKeys \<Longrightarrow> \<exists>kind. (k, kind) \<in> set specialTable \<and> (\<forall>f. kind \<noteq> KCsi CsiUndefined f)"
proof -
  assume "k \<in> set specialKeys"
  then obtain kind where "(k, kind) \<in> set specialTable" by (force simp: specialKeys_def specialTable_def)
  moreover from this have "\<forall>f. kind \<noteq> KCsi CsiUndefined f" using special_lookup by (auto simp: list_all_iff)
  ultimately show ?thesis by blast
qed

lemma special_kind_inj:
  assumes "(k, kd) \<in> set specialTable" "(k', kd') \<in> set specialTable"
    and "seqFinal kd = seqFinal kd'" "kindNum kd = kindNum kd'"
  shows "k = k'"
proof -
  have "inj_on (\<lambda>(k, kind). (seqFinal kind, kindNum kind)) (set specialTable)"
    using special_finals by (simp add: distinct_map)
  then have "(k, kd) = (k', kd')" by (rule inj_onD) (use assms in simp_all)
  then show ?thesis by simp
qed

definition letters :: "jsstring list" where
  "letters = map (\<lambda>n. [97 + word_of_nat n]) [0..<26]"

lemma letters_not_named:
  "list_all (\<lambda>k. csiLookup k = None \<and> map_of SS3_KEYS k = None \<and> isLetter k \<and> length k = 1) letters"
  by code_simp

lemma ctrl_codes: "map (\<lambda>k. [ucast (hd (asciiUpper k)) - 64 :: byte]) letters = map (\<lambda>n. [word_of_nat n]) [1..<27]"
  by code_simp

subsection \<open>Properties\<close>

text \<open>C34: no two key presses look alike to the terminal. For a case folding that leaves the key names
  alone, two presses of navigation or function keys, each with any of the eight modifier combinations,
  send the same bytes only if key and modifiers are the same; and Ctrl with a letter sends the control
  codes 1 to 26 in order.\<close>

theorem quick_key_sequences:
  assumes "list_all (\<lambda>k. lc k = k) (specialKeys @ letters)"
    and "k \<in> set specialKeys" and "k' \<in> set specialKeys"
  shows "(encodeStep lc (Combo c a s k) = encodeStep lc (Combo c' a' s' k') \<longleftrightarrow> c = c' \<and> a = a' \<and> s = s' \<and> k = k') \<and>
    map (\<lambda>k. encodeStep lc (Combo True False s k)) letters = map (\<lambda>n. [word_of_nat n]) [1..<27]"
proof (rule conjI, rule iffI)
  assume eq: "encodeStep lc (Combo c a s k) = encodeStep lc (Combo c' a' s' k')"
  obtain kd where kd: "(k, kd) \<in> set specialTable" "\<And>f. kd \<noteq> KCsi CsiUndefined f"
    using specialKeys_table [OF assms(2)] by blast
  obtain kd' where kd': "(k', kd') \<in> set specialTable" "\<And>f. kd' \<noteq> KCsi CsiUndefined f"
    using specialKeys_table [OF assms(3)] by blast
  have lc: "lc k = k" "lc k' = k'" using assms by (auto simp: list_all_iff)
  have mid: "seqMid kd (modifierCode c a s) = seqMid kd' (modifierCode c' a' s')" and fin: "seqFinal kd = seqFinal kd'"
    using eq special_sequence [of k kd lc c a s] special_sequence [of k' kd' lc c' a' s'] kd(1) kd'(1) lc
    by (simp_all del: encodeStep.simps)
  have "kindNum kd = kindNum kd' \<and> modifierCode c a s = modifierCode c' a' s'"
    by (rule seqMid_inj [OF kd(2) kd'(2) mid])
  then show "c = c' \<and> a = a' \<and> s = s' \<and> k = k'"
    using special_kind_inj [OF kd(1) kd'(1) fin] by (simp add: modifierCode_inj)
next
  have "encodeStep lc (Combo True False s k) = [ucast (hd (asciiUpper k)) - 64]" if "k \<in> set letters" for k
  proof -
    have "lc k = k" "csiLookup k = None" "map_of SS3_KEYS k = None" "isLetter k" "length k = 1"
      using assms(1) letters_not_named that by (auto simp: list_all_iff)
    then show ?thesis by (auto simp: encodeCombo_def Let_def dest: arg_cong [where f = length])
  qed
  then show "map (\<lambda>k. encodeStep lc (Combo True False s k)) letters = map (\<lambda>n. [word_of_nat n]) [1..<27]"
    unfolding ctrl_codes [symmetric] by simp
qed auto

theorem quick_key_sequences_witness:
  "encodeStep asciiLower (Combo True False False (js ''up'')) \<noteq> encodeStep asciiLower (Combo False False False (js ''f5''))"
proof -
  have "list_all (\<lambda>k. asciiLower k = k) (specialKeys @ letters)" by code_simp
  moreover have "js ''up'' \<in> set specialKeys" "js ''f5'' \<in> set specialKeys"
    by (simp_all add: specialKeys_def CSI_KEYS_def)
  ultimately show ?thesis using quick_key_sequences by blast
qed

end
