(* ===== verification/QuickKeysStore.thy ===== *)
theory QuickKeysStore
  imports QuickKeys
begin

text \<open>
  The quick-key store (\<open>web/src/hooks/useQuickKeys.ts\<close>): optimistic create, update, remove and
  reorder. Each operation is split at its request into the optimistic part and the reconciliation; a
  callback that closes over the rendered list takes it as the argument \<open>snapshot\<close>. The locale
  \<open>optimistic\<close> is what the callers count on: an operation that fails leaves the list as it was.
\<close>

record quick_key =
  qk_id :: int
  qk_user_id :: int
  qk_name :: jsstring
  qk_display_token :: jsstring
  qk_spec :: jsstring
  qk_pinned :: bool
  qk_sort_order :: int
  qk_created_at :: jsstring
  qk_updated_at :: jsstring

record quick_keys =
  qs_keys :: "quick_key list"
  qs_loading :: bool

definition keysLoaded :: "quick_key list option \<Rightarrow> bool \<Rightarrow> quick_keys \<Rightarrow> quick_keys" where
  "keysLoaded r cancelled q =
     (if cancelled then q
      else q\<lparr>qs_keys := (case r of Some ks \<Rightarrow> ks | None \<Rightarrow> []), qs_loading := False\<rparr>)"

subsection \<open>create\<close>

record new_key =
  nk_name :: jsstring
  nk_display_token :: jsstring
  nk_spec :: json
  nk_pinned :: bool

text \<open>\<open>now\<close> is \<open>Date.now()\<close> and \<open>isoNow\<close> its ISO text; the order is the length of the rendered list.\<close>

definition optimisticKey :: "new_key \<Rightarrow> int \<Rightarrow> jsstring \<Rightarrow> nat \<Rightarrow> quick_key" where
  "optimisticKey n now isoNow len = \<lparr>qk_id = - now, qk_user_id = 0, qk_name = nk_name n, qk_display_token = nk_display_token n,
     qk_spec = stringify (nk_spec n), qk_pinned = nk_pinned n, qk_sort_order = int len, qk_created_at = isoNow, qk_updated_at = isoNow\<rparr>"

definition createBegin :: "new_key \<Rightarrow> int \<Rightarrow> jsstring \<Rightarrow> nat \<Rightarrow> quick_key list \<Rightarrow> quick_key list" where
  "createBegin n now isoNow len ks = ks @ [optimisticKey n now isoNow len]"

definition replaceKey :: "int \<Rightarrow> quick_key \<Rightarrow> quick_key list \<Rightarrow> quick_key list" where
  "replaceKey i k ks = map (\<lambda>x. if qk_id x = i then k else x) ks"

definition removeKey :: "int \<Rightarrow> quick_key list \<Rightarrow> quick_key list" where
  "removeKey i ks = filter (\<lambda>x. qk_id x \<noteq> i) ks"

definition createDone :: "int \<Rightarrow> quick_key option \<Rightarrow> quick_key list \<Rightarrow> quick_key list" where
  "createDone tempId r ks = (case r of Some created \<Rightarrow> replaceKey tempId created ks | None \<Rightarrow> removeKey tempId ks)"

subsection \<open>update, togglePin, remove\<close>

record key_fields =
  kf_name :: "jsstring option"
  kf_display_token :: "jsstring option"
  kf_spec :: "jsstring option"
  kf_pinned :: "bool option"
  kf_sort_order :: "int option"

definition orElse :: "'a option \<Rightarrow> 'a \<Rightarrow> 'a" where
  "orElse r d = (case r of Some x \<Rightarrow> x | None \<Rightarrow> d)"

definition mergeFields :: "key_fields \<Rightarrow> quick_key \<Rightarrow> quick_key" where
  "mergeFields f k = k\<lparr>qk_name := orElse (kf_name f) (qk_name k), qk_display_token := orElse (kf_display_token f) (qk_display_token k),
     qk_spec := orElse (kf_spec f) (qk_spec k), qk_pinned := orElse (kf_pinned f) (qk_pinned k),
     qk_sort_order := orElse (kf_sort_order f) (qk_sort_order k)\<rparr>"

definition updateBegin :: "int \<Rightarrow> key_fields \<Rightarrow> quick_key list \<Rightarrow> quick_key list" where
  "updateBegin i f ks = map (\<lambda>k. if qk_id k = i then mergeFields f k else k) ks"

definition updateDone :: "quick_key list \<Rightarrow> int \<Rightarrow> quick_key option \<Rightarrow> quick_key list \<Rightarrow> quick_key list" where
  "updateDone snapshot i r ks = (case r of Some updated \<Rightarrow> replaceKey i updated ks | None \<Rightarrow> snapshot)"

text \<open>\<open>togglePin\<close>: the update it makes, if the key is known.\<close>

definition togglePin :: "int \<Rightarrow> quick_key list \<Rightarrow> key_fields option" where
  "togglePin i snapshot =
     (case find (\<lambda>k. qk_id k = i) snapshot of
        None \<Rightarrow> None
      | Some k \<Rightarrow> Some \<lparr>kf_name = None, kf_display_token = None, kf_spec = None,
                        kf_pinned = Some (\<not> qk_pinned k), kf_sort_order = None\<rparr>)"

definition removeDone :: "quick_key list \<Rightarrow> bool \<Rightarrow> quick_key list \<Rightarrow> quick_key list" where
  "removeDone snapshot ok ks = (if ok then ks else snapshot)"

subsection \<open>reorder\<close>

definition keyMap :: "quick_key list \<Rightarrow> int \<Rightarrow> quick_key option" where
  "keyMap snapshot i = find (\<lambda>k. qk_id k = i) (rev snapshot)"

definition reordered :: "quick_key list \<Rightarrow> int list \<Rightarrow> quick_key list" where
  "reordered snapshot ids =
     List.map_filter (\<lambda>(n, i). map_option (\<lambda>k. k\<lparr>qk_sort_order := int n\<rparr>) (keyMap snapshot i)) (enumerate 0 ids)"

definition reorderBegin :: "int list \<Rightarrow> quick_key list \<Rightarrow> quick_key list" where
  "reorderBegin ids snapshot = reordered snapshot ids @ filter (\<lambda>k. qk_id k \<notin> set ids) snapshot"

text \<open>The \<open>sort_order\<close> sent to the server for each id.\<close>

definition reorderRequests :: "int list \<Rightarrow> quick_key list \<Rightarrow> (int \<times> nat) list" where
  "reorderRequests ids snapshot =
     map (\<lambda>(n, i). (i, n)) (enumerate 0 (filter (\<lambda>i. keyMap snapshot i \<noteq> None) ids))"

definition reorderDone :: "quick_key list \<Rightarrow> bool \<Rightarrow> quick_key list \<Rightarrow> quick_key list" where
  "reorderDone snapshot ok ks = (if ok then ks else snapshot)"

definition pinnedKeys :: "quick_key list \<Rightarrow> (jsstring \<times> json) list" where
  "pinnedKeys ks =
     map (\<lambda>k. (qk_display_token k, parseSpec (qk_spec k))) (sort_key qk_sort_order (filter qk_pinned ks))"

subsection \<open>Failed operations leave no trace\<close>

locale optimistic =
  fixes ready :: "'op \<Rightarrow> 's \<Rightarrow> bool"
    and start :: "'op \<Rightarrow> 's \<Rightarrow> 's"
    and failed :: "'op \<Rightarrow> 's \<Rightarrow> 's \<Rightarrow> 's"      \<comment> \<open>with the state the operation closed over\<close>
  assumes rollback: "ready op s \<Longrightarrow> failed op s (start op s) = s"
begin

lemma failures_leave_no_trace:
  "list_all (\<lambda>op. ready op s) ops \<Longrightarrow> fold (\<lambda>op t. failed op t (start op t)) ops s = s"
  by (induction ops) (simp_all add: rollback)

end

datatype key_op =
    OpCreate new_key int jsstring
  | OpUpdate int key_fields
  | OpRemove int
  | OpReorder "int list"

fun startOp :: "key_op \<Rightarrow> quick_key list \<Rightarrow> quick_key list" where
  "startOp (OpCreate n now isoNow) ks = createBegin n now isoNow (length ks) ks"
| "startOp (OpUpdate i f) ks = updateBegin i f ks"
| "startOp (OpRemove i) ks = removeKey i ks"
| "startOp (OpReorder ids) ks = reorderBegin ids ks"

fun failOp :: "key_op \<Rightarrow> quick_key list \<Rightarrow> quick_key list \<Rightarrow> quick_key list" where
  "failOp (OpCreate n now isoNow) snapshot ks = createDone (- now) None ks"
| "failOp (OpUpdate i f) snapshot ks = updateDone snapshot i None ks"
| "failOp (OpRemove i) snapshot ks = removeDone snapshot False ks"
| "failOp (OpReorder ids) snapshot ks = reorderDone snapshot False ks"

text \<open>A temporary id must not be in use.\<close>

fun readyOp :: "key_op \<Rightarrow> quick_key list \<Rightarrow> bool" where
  "readyOp (OpCreate n now isoNow) ks = (- now \<notin> qk_id ` set ks)"
| "readyOp op ks = True"

lemma removeKey_fresh: "i \<notin> qk_id ` set ks \<Longrightarrow> removeKey i ks = ks"
  by (auto simp: removeKey_def filter_id_conv)

lemma removeKey_append: "removeKey i (xs @ ys) = removeKey i xs @ removeKey i ys"
  by (simp add: removeKey_def)

lemma replaceKey_fresh: "i \<notin> qk_id ` set ks \<Longrightarrow> replaceKey i k ks = ks"
  unfolding replaceKey_def by (rule map_idI) auto

interpretation key_ops: optimistic readyOp startOp failOp
proof
  fix op ks
  assume "readyOp op ks"
  then show "failOp op ks (startOp op ks) = ks"
    by (cases op) (simp_all add: createBegin_def createDone_def removeKey_fresh updateDone_def removeDone_def
        reorderDone_def removeKey_append, simp add: removeKey_def optimisticKey_def)
qed

lemma keyMap_mem: "keyMap ks i = Some k \<Longrightarrow> k \<in> set ks \<and> qk_id k = i"
  by (auto simp: keyMap_def find_Some_iff) (metis nth_mem set_rev length_rev)

lemma keyMap_None: "keyMap ks i = None \<longleftrightarrow> i \<notin> qk_id ` set ks"
  by (auto simp: keyMap_def find_None_iff)

lemma reordered_entries:
  "map (\<lambda>k. (qk_id k, qk_sort_order k)) (reordered ks ids) =
     List.map_filter (\<lambda>(n, i). if keyMap ks i = None then None else Some (i, int n)) (enumerate 0 ids)"
proof -
  have "map (\<lambda>k. (qk_id k, qk_sort_order k))
        (List.map_filter (\<lambda>(n, i). map_option (\<lambda>k. k\<lparr>qk_sort_order := int n\<rparr>) (keyMap ks i)) (enumerate m ids)) =
      List.map_filter (\<lambda>(n, i). if keyMap ks i = None then None else Some (i, int n)) (enumerate m ids)" for m
  proof (induction ids arbitrary: m)
    case (Cons i ids)
    then show ?case
      using keyMap_mem [of ks i] by (cases "keyMap ks i") (auto simp: map_filter_simps)
  qed (simp add: map_filter_simps)
  then show ?thesis by (simp add: reordered_def)
qed

lemma map_filter_enumerate_all:
  "list_all P ids \<Longrightarrow>
     List.map_filter (\<lambda>(n, i). if \<not> P i then None else Some (i, int n)) (enumerate m ids) =
     map (\<lambda>(n, i). (i, int n)) (enumerate m ids)"
  by (induction ids arbitrary: m) (simp_all add: map_filter_simps)

lemma map_filter_enumerate_ids:
  "map fst (List.map_filter (\<lambda>(n, i). if \<not> P i then None else Some (i, int n)) (enumerate m ids)) = filter P ids"
  by (induction ids arbitrary: m) (simp_all add: map_filter_simps)

lemma reordered_ids: "map qk_id (reordered ks ids) = filter (\<lambda>i. i \<in> qk_id ` set ks) ids"
proof -
  have "map qk_id (reordered ks ids) = map fst (map (\<lambda>k. (qk_id k, qk_sort_order k)) (reordered ks ids))"
    by simp
  also have "\<dots> = filter (\<lambda>i. keyMap ks i \<noteq> None) ids"
    unfolding reordered_entries using map_filter_enumerate_ids [of "\<lambda>i. keyMap ks i \<noteq> None" 0 ids] by simp
  finally show ?thesis by (simp add: keyMap_None)
qed

lemma filter_sub_id: "distinct ids \<Longrightarrow> set ids \<subseteq> A \<Longrightarrow> filter (\<lambda>i. i \<in> A) ids = ids"
  by (induction ids) auto

text \<open>An operation of the store that fails leaves the list exactly as it was, and so does any
  sequence of failing operations, provided the temporary id of a create is not in use.\<close>

theorem quick_key_failures_leave_no_trace:
  "list_all (\<lambda>op. readyOp op ks) ops \<Longrightarrow> fold (\<lambda>op t. failOp op t (startOp op t)) ops ks = ks"
  by (rule key_ops.failures_leave_no_trace)

theorem quick_key_failures_leave_no_trace_witness:
  "let k = \<lparr>qk_id = 3, qk_user_id = 1, qk_name = js ''a'', qk_display_token = js ''t'', qk_spec = js ''[]'',
            qk_pinned = True, qk_sort_order = 0, qk_created_at = [], qk_updated_at = []\<rparr>;
       n = \<lparr>nk_name = js ''b'', nk_display_token = js ''u'', nk_spec = JArr [], nk_pinned = False\<rparr>;
       ops = [OpCreate n 1700 [], OpRemove 3, OpReorder [9, 3]]
   in list_all (\<lambda>op. readyOp op [k]) ops \<and> startOp (hd ops) [k] \<noteq> [k] \<and>
      fold (\<lambda>op t. failOp op t (startOp op t)) ops [k] = [k]"
  unfolding Let_def
  by (rule conjI, simp, rule conjI, simp add: createBegin_def, rule quick_key_failures_leave_no_trace, simp)

text \<open>A reorder with distinct ids of the list puts these keys first, in the order given and numbered
  from 0, keeps every other key behind them in its place, loses and invents none, and asks the server
  for exactly the orders shown locally.\<close>

theorem quick_keys_reorder:
  assumes "distinct ids" and "set ids \<subseteq> qk_id ` set ks" and "distinct (map qk_id ks)"
  shows "map qk_id (reorderBegin ids ks) = ids @ filter (\<lambda>i. i \<notin> set ids) (map qk_id ks) \<and>
    mset (map qk_id (reorderBegin ids ks)) = mset (map qk_id ks) \<and>
    map (\<lambda>k. (qk_id k, qk_sort_order k)) (take (length ids) (reorderBegin ids ks)) =
         map (\<lambda>(i, n). (i, int n)) (reorderRequests ids ks) \<and>
    drop (length ids) (reorderBegin ids ks) = filter (\<lambda>k. qk_id k \<notin> set ids) ks"
proof -
  have known: "list_all (\<lambda>i. keyMap ks i \<noteq> None) ids"
    using assms(2) by (auto simp: list_all_iff keyMap_None)
  have ids: "map qk_id (reordered ks ids) = ids"
    using assms(1,2) by (simp add: reordered_ids filter_sub_id)
  then have len: "length (reordered ks ids) = length ids" by (metis length_map)
  have order: "map qk_id (reorderBegin ids ks) = ids @ filter (\<lambda>i. i \<notin> set ids) (map qk_id ks)"
    by (simp add: reorderBegin_def ids filter_map comp_def)
  have perm: "mset (map qk_id (reorderBegin ids ks)) = mset (map qk_id ks)"
    unfolding order using assms by (intro set_eq_iff_mset_eq_distinct [THEN iffD1]) auto
  have "reorderRequests ids ks = map (\<lambda>(n, i). (i, n)) (enumerate 0 ids)"
    using known by (simp add: reorderRequests_def list_all_iff filter_id_conv [THEN iffD2])
  then have numbering: "map (\<lambda>k. (qk_id k, qk_sort_order k)) (take (length ids) (reorderBegin ids ks)) =
         map (\<lambda>(i, n). (i, int n)) (reorderRequests ids ks)"
    using map_filter_enumerate_all [OF known, of 0] reordered_entries [of ks ids]
    by (simp add: reorderBegin_def len case_prod_unfold comp_def)
  have rest: "drop (length ids) (reorderBegin ids ks) = filter (\<lambda>k. qk_id k \<notin> set ids) ks"
    by (simp add: reorderBegin_def len)
  show ?thesis using order perm numbering rest by blast
qed

theorem quick_keys_reorder_witness:
  "let key = \<lambda>i. \<lparr>qk_id = i, qk_user_id = 1, qk_name = [], qk_display_token = [], qk_spec = [], qk_pinned = True,
                   qk_sort_order = 0, qk_created_at = [], qk_updated_at = []\<rparr>;
       ks = map key [4, 5, 6]
   in map qk_id (reorderBegin [6, 4] ks) = [6, 4, 5] \<and> reorderRequests [6, 4] ks = [(6, 0), (4, 1)]"
  using quick_keys_reorder [of "[6, 4]" "map (\<lambda>i. \<lparr>qk_id = i, qk_user_id = 1, qk_name = [], qk_display_token = [],
      qk_spec = [], qk_pinned = True, qk_sort_order = 0, qk_created_at = [], qk_updated_at = []\<rparr>) [4, 5, 6]"]
  by (simp add: Let_def reorderRequests_def keyMap_def)

text \<open>With an id that is not in the list the two numberings differ: the list is numbered by the position
  in \<open>ids\<close>, the requests by the position among the known ids.\<close>

lemma reorder_numbering_diverges:
  "let key = \<lambda>i. \<lparr>qk_id = i, qk_user_id = 1, qk_name = [], qk_display_token = [], qk_spec = [], qk_pinned = True,
                   qk_sort_order = 0, qk_created_at = [], qk_updated_at = []\<rparr>;
       ks = map key [4, 5]
   in map (\<lambda>k. (qk_id k, qk_sort_order k)) (reorderBegin [9, 5, 4] ks) = [(5, 1), (4, 2)] \<and>
      reorderRequests [9, 5, 4] ks = [(5, 0), (4, 1)]"
  by (simp add: Let_def reorderRequests_def reorderBegin_def reordered_def keyMap_def map_filter_simps)

text \<open>A create that succeeds puts the server's key where the temporary one was; the spec of the temporary
  key parses back to the spec given.\<close>

lemma create_succeeds:
  assumes "- now \<notin> qk_id ` set ks"
  shows "createDone (- now) (Some created) (createBegin n now isoNow (length ks) ks) = ks @ [created]"
  using replaceKey_fresh [OF assms, of created]
  by (simp add: createDone_def createBegin_def replaceKey_def optimisticKey_def)

lemma created_spec: "wfJson (nk_spec n) \<Longrightarrow> parseSpec (qk_spec (optimisticKey n now isoNow len)) = nk_spec n"
  by (simp add: parseSpec_def optimisticKey_def jsonParse_stringify)

text \<open>A roll-back restores the snapshot of the render: what other operations did meanwhile is lost.\<close>

lemma rollback_loses_concurrent_create:
  "updateDone [] 1 None (createDone (- now) (Some created) (createBegin n now isoNow 0 (updateBegin 1 f []))) = []"
  by (simp add: updateDone_def)

end
