(* ===== verification/SessionUpdates.thy ===== *)
theory SessionUpdates
  imports Api
begin

text \<open>
  The session-update feed (\<open>web/src/hooks/useSessionUpdates.ts\<close>) as a state machine. The record \<open>feed\<close> has
  the refs of the hook, the sockets it ever opened with the state the browser reports for them, the pending
  timeouts, the clock, and what was sent and delivered. Events of the browser are the constructors of
  \<open>feed_event\<close>; \<open>ustep\<close> says when each can happen. A socket delivers nothing once its close has started.
\<close>

definition STALE_MS :: int where "STALE_MS = 45000"
definition STALE_CHECK_MS :: int where "STALE_CHECK_MS = 5000"
definition BACKOFF_BASE_MS :: int where "BACKOFF_BASE_MS = 1000"
definition BACKOFF_MAX_MS :: int where "BACKOFF_MAX_MS = 15000"

datatype ready_state = CONNECTING | OPEN | CLOSING | CLOSED

record socket =
  sk_url :: jsstring
  sk_token :: "jsstring option"       \<comment> \<open>the token its \<open>onopen\<close> closed over\<close>
  sk_state :: ready_state

record feed =
  fd_browser :: browser
  fd_now :: int
  fd_sockets :: "socket list"
  fd_ws :: "nat option"               \<comment> \<open>\<open>wsRef\<close>\<close>
  fd_last :: int                      \<comment> \<open>\<open>lastMessageAtRef\<close>\<close>
  fd_retry :: "nat option"            \<comment> \<open>\<open>retryTimerRef\<close>\<close>
  fd_timers :: "(nat \<times> int) list"    \<comment> \<open>pending timeouts: id and due time\<close>
  fd_nextTimer :: nat
  fd_attempt :: nat
  fd_mounted :: bool
  fd_interval :: "int option"         \<comment> \<open>next due time of the interval\<close>
  fd_sent :: "(nat \<times> jsstring) list"
  fd_delivered :: "(nat \<times> json) list" \<comment> \<open>calls of the update handler, with the socket\<close>

definition clearTimeoutF :: "nat \<Rightarrow> feed \<Rightarrow> feed" where
  "clearTimeoutF t f = f\<lparr>fd_timers := filter (\<lambda>(k, due). k \<noteq> t) (fd_timers f)\<rparr>"

definition clearRetry :: "feed \<Rightarrow> feed" where
  "clearRetry f = (case fd_retry f of None \<Rightarrow> f | Some t \<Rightarrow> (clearTimeoutF t f)\<lparr>fd_retry := None\<rparr>)"

text \<open>The token is \<open>null\<close> when storage has none.\<close>

definition tokenOf :: "browser \<Rightarrow> jsstring option" where
  "tokenOf b = (case getToken b of Some t \<Rightarrow> t | None \<Rightarrow> None)"

definition connectF :: "feed \<Rightarrow> feed" where
  "connectF f0 =
     (if \<not> fd_mounted f0 then f0
      else let f = clearRetry f0
           in f\<lparr>fd_ws := Some (length (fd_sockets f)),
                fd_sockets := fd_sockets f @ [\<lparr>sk_url = getWsEndpoint (fd_browser f), sk_token = tokenOf (fd_browser f),
                                              sk_state = CONNECTING\<rparr>],
                fd_last := fd_now f\<rparr>)"

definition setState :: "nat \<Rightarrow> ready_state \<Rightarrow> feed \<Rightarrow> feed" where
  "setState i s f = f\<lparr>fd_sockets := (fd_sockets f)[i := (fd_sockets f ! i)\<lparr>sk_state := s\<rparr>]\<rparr>"

text \<open>\<open>ws.close()\<close>: the close handshake starts, unless it has already.\<close>

definition closeSocket :: "nat \<Rightarrow> feed \<Rightarrow> feed" where
  "closeSocket i f =
     (if i < length (fd_sockets f) \<and> sk_state (fd_sockets f ! i) \<in> {CONNECTING, OPEN} then setState i CLOSING f else f)"

definition onopen :: "nat \<Rightarrow> feed \<Rightarrow> feed" where
  "onopen i f =
     f\<lparr>fd_last := fd_now f, fd_attempt := 0,
       fd_sent := (case sk_token (fd_sockets f ! i) of
                     Some t \<Rightarrow> if t = [] then fd_sent f else fd_sent f @ [(i, t)]
                   | None \<Rightarrow> fd_sent f)\<rparr>"

text \<open>\<open>data.error\<close> and \<open>data.event\<close>: reading a member of \<open>null\<close> throws, which the handler catches.\<close>

definition onmessage :: "nat \<Rightarrow> jsstring \<Rightarrow> feed \<Rightarrow> feed" where
  "onmessage i text f0 =
     (let f = f0\<lparr>fd_last := fd_now f0\<rparr>
      in case jsonParse text of
           None \<Rightarrow> f
         | Some data \<Rightarrow>
             if data = JNull then f
             else if (case jfield (js ''error'') data of Some e \<Rightarrow> truthyJson e | None \<Rightarrow> False) then closeSocket i f
             else if jfield (js ''event'') data = Some (JStr (js ''heartbeat'')) then f
             else f\<lparr>fd_delivered := fd_delivered f @ [(i, data)]\<rparr>)"

definition backoff :: "nat \<Rightarrow> int" where
  "backoff n = min (BACKOFF_BASE_MS * 2 ^ n) BACKOFF_MAX_MS"

definition onclose :: "nat \<Rightarrow> feed \<Rightarrow> feed" where
  "onclose i f =
     (if fd_ws f \<noteq> Some i then f
      else if \<not> fd_mounted f then f\<lparr>fd_ws := None\<rparr>
      else f\<lparr>fd_ws := None, fd_attempt := Suc (fd_attempt f), fd_retry := Some (fd_nextTimer f),
             fd_timers := fd_timers f @ [(fd_nextTimer f, fd_now f + backoff (fd_attempt f))],
             fd_nextTimer := Suc (fd_nextTimer f)\<rparr>)"

definition closeOpt :: "nat option \<Rightarrow> feed \<Rightarrow> feed" where
  "closeOpt ws f = (case ws of Some i \<Rightarrow> closeSocket i f | None \<Rightarrow> f)"

definition forceReconnect :: "feed \<Rightarrow> feed" where
  "forceReconnect f =
     (if \<not> fd_mounted f then f
      else connectF ((closeOpt (fd_ws f) (f\<lparr>fd_ws := None\<rparr>))\<lparr>fd_attempt := 0\<rparr>))"

definition checkLiveness :: "feed \<Rightarrow> feed" where
  "checkLiveness f =
     (if \<not> fd_mounted f then f
      else case fd_ws f of
             None \<Rightarrow> if fd_retry f = None then connectF f else f
           | Some i \<Rightarrow>
               if sk_state (fd_sockets f ! i) \<in> {CLOSED, CLOSING} then f
               else if fd_now f - fd_last f > STALE_MS then forceReconnect f else f)"

definition mountFeed :: "feed \<Rightarrow> feed" where
  "mountFeed f = (connectF (f\<lparr>fd_mounted := True\<rparr>))\<lparr>fd_interval := Some (fd_now f + STALE_CHECK_MS)\<rparr>"

definition unmountFeed :: "feed \<Rightarrow> feed" where
  "unmountFeed f0 =
     (let f = clearRetry (f0\<lparr>fd_mounted := False, fd_interval := None\<rparr>)
      in closeOpt (fd_ws f) (f\<lparr>fd_ws := None\<rparr>))"

subsection \<open>Events\<close>

datatype feed_event =
    FeOpen nat | FeMessage nat jsstring | FeClose nat
  | FeTimer nat | FeTick | FeOnline | FeVisible bool | FeReconnect
  | FeMount | FeUnmount | FeTime int | FeBrowser browser

definition live :: "ready_state set \<Rightarrow> nat \<Rightarrow> feed \<Rightarrow> bool" where
  "live S i f \<longleftrightarrow> i < length (fd_sockets f) \<and> sk_state (fd_sockets f ! i) \<in> S"

text \<open>When the browser can deliver an event: a socket opens once, delivers while open and closes once;
  a timeout fires when it is due; listeners exist while mounted.\<close>

fun enabled :: "feed_event \<Rightarrow> feed \<Rightarrow> bool" where
  "enabled (FeOpen i) f = live {CONNECTING} i f"
| "enabled (FeMessage i text) f = live {OPEN} i f"
| "enabled (FeClose i) f = live {CONNECTING, OPEN, CLOSING} i f"
| "enabled (FeTimer t) f = list_ex (\<lambda>(k, due). k = t \<and> due \<le> fd_now f) (fd_timers f)"
| "enabled FeTick f = (case fd_interval f of Some due \<Rightarrow> due \<le> fd_now f | None \<Rightarrow> False)"
| "enabled FeOnline f = fd_mounted f"
| "enabled (FeVisible v) f = fd_mounted f"
| "enabled FeReconnect f = True"
| "enabled FeMount f = (\<not> fd_mounted f)"
| "enabled FeUnmount f = fd_mounted f"
| "enabled (FeTime d) f = (0 \<le> d)"
| "enabled (FeBrowser b) f = True"

fun feedEvent :: "feed_event \<Rightarrow> feed \<Rightarrow> feed" where
  "feedEvent (FeOpen i) f = onopen i (setState i OPEN f)"
| "feedEvent (FeMessage i text) f = onmessage i text f"
| "feedEvent (FeClose i) f = onclose i (setState i CLOSED f)"
| "feedEvent (FeTimer t) f = connectF (clearTimeoutF t f)"
| "feedEvent FeTick f = checkLiveness (f\<lparr>fd_interval := Some (fd_now f + STALE_CHECK_MS)\<rparr>)"
| "feedEvent FeOnline f = forceReconnect f"
| "feedEvent (FeVisible v) f = (if v then checkLiveness f else f)"
| "feedEvent FeReconnect f = forceReconnect f"
| "feedEvent FeMount f = mountFeed f"
| "feedEvent FeUnmount f = unmountFeed f"
| "feedEvent (FeTime d) f = f\<lparr>fd_now := fd_now f + d\<rparr>"
| "feedEvent (FeBrowser b) f = f\<lparr>fd_browser := b\<rparr>"

definition newFeed :: "browser \<Rightarrow> int \<Rightarrow> feed" where
  "newFeed b now = \<lparr>fd_browser = b, fd_now = now, fd_sockets = [], fd_ws = None, fd_last = now, fd_retry = None,
     fd_timers = [], fd_nextTimer = 0, fd_attempt = 0, fd_mounted = True, fd_interval = None, fd_sent = [],
     fd_delivered = []\<rparr>"

definition feedInit :: "feed \<Rightarrow> bool" where
  "feedInit f \<longleftrightarrow> (\<exists>b now. f = mountFeed (newFeed b now))"

inductive ustep :: "feed \<Rightarrow> feed \<Rightarrow> bool" where
  ustep_event: "enabled e f \<Longrightarrow> ustep f (feedEvent e f)"

inductive_cases ustepE: "ustep f g"

subsection \<open>The invariant\<close>

definition socketsOk :: "feed \<Rightarrow> bool" where
  "socketsOk f \<longleftrightarrow> (\<forall>i < length (fd_sockets f). fd_ws f \<noteq> Some i \<longrightarrow> sk_state (fd_sockets f ! i) \<in> {CLOSING, CLOSED}) \<and>
     (\<forall>w. fd_ws f = Some w \<longrightarrow> fd_mounted f \<and> fd_retry f = None \<and> w < length (fd_sockets f) \<and> sk_state (fd_sockets f ! w) \<noteq> CLOSED)"

definition timersOk :: "feed \<Rightarrow> bool" where
  "timersOk f \<longleftrightarrow> map fst (fd_timers f) = (case fd_retry f of None \<Rightarrow> [] | Some t \<Rightarrow> [t]) \<and>
     (fd_retry f \<noteq> None \<longrightarrow> fd_mounted f) \<and>
     (\<forall>(t, due) \<in> set (fd_timers f). due \<le> fd_now f + BACKOFF_MAX_MS) \<and> fd_last f \<le> fd_now f"

definition intervalOk :: "feed \<Rightarrow> bool" where
  "intervalOk f \<longleftrightarrow> (fd_mounted f \<longleftrightarrow> fd_interval f \<noteq> None) \<and>
     (\<forall>due. fd_interval f = Some due \<longrightarrow> due \<le> fd_now f + STALE_CHECK_MS)"

definition linked :: "feed \<Rightarrow> bool" where
  "linked f \<longleftrightarrow> \<not> fd_mounted f \<or> fd_ws f \<noteq> None \<or> fd_retry f \<noteq> None"

definition feedInv :: "feed \<Rightarrow> bool" where
  "feedInv f \<longleftrightarrow> socketsOk f \<and> timersOk f \<and> intervalOk f \<and> linked f"

lemmas feed_ok_defs = socketsOk_def timersOk_def intervalOk_def linked_def

lemma backoff_bounds: "1000 \<le> backoff n \<and> backoff n \<le> BACKOFF_MAX_MS"
proof -
  have "(1 :: int) \<le> 2 ^ n" by simp
  then show ?thesis by (simp add: backoff_def BACKOFF_BASE_MS_def BACKOFF_MAX_MS_def)
qed

text \<open>Without a current socket, connecting gives one and cancels the retry.\<close>

lemma map_fst_filter_single:
  "map fst xs = [t] \<Longrightarrow> filter (\<lambda>(k, due). k \<noteq> t) xs = []"
  by (auto simp: map_eq_Cons_conv)

lemma clearRetry_fields:
  "timersOk f \<Longrightarrow> clearRetry f = f\<lparr>fd_retry := None, fd_timers := []\<rparr>"
  by (cases "fd_retry f")
    (auto simp: timersOk_def clearRetry_def clearTimeoutF_def map_fst_filter_single)

lemma connectF_retry_gone: "map fst (fd_timers f) = [] \<Longrightarrow> clearRetry f = f\<lparr>fd_retry := None, fd_timers := []\<rparr>"
  by (cases "fd_retry f") (auto simp: clearRetry_def clearTimeoutF_def)

lemma connectF_ok:
  assumes "fd_mounted f" and "fd_ws f = None" and "socketsOk f"
    and "clearRetry f = f\<lparr>fd_retry := None, fd_timers := []\<rparr>"
  shows "socketsOk (connectF f) \<and> timersOk (connectF f) \<and> linked (connectF f) \<and> fd_mounted (connectF f) \<and>
    fd_interval (connectF f) = fd_interval f \<and> fd_now (connectF f) = fd_now f \<and>
    fd_ws (connectF f) = Some (length (fd_sockets f)) \<and> sk_state (fd_sockets (connectF f) ! length (fd_sockets f)) = CONNECTING"
  using assms by (auto simp: connectF_def Let_def feed_ok_defs nth_append less_Suc_eq)

lemma connectF_interval: "intervalOk f \<Longrightarrow> timersOk f \<Longrightarrow> intervalOk (connectF f)"
  by (auto simp: intervalOk_def connectF_def Let_def clearRetry_fields split: option.splits)

lemma closeSocket_fields [simp]:
  "fd_ws (closeSocket i f) = fd_ws f" "fd_mounted (closeSocket i f) = fd_mounted f" "fd_retry (closeSocket i f) = fd_retry f"
  "fd_timers (closeSocket i f) = fd_timers f" "fd_now (closeSocket i f) = fd_now f" "fd_last (closeSocket i f) = fd_last f"
  "fd_interval (closeSocket i f) = fd_interval f" "length (fd_sockets (closeSocket i f)) = length (fd_sockets f)"
  "fd_delivered (closeSocket i f) = fd_delivered f" "fd_attempt (closeSocket i f) = fd_attempt f"
  "fd_browser (closeSocket i f) = fd_browser f"
  by (simp_all add: closeSocket_def setState_def)

lemma closeOpt_fields [simp]:
  "fd_ws (closeOpt w f) = fd_ws f" "fd_mounted (closeOpt w f) = fd_mounted f" "fd_retry (closeOpt w f) = fd_retry f"
  "fd_timers (closeOpt w f) = fd_timers f" "fd_now (closeOpt w f) = fd_now f" "fd_last (closeOpt w f) = fd_last f"
  "fd_interval (closeOpt w f) = fd_interval f" "length (fd_sockets (closeOpt w f)) = length (fd_sockets f)"
  "fd_delivered (closeOpt w f) = fd_delivered f" "fd_browser (closeOpt w f) = fd_browser f"
  by (simp_all add: closeOpt_def split: option.split)

lemma closeSocket_state:
  "i < length (fd_sockets f) \<Longrightarrow> sk_state (fd_sockets (closeSocket j f) ! i) =
     (if i = j \<and> sk_state (fd_sockets f ! i) \<in> {CONNECTING, OPEN} then CLOSING else sk_state (fd_sockets f ! i))"
  by (auto simp: closeSocket_def setState_def nth_list_update)

lemma closeOpt_sockets: "fd_sockets f = fd_sockets g \<Longrightarrow> fd_sockets (closeOpt w f) = fd_sockets (closeOpt w g)"
  by (cases w) (auto simp: closeOpt_def closeSocket_def setState_def)

text \<open>Dropping the current socket leaves only sockets on their way out.\<close>

lemma drop_current:
  assumes "socketsOk f"
  shows "socketsOk (closeOpt (fd_ws f) (f\<lparr>fd_ws := None\<rparr>))"
proof (cases "fd_ws f")
  case None
  then show ?thesis using assms by (simp add: closeOpt_def socketsOk_def)
next
  case (Some w)
  have "sk_state (fd_sockets (closeSocket w (f\<lparr>fd_ws := None\<rparr>)) ! i) \<in> {CLOSING, CLOSED}" if "i < length (fd_sockets f)" for i
    using assms that Some closeSocket_state [of i "f\<lparr>fd_ws := None\<rparr>" w]
    by (cases "sk_state (fd_sockets f ! i)") (auto simp: socketsOk_def)
  then show ?thesis by (simp add: Some closeOpt_def socketsOk_def)
qed

lemma forceReconnect_inv: "feedInv f \<Longrightarrow> feedInv (forceReconnect f)"
proof (cases "fd_mounted f")
  case True
  assume inv: "feedInv f"
  let ?g = "(closeOpt (fd_ws f) (f\<lparr>fd_ws := None\<rparr>))\<lparr>fd_attempt := 0\<rparr>"
  have "socketsOk ?g" using drop_current [of f] inv by (simp add: feedInv_def socketsOk_def)
  moreover have t: "timersOk ?g" using inv by (simp add: feedInv_def timersOk_def)
  moreover have "intervalOk ?g" using inv by (simp add: feedInv_def intervalOk_def)
  ultimately show ?thesis
    using connectF_ok [of ?g] clearRetry_fields [OF t] connectF_interval [of ?g] True by (simp add: forceReconnect_def feedInv_def)
qed (simp add: forceReconnect_def)

lemma checkLiveness_inv: "feedInv f \<Longrightarrow> feedInv (checkLiveness f)"
  using forceReconnect_inv [of f] by (auto simp: checkLiveness_def feedInv_def linked_def split: option.split)

lemma unmountFeed_ok:
  assumes "feedInv f"
  shows "feedInv (unmountFeed f)"
proof -
  let ?g = "f\<lparr>fd_mounted := False, fd_interval := None, fd_retry := None, fd_timers := []\<rparr>"
  have g: "clearRetry (f\<lparr>fd_mounted := False, fd_interval := None\<rparr>) = ?g"
    using assms by (cases "fd_retry f") (auto simp: feedInv_def timersOk_def clearRetry_def clearTimeoutF_def map_fst_filter_single)
  have "fd_sockets (unmountFeed f) = fd_sockets (closeOpt (fd_ws f) (f\<lparr>fd_ws := None\<rparr>))"
    by (simp add: unmountFeed_def g Let_def) (rule closeOpt_sockets, simp)
  moreover have "socketsOk (closeOpt (fd_ws f) (f\<lparr>fd_ws := None\<rparr>))" using assms drop_current by (simp add: feedInv_def)
  ultimately have "socketsOk (unmountFeed f)"
    by (simp add: socketsOk_def) (simp add: unmountFeed_def g Let_def)
  then show ?thesis using assms by (simp add: feedInv_def feed_ok_defs unmountFeed_def g Let_def)
qed

lemma mountFeed_ok:
  assumes "socketsOk f" and "timersOk f" and "fd_ws f = None" and "fd_retry f = None"
  shows "feedInv (mountFeed f)"
proof -
  let ?g = "f\<lparr>fd_mounted := True\<rparr>"
  have s: "socketsOk ?g" and t: "timersOk ?g" using assms by (simp_all add: socketsOk_def timersOk_def)
  have "socketsOk (connectF ?g) \<and> timersOk (connectF ?g) \<and> linked (connectF ?g) \<and> fd_mounted (connectF ?g) \<and> fd_now (connectF ?g) = fd_now f"
    using connectF_ok [of ?g] s assms(3) clearRetry_fields [OF t] by simp
  then show ?thesis by (auto simp: mountFeed_def feedInv_def feed_ok_defs)
qed

lemma timer_fires:
  assumes "feedInv f" and "enabled (FeTimer t) f"
  shows "feedInv (feedEvent (FeTimer t) f) \<and> fd_ws (feedEvent (FeTimer t) f) = Some (length (fd_sockets f))"
proof -
  have "t \<in> fst ` set (fd_timers f)" using assms(2) by (force simp: list_ex_iff)
  then have r: "fd_retry f = Some t"
    using assms(1) by (cases "fd_retry f") (auto simp: feedInv_def timersOk_def simp flip: set_map)
  let ?g = "clearTimeoutF t f"
  have g: "fd_timers ?g = []" using assms(1) r
    by (simp add: feedInv_def timersOk_def clearTimeoutF_def map_fst_filter_single)
  have "fd_ws f = None" "fd_mounted f" using assms(1) r by (auto simp: feedInv_def feed_ok_defs)
  moreover have "socketsOk ?g" using assms(1) by (simp add: feedInv_def socketsOk_def clearTimeoutF_def)
  ultimately have "socketsOk (connectF ?g) \<and> timersOk (connectF ?g) \<and> linked (connectF ?g) \<and> fd_mounted (connectF ?g) \<and>
      fd_interval (connectF ?g) = fd_interval f \<and> fd_now (connectF ?g) = fd_now f \<and> fd_ws (connectF ?g) = Some (length (fd_sockets f))"
    using connectF_ok [of ?g] connectF_retry_gone [of ?g] g by (simp add: clearTimeoutF_def)
  then show ?thesis using assms(1) \<open>fd_mounted f\<close> by (auto simp: feedInv_def intervalOk_def)
qed

lemma onclose_ok:
  assumes "feedInv f" and "live {CONNECTING, OPEN, CLOSING} i f"
  shows "feedInv (onclose i (setState i CLOSED f))"
proof (cases "fd_ws f = Some i")
  case True
  have "socketsOk (onclose i (setState i CLOSED f))"
    using assms True by (auto simp: feedInv_def socketsOk_def onclose_def setState_def nth_list_update)
  moreover have "timersOk (onclose i (setState i CLOSED f))"
    using assms True backoff_bounds [of "fd_attempt f"]
    by (auto simp: feedInv_def socketsOk_def timersOk_def onclose_def setState_def)
  ultimately show ?thesis using assms True
    by (auto simp: feedInv_def intervalOk_def linked_def socketsOk_def onclose_def setState_def)
next
  case False
  then show ?thesis using assms
    by (auto simp: feedInv_def feed_ok_defs onclose_def setState_def nth_list_update live_def)
qed

lemma only_current_live: "feedInv f \<Longrightarrow> live {CONNECTING, OPEN} i f \<Longrightarrow> fd_ws f = Some i"
  by (auto simp: feedInv_def socketsOk_def live_def)

lemma onopen_ok:
  assumes "feedInv f" and "live {CONNECTING} i f"
  shows "feedInv (onopen i (setState i OPEN f))"
proof -
  have "fd_ws f = Some i" using only_current_live assms by (auto simp: live_def)
  then show ?thesis using assms
    by (auto simp: feedInv_def feed_ok_defs onopen_def setState_def nth_list_update live_def)
qed

lemma closeSocket_ok: "feedInv f \<Longrightarrow> feedInv (closeSocket i f)"
  using closeSocket_state [of _ f i] by (auto simp: feedInv_def feed_ok_defs split: if_splits)

lemma feedInv_heard: "feedInv f \<Longrightarrow> feedInv (f\<lparr>fd_last := fd_now f, fd_delivered := d\<rparr>)"
  unfolding feedInv_def socketsOk_def timersOk_def intervalOk_def linked_def by auto

lemma onmessage_ok: "feedInv f \<Longrightarrow> feedInv (onmessage i text f)"
  using feedInv_heard [of f "fd_delivered f"]
  by (auto simp: onmessage_def Let_def feedInv_heard closeSocket_ok split: option.split)

lemma feedInv_tick: "feedInv f \<Longrightarrow> fd_mounted f \<Longrightarrow> feedInv (f\<lparr>fd_interval := Some (fd_now f + STALE_CHECK_MS)\<rparr>)"
  unfolding feedInv_def socketsOk_def timersOk_def intervalOk_def linked_def by auto

lemma feedInv_time: "feedInv f \<Longrightarrow> 0 \<le> d \<Longrightarrow> feedInv (f\<lparr>fd_now := fd_now f + d\<rparr>)"
  unfolding feedInv_def socketsOk_def timersOk_def intervalOk_def linked_def by fastforce

lemma feedInv_browser: "feedInv f \<Longrightarrow> feedInv (f\<lparr>fd_browser := b\<rparr>)"
  unfolding feedInv_def socketsOk_def timersOk_def intervalOk_def linked_def by auto

lemma feedInv_remount: "feedInv f \<Longrightarrow> \<not> fd_mounted f \<Longrightarrow> feedInv (mountFeed f)"
  by (rule mountFeed_ok) (auto simp: feedInv_def socketsOk_def timersOk_def)

lemma tick_mounted: "feedInv f \<Longrightarrow> enabled FeTick f \<Longrightarrow> fd_mounted f"
  by (auto simp: feedInv_def intervalOk_def split: option.splits)

lemma feed_step_inv:
  assumes "feedInv f" and "enabled e f"
  shows "feedInv (feedEvent e f)"
proof (cases e)
  case (FeTimer t)
  then show ?thesis using timer_fires [of f t] assms by simp
next
  case FeTick
  then show ?thesis using assms tick_mounted [of f] by (simp add: feedInv_tick checkLiveness_inv)
qed (use assms in \<open>simp_all add: onopen_ok onmessage_ok onclose_ok forceReconnect_inv checkLiveness_inv unmountFeed_ok
      feedInv_time feedInv_browser feedInv_remount\<close>)

interpretation feed_system: invariant_system feedInit ustep feedInv
proof
  fix f assume "feedInit f"
  then show "feedInv f" by (auto simp: feedInit_def intro!: mountFeed_ok simp: newFeed_def socketsOk_def timersOk_def)
next
  fix f g assume "feedInv f" "ustep f g"
  then show "feedInv g" by (auto elim!: ustepE intro: feed_step_inv)
qed

subsection \<open>Properties\<close>

lemma reach_event: "reach feedInit ustep f \<Longrightarrow> enabled e f \<Longrightarrow> reach feedInit ustep (feedEvent e f)"
  by (blast intro: reach_step ustep_event)

text \<open>C20: the feed never falls silent for good and leaks nothing. In every reachable state a mounted feed has
  exactly one of a current socket and a pending retry, the retry being due at most 15 s from now; every
  other socket it ever opened is closing or closed; and an unmounted feed has no current socket, no timeout,
  no interval and no socket that can still open or deliver.\<close>

theorem feed_always_recovering:
  assumes "reach feedInit ustep f"
  shows "(if fd_mounted f then (fd_ws f = None \<longleftrightarrow> fd_retry f \<noteq> None) else fd_ws f = None \<and> fd_timers f = [] \<and> fd_interval f = None) \<and>
    length (fd_timers f) = (if fd_retry f = None then 0 else 1) \<and>
    list_all (\<lambda>(t, due). fd_retry f = Some t \<and> due \<le> fd_now f + 15000) (fd_timers f) \<and>
    {i. live {CONNECTING, OPEN} i f} \<subseteq> set_option (fd_ws f)"
proof -
  have inv: "feedInv f" by (rule feed_system.reachable_inv [OF assms])
  then have fst: "map fst (fd_timers f) = (case fd_retry f of None \<Rightarrow> [] | Some t \<Rightarrow> [t])"
    by (simp add: feedInv_def timersOk_def)
  then have len: "length (fd_timers f) = (if fd_retry f = None then 0 else 1)"
    by (auto dest!: arg_cong [where f = length] split: option.splits)
  moreover have "list_all (\<lambda>(t, due). fd_retry f = Some t \<and> due \<le> fd_now f + 15000) (fd_timers f)"
    using fst inv by (cases "fd_retry f") (auto simp: feedInv_def timersOk_def BACKOFF_MAX_MS_def map_eq_Cons_conv)
  moreover have "{i. live {CONNECTING, OPEN} i f} \<subseteq> set_option (fd_ws f)" using only_current_live [OF inv] by auto
  moreover have "if fd_mounted f then (fd_ws f = None \<longleftrightarrow> fd_retry f \<noteq> None) else fd_ws f = None \<and> fd_timers f = [] \<and> fd_interval f = None"
    using inv len by (auto simp: feedInv_def feed_ok_defs)
  ultimately show ?thesis by blast
qed

text \<open>A dead connection is replaced. In every reachable state of a mounted feed the staleness check is at
  most 5 s away, and when it runs while nothing was heard for more than 45 s on a socket that is opening or
  open, that socket is closed, a new one is opened at once and becomes the current one. The retry after a
  close does the same when its timeout fires, with a delay between 1 and 15 s that doubles with every
  attempt until the cap.\<close>

theorem stale_feed_reconnects:
  assumes "reach feedInit ustep f" and "fd_mounted f"
  shows "(\<exists>due. fd_interval f = Some due \<and> due \<le> fd_now f + 5000) \<and>
    (\<forall>i. live {CONNECTING, OPEN} i f \<and> 45000 < fd_now f - fd_last f \<longrightarrow>
       fd_ws (feedEvent FeTick f) = Some (length (fd_sockets f)) \<and>
       sk_state (fd_sockets (feedEvent FeTick f) ! length (fd_sockets f)) = CONNECTING \<and>
       sk_state (fd_sockets (feedEvent FeTick f) ! i) = CLOSING) \<and>
    (\<forall>t. enabled (FeTimer t) f \<longrightarrow> fd_ws (feedEvent (FeTimer t) f) = Some (length (fd_sockets f))) \<and>
    (\<forall>i. live {CONNECTING, OPEN, CLOSING} i f \<and> fd_ws f = Some i \<longrightarrow>
       fd_timers (feedEvent (FeClose i) f) = [(fd_nextTimer f, fd_now f + min (1000 * 2 ^ fd_attempt f) 15000)])"
proof (intro conjI allI impI)
  have inv: "feedInv f" by (rule feed_system.reachable_inv [OF assms(1)])
  show "\<exists>due. fd_interval f = Some due \<and> due \<le> fd_now f + 5000"
    using inv assms(2) by (auto simp: feedInv_def intervalOk_def STALE_CHECK_MS_def)
  fix i
  {
    assume a: "live {CONNECTING, OPEN} i f \<and> 45000 < fd_now f - fd_last f"
    then have w: "fd_ws f = Some i" and i: "i < length (fd_sockets f)" "sk_state (fd_sockets f ! i) \<in> {CONNECTING, OPEN}"
      using only_current_live [OF inv, of i] by (auto simp: live_def)
    let ?f = "f\<lparr>fd_interval := Some (fd_now f + STALE_CHECK_MS)\<rparr>"
    let ?g = "(closeOpt (fd_ws ?f) (?f\<lparr>fd_ws := None\<rparr>))\<lparr>fd_attempt := 0\<rparr>"
    have e: "feedEvent FeTick f = connectF ?g"
      using a assms(2) w i by (auto simp: checkLiveness_def forceReconnect_def STALE_MS_def)
    have "feedInv ?f" using feedInv_tick [OF inv assms(2)] .
    then have "socketsOk ?g" "timersOk ?g" using drop_current [of ?f] by (simp_all add: feedInv_def socketsOk_def timersOk_def)
    from connectF_ok [OF _ _ this(1) clearRetry_fields [OF this(2)]] assms(2)
    have "fd_ws (connectF ?g) = Some (length (fd_sockets f))" "sk_state (fd_sockets (connectF ?g) ! length (fd_sockets f)) = CONNECTING"
      by simp_all
    then show "fd_ws (feedEvent FeTick f) = Some (length (fd_sockets f))"
      and "sk_state (fd_sockets (feedEvent FeTick f) ! length (fd_sockets f)) = CONNECTING"
      unfolding e by simp_all
    show "sk_state (fd_sockets (feedEvent FeTick f) ! i) = CLOSING"
      unfolding e using i w assms(2) closeSocket_state [of i "?f\<lparr>fd_ws := None\<rparr>" i] clearRetry_fields [OF \<open>timersOk ?g\<close>]
      by (simp add: connectF_def Let_def nth_append closeOpt_def)
  }
  show "fd_ws (feedEvent (FeTimer t) f) = Some (length (fd_sockets f))" if "enabled (FeTimer t) f" for t
    using timer_fires [OF inv that] by blast
  assume "live {CONNECTING, OPEN, CLOSING} i f \<and> fd_ws f = Some i"
  then show "fd_timers (feedEvent (FeClose i) f) = [(fd_nextTimer f, fd_now f + min (1000 * 2 ^ fd_attempt f) 15000)]"
    using inv by (auto simp: onclose_def setState_def feedInv_def feed_ok_defs backoff_def BACKOFF_BASE_MS_def BACKOFF_MAX_MS_def)
qed

text \<open>What the pages get to see. A step of a reachable feed calls the update handler only for a message of
  the current socket while mounted, at most once, and only with a JSON value that is neither a heartbeat
  nor an error.\<close>

theorem feed_delivers_current_updates:
  assumes "reach feedInit ustep f" and "enabled e f" and "fd_delivered (feedEvent e f) \<noteq> fd_delivered f"
  shows "\<exists>i text data. e = FeMessage i text \<and> fd_mounted f \<and> fd_ws f = Some i \<and> jsonParse text = Some data \<and>
    fd_delivered (feedEvent e f) = fd_delivered f @ [(i, data)] \<and>
    jfield (js ''event'') data \<noteq> Some (JStr (js ''heartbeat'')) \<and>
    (case jfield (js ''error'') data of Some x \<Rightarrow> \<not> truthyJson x | None \<Rightarrow> True)"
proof -
  have inv: "feedInv f" by (rule feed_system.reachable_inv [OF assms(1)])
  have quiet: "fd_delivered (connectF g) = fd_delivered g" "fd_delivered (clearRetry g) = fd_delivered g" for g
    by (simp_all add: connectF_def Let_def clearRetry_def clearTimeoutF_def split: option.split)
  obtain i msg where e: "e = FeMessage i msg"
    using assms(3) by (cases e) (auto simp: onopen_def setState_def onclose_def clearTimeoutF_def checkLiveness_def
        forceReconnect_def mountFeed_def unmountFeed_def Let_def quiet split: option.splits if_splits)
  then have "fd_ws f = Some i" "fd_mounted f"
    using only_current_live [OF inv, of i] assms(2) inv by (auto simp: live_def feedInv_def socketsOk_def)
  then show ?thesis using assms(3) unfolding e
    by (auto simp: onmessage_def Let_def split: option.splits if_splits)
qed

subsection \<open>Concrete runs\<close>

definition toy_browser :: browser where
  "toy_browser = \<lparr>br_window = True, br_storage = empty_storage\<lparr>ls_items := [js ''token'' \<mapsto> js ''t'']\<rparr>,
     br_protocol = js ''https:'', br_host = js ''h'', br_href = None\<rparr>"

definition toy_open :: feed where
  "toy_open = feedEvent (FeOpen 0) (mountFeed (newFeed toy_browser 0))"

definition toy_quiet :: feed where
  "toy_quiet = feedEvent (FeTime 45001) toy_open"

lemma toy_mounted: "mountFeed (newFeed toy_browser 0) = (newFeed toy_browser 0)\<lparr>fd_ws := Some 0,
    fd_sockets := [\<lparr>sk_url = getWsEndpoint toy_browser, sk_token = Some (js ''t''), sk_state = CONNECTING\<rparr>], fd_interval := Some 5000\<rparr>"
  by (simp add: mountFeed_def connectF_def newFeed_def clearRetry_def Let_def tokenOf_def getToken_def getItem_def
      toy_browser_def empty_storage_def STALE_CHECK_MS_def)

lemma toy_open_reached: "reach feedInit ustep toy_open" and toy_open_state:
  "toy_open = (newFeed toy_browser 0)\<lparr>fd_ws := Some 0, fd_sockets := [\<lparr>sk_url = getWsEndpoint toy_browser,
     sk_token = Some (js ''t''), sk_state = OPEN\<rparr>], fd_interval := Some 5000, fd_sent := [(0, js ''t'')]\<rparr>"
proof -
  have "enabled (FeOpen 0) (mountFeed (newFeed toy_browser 0))" by (simp add: toy_mounted live_def)
  then show "reach feedInit ustep toy_open" unfolding toy_open_def
    by (intro reach_event reach_init) (auto simp: feedInit_def)
  show "toy_open = (newFeed toy_browser 0)\<lparr>fd_ws := Some 0, fd_sockets := [\<lparr>sk_url = getWsEndpoint toy_browser,
     sk_token = Some (js ''t''), sk_state = OPEN\<rparr>], fd_interval := Some 5000, fd_sent := [(0, js ''t'')]\<rparr>"
    unfolding toy_open_def feedEvent.simps toy_mounted by (simp add: onopen_def setState_def newFeed_def)
qed

theorem feed_always_recovering_witness:
  "let f = feedEvent (FeClose 0) toy_open
   in reach feedInit ustep f \<and> fd_ws f = None \<and> fd_timers f = [(0, 1000)] \<and> {i. live {CONNECTING, OPEN} i f} \<subseteq> set_option (fd_ws f)"
proof -
  have r: "reach feedInit ustep (feedEvent (FeClose 0) toy_open)"
    by (rule reach_event [OF toy_open_reached]) (simp add: toy_open_state live_def newFeed_def)
  then show ?thesis using feed_always_recovering [OF r]
    by (simp add: Let_def toy_open_state onclose_def setState_def newFeed_def backoff_def BACKOFF_BASE_MS_def BACKOFF_MAX_MS_def)
qed

theorem stale_feed_reconnects_witness:
  "reach feedInit ustep toy_quiet \<and> fd_mounted toy_quiet \<and> live {CONNECTING, OPEN} 0 toy_quiet \<and>
     fd_ws (feedEvent FeTick toy_quiet) = Some 1 \<and> sk_state (fd_sockets (feedEvent FeTick toy_quiet) ! 0) = CLOSING"
proof -
  have r: "reach feedInit ustep toy_quiet" unfolding toy_quiet_def by (rule reach_event [OF toy_open_reached]) simp
  have q: "fd_mounted toy_quiet" "live {CONNECTING, OPEN} 0 toy_quiet" "45000 < fd_now toy_quiet - fd_last toy_quiet"
    "length (fd_sockets toy_quiet) = 1"
    by (simp_all add: toy_quiet_def toy_open_state newFeed_def live_def)
  then show ?thesis using stale_feed_reconnects [OF r q(1)] r by simp
qed

theorem feed_delivers_current_updates_witness:
  "\<exists>data. jsonParse [49] = Some data \<and> fd_delivered (feedEvent (FeMessage 0 [49]) toy_open) = [(0, data)]"
proof -
  have parse: "jsonParse [49] = Some (JNum [49])" by code_simp
  have en: "enabled (FeMessage 0 [49]) toy_open" by (simp add: toy_open_state live_def newFeed_def)
  have ch: "fd_delivered (feedEvent (FeMessage 0 [49]) toy_open) \<noteq> fd_delivered toy_open"
    by (simp add: onmessage_def parse Let_def jfield_def)
  show ?thesis using feed_delivers_current_updates [OF toy_open_reached en ch] by (auto simp: toy_open_state newFeed_def)
qed

end
