(* ===== verification/ShellQuote.thy ===== *)
theory ShellQuote
  imports JsText
begin

text \<open>
  \<open>shellQuote\<close> of \<open>web/src/components/SSHTerminal.tsx\<close> and what a POSIX shell makes of its output.
  \<open>shellWords\<close> splits a command line into words: blanks separate, single quotes and the backslash quote;
  \<open>None\<close> means that the shell would do more than split (expand, redirect, end the command) or that a quote is open.
\<close>

definition shellQuote :: "jsstring \<Rightarrow> jsstring" where
  "shellQuote s = [39] @ concat (map (\<lambda>u. if u = 39 then [39, 92, 39, 39] else [u]) s) @ [39]"

subsection \<open>POSIX word splitting\<close>

text \<open>Characters that mean something to the shell when unquoted.\<close>

definition shellSpecial :: "code_unit \<Rightarrow> bool" where
  "shellSpecial u \<longleftrightarrow> u \<in> {0x7C, 0x26, 0x3B, 0x3C, 0x3E, 0x28, 0x29, 0x24, 0x60, 0x22, 0x0A, 0x2A, 0x3F, 0x5B, 0x23, 0x7E, 0x3D, 0x25, 0x21, 0x7B, 0x7D}"

definition endWord :: "jsstring option \<Rightarrow> jsstring list \<Rightarrow> jsstring list" where
  "endWord w ws = (case w of Some x \<Rightarrow> x # ws | None \<Rightarrow> ws)"

definition addUnit :: "code_unit \<Rightarrow> jsstring option \<Rightarrow> jsstring option" where
  "addUnit u w = Some ((case w of Some x \<Rightarrow> x | None \<Rightarrow> []) @ [u])"

text \<open>The flag says whether a single quote is open; \<open>w\<close> is the word begun, if any.\<close>

fun splitShell :: "bool \<Rightarrow> jsstring option \<Rightarrow> jsstring \<Rightarrow> jsstring list option" where
  "splitShell True w [] = None"
| "splitShell True w (u # us) = (if u = 39 then splitShell False w us else splitShell True (addUnit u w) us)"
| "splitShell False w [] = Some (endWord w [])"
| "splitShell False w (u # us) =
     (if u = 32 \<or> u = 9 then map_option (endWord w) (splitShell False None us)
      else if u = 39 then splitShell True (Some (case w of Some x \<Rightarrow> x | None \<Rightarrow> [])) us
      else if u = 92 then (case us of [] \<Rightarrow> None | v # vs \<Rightarrow> if v = 10 then splitShell False w vs else splitShell False (addUnit v w) vs)
      else if shellSpecial u then None
      else splitShell False (addUnit u w) us)"

definition shellWords :: "jsstring \<Rightarrow> jsstring list option" where
  "shellWords s = splitShell False None s"

subsection \<open>Quoting is undone by splitting\<close>

lemma splitShell_quoted:
  "splitShell True (Some w) (concat (map (\<lambda>u. if u = 39 then [39, 92, 39, 39] else [u]) s) @ 39 # rest) = splitShell False (Some (w @ s)) rest"
  by (induction s arbitrary: w) (simp_all add: addUnit_def)

lemma splitShell_shellQuote: "splitShell False None (shellQuote s @ rest) = splitShell False (Some s) rest"
  using splitShell_quoted [of "[]" s rest] by (simp add: shellQuote_def)

definition plainUnit :: "code_unit \<Rightarrow> bool" where
  "plainUnit u \<longleftrightarrow> u \<noteq> 32 \<and> u \<noteq> 9 \<and> u \<noteq> 39 \<and> u \<noteq> 92 \<and> \<not> shellSpecial u"

lemma endWord_Some [simp]: "endWord (Some w) = (#) w"
  by (rule ext) (simp add: endWord_def)

lemma splitShell_plain:
  "list_all plainUnit s \<Longrightarrow> splitShell False (Some w) (s @ 32 # rest) = map_option ((#) (w @ s)) (splitShell False None rest)"
  by (induction s arbitrary: w) (simp_all add: addUnit_def plainUnit_def endWord_def)

lemma splitShell_word:
  "list_all plainUnit s \<Longrightarrow> s \<noteq> [] \<Longrightarrow> splitShell False None (s @ 32 # rest) = map_option ((#) s) (splitShell False None rest)"
proof (cases s)
  case (Cons u us)
  assume "list_all plainUnit s"
  then show ?thesis using splitShell_plain [of us "[u]" rest] by (simp add: Cons addUnit_def plainUnit_def)
qed simp

lemma plain_words:
  "list_all plainUnit (js ''tmux'')" "list_all plainUnit (js ''attach'')" "list_all plainUnit (js ''-t'')"
  "list_all plainUnit (js ''devsesh'')" "list_all plainUnit (js ''start'')"
  by (simp_all add: js_def plainUnit_def shellSpecial_def)

subsection \<open>The two commands\<close>

definition attachCommand :: "jsstring \<Rightarrow> jsstring" where
  "attachCommand name = js ''tmux attach -t '' @ shellQuote name"

definition startCommand :: "jsstring \<Rightarrow> jsstring" where
  "startCommand name = js ''devsesh start '' @ shellQuote name"

lemma space_unit: "js '' '' = [32]"
  by (simp add: js_def)

lemma attachCommand_words: "shellWords (attachCommand name) = Some [js ''tmux'', js ''attach'', js ''-t'', name]"
proof -
  have "attachCommand name = js ''tmux'' @ 32 # (js ''attach'' @ 32 # (js ''-t'' @ 32 # (shellQuote name @ [])))"
    by (simp add: attachCommand_def js_def)
  then show ?thesis
    unfolding shellWords_def by (simp only: splitShell_word [OF plain_words(1)] splitShell_word [OF plain_words(2)]
      splitShell_word [OF plain_words(3)] splitShell_shellQuote js_eq_Nil_iff list.distinct simp_thms) (simp add: endWord_def)
qed

lemma startCommand_words: "shellWords (startCommand name) = Some [js ''devsesh'', js ''start'', name]"
proof -
  have "startCommand name = js ''devsesh'' @ 32 # (js ''start'' @ 32 # (shellQuote name @ []))"
    by (simp add: startCommand_def js_def)
  then show ?thesis
    unfolding shellWords_def by (simp only: splitShell_word [OF plain_words(4)] splitShell_word [OF plain_words(5)]
      splitShell_shellQuote js_eq_Nil_iff list.distinct simp_thms) (simp add: endWord_def)
qed

end
