(* ===== verification/Terminal.thy ===== *)
theory Terminal
  imports Sessions Api QuickKeys ShellQuote Encoding
begin

text \<open>
  The terminal component (\<open>web/src/components/SSHTerminal.tsx\<close>) and the SSH client it drives
  (\<open>web/src/lib/ssh-client.ts\<close>). The refs and the React state of the component are the record \<open>terminal\<close>; the
  functions the wasm client exports are the constructors of \<open>wasm_call\<close>, logged in the order they are called.
  A callback that runs later keeps the host it closed over: a reconnect timeout and a pending \<open>recover\<close>
  carry it. Of the wasm client the model knows that connecting to a host whose key is in \<open>tm_pool\<close> reports
  \<open>connected\<close> before \<open>sshConnect\<close> returns; every other report is an event.
\<close>

datatype conn_status = Disconnected | Connecting | Authenticating | Connected | ErrorStatus

datatype wasm_call =
    WConnect jsstring jsstring jsstring jsstring   \<comment> \<open>host key, URL, user, token\<close>
  | WDisconnect jsstring
  | WDisconnectPending
  | WDetach
  | WExec jsstring jsstring
  | WSendInput bytes
  | WResolvePassword jsstring
  | WRejectPassword
  | WResolveCertificate jsstring jsstring
  | WRejectCertificate

datatype ssh_error = WasmNotInitialized | NotAuthenticated

subsection \<open>ssh-client.ts\<close>

text \<open>\<open>EventEmitter\<close>: the listeners of each event; \<open>emit\<close> is the list of callbacks called, in order.\<close>

type_synonym 'cb emitter = "jsstring \<Rightarrow> 'cb list"

definition emitterOn :: "jsstring \<Rightarrow> 'cb \<Rightarrow> 'cb emitter \<Rightarrow> 'cb emitter" where
  "emitterOn event callback em = em(event := em event @ [callback])"

definition emitterOff :: "jsstring \<Rightarrow> 'cb \<Rightarrow> 'cb emitter \<Rightarrow> 'cb emitter" where
  "emitterOff event callback em = em(event := filter (\<lambda>cb. cb \<noteq> callback) (em event))"

definition emitterEmit :: "jsstring \<Rightarrow> 'cb emitter \<Rightarrow> 'cb list" where
  "emitterEmit event em = em event"

text \<open>\<open>SSHClient.connect\<close>: the guards, then the call of \<open>sshConnect\<close>.\<close>

definition sshConnectCall :: "bool \<Rightarrow> browser \<Rightarrow> jsstring \<Rightarrow> int \<Rightarrow> jsstring \<Rightarrow> ssh_error + wasm_call" where
  "sshConnectCall wasmReady b hostKey hostId user =
     (if \<not> wasmReady then Inl WasmNotInitialized
      else case getToken b of
             Some (Some t) \<Rightarrow> if t = [] then Inl NotAuthenticated
                              else Inr (WConnect hostKey (getSSHWebSocketURL hostId b) user t)
           | _ \<Rightarrow> Inl NotAuthenticated)"

subsection \<open>State\<close>

definition MAX_RECONNECT_ATTEMPTS :: nat where "MAX_RECONNECT_ATTEMPTS = 8"

record reconnect_timer =
  rt_id :: nat
  rt_due :: int
  rt_host :: "host option"

type_synonym effect_deps = "conn_status \<times> jsstring \<times> jsstring"
type_synonym connect_deps = "bool \<times> int option \<times> jsstring option"

record terminal =
  tm_host :: "host option"
  tm_sessionName :: jsstring
  tm_handleName :: jsstring   \<comment> \<open>the session name that \<open>restart\<close> of the handle closed over\<close>
  tm_browser :: browser
  tm_now :: int
  tm_client :: bool
  tm_wasmReady :: bool
  tm_pool :: "jsstring list"
  tm_status :: conn_status
  tm_statusRef :: conn_status
  tm_statusError :: "jsstring option"
  tm_ready :: bool
  tm_loading :: bool
  tm_showPassword :: bool
  tm_showWebAuthn :: bool
  tm_webAuthnError :: "jsstring option"
  tm_userDisconnected :: bool
  tm_reconnect :: "nat option"
  tm_timers :: "reconnect_timer list"
  tm_nextTimer :: nat
  tm_attempt :: nat
  tm_hasExecuted :: bool
  tm_pendingRestart :: bool
  tm_mounted :: bool
  tm_recovering :: "host option list"
  tm_attachDeps :: "effect_deps option"
  tm_connectDeps :: "connect_deps option"
  tm_calls :: "wasm_call list"
  tm_thrown :: "ssh_error list"

definition called :: "wasm_call \<Rightarrow> terminal \<Rightarrow> terminal" where
  "called c t = t\<lparr>tm_calls := tm_calls t @ [c]\<rparr>"

definition hostKeyOf :: "host option \<Rightarrow> jsstring" where
  "hostKeyOf h = (case h of Some x \<Rightarrow> showInt (ho_id x) | None \<Rightarrow> [])"

definition setStatusBoth :: "conn_status \<Rightarrow> terminal \<Rightarrow> terminal" where
  "setStatusBoth s t = t\<lparr>tm_statusRef := s, tm_status := s\<rparr>"

subsection \<open>Reconnecting\<close>

definition reconnectBackoff :: "nat \<Rightarrow> int" where
  "reconnectBackoff n = min (1000 * 2 ^ n) 10000"

definition clearReconnect :: "terminal \<Rightarrow> terminal" where
  "clearReconnect t =
     (case tm_reconnect t of
        Some n \<Rightarrow> t\<lparr>tm_timers := filter (\<lambda>r. rt_id r \<noteq> n) (tm_timers t)\<rparr>
      | None \<Rightarrow> t)"

definition scheduleReconnect :: "terminal \<Rightarrow> terminal" where
  "scheduleReconnect t0 =
     (let t = clearReconnect t0
      in t\<lparr>tm_reconnect := Some (tm_nextTimer t), tm_nextTimer := Suc (tm_nextTimer t),
           tm_timers := tm_timers t @ [\<lparr>rt_id = tm_nextTimer t, rt_due = tm_now t + reconnectBackoff (tm_attempt t), rt_host = tm_host t\<rparr>]\<rparr>)"

definition maybeReconnect :: "terminal \<Rightarrow> terminal" where
  "maybeReconnect t =
     (if tm_userDisconnected t \<or> \<not> tm_mounted t then t
      else if MAX_RECONNECT_ATTEMPTS \<le> tm_attempt t then setStatusBoth ErrorStatus t
      else scheduleReconnect t)"

text \<open>The \<open>status\<close> listener.\<close>

definition statusErrorAfter :: "conn_status \<Rightarrow> jsstring option \<Rightarrow> jsstring option \<Rightarrow> jsstring option" where
  "statusErrorAfter s err old =
     (if s = ErrorStatus then Some (case err of Some e \<Rightarrow> if e \<noteq> [] then e else js ''Connection error'' | None \<Rightarrow> js ''Connection error'')
      else if s = Connected then None else old)"

definition onStatus :: "conn_status \<Rightarrow> jsstring option \<Rightarrow> terminal \<Rightarrow> terminal" where
  "onStatus s err t0 =
     (let t1 = (setStatusBoth s t0)\<lparr>tm_statusError := statusErrorAfter s err (tm_statusError t0)\<rparr>;
          t2 = (if (s = Disconnected \<or> s = ErrorStatus) \<and> \<not> tm_userDisconnected t1 then maybeReconnect t1 else t1)
      in if s = Connected then t2\<lparr>tm_attempt := 0\<rparr> else t2)"

text \<open>\<open>doConnect\<close> of the render whose host is \<open>h\<close>. An exception of \<open>connect\<close> leaves the status at
  \<open>connecting\<close>.\<close>

definition doConnectFor :: "host option \<Rightarrow> terminal \<Rightarrow> terminal" where
  "doConnectFor h t =
     (case h of
        None \<Rightarrow> t
      | Some x \<Rightarrow>
          if \<not> tm_mounted t \<or> \<not> tm_client t then t
          else let t1 = setStatusBoth Connecting (t\<lparr>tm_userDisconnected := False\<rparr>);
                   user = (if ho_ssh_user x = [] then js ''root'' else ho_ssh_user x)
               in case sshConnectCall (tm_wasmReady t) (tm_browser t) (showInt (ho_id x)) (ho_id x) user of
                    Inl e \<Rightarrow> t1\<lparr>tm_thrown := tm_thrown t1 @ [e]\<rparr>
                  | Inr c \<Rightarrow> (let t2 = called c t1
                             in if showInt (ho_id x) \<in> set (tm_pool t) then onStatus Connected None t2 else t2))"

definition doConnect :: "terminal \<Rightarrow> terminal" where
  "doConnect t = doConnectFor (tm_host t) t"

definition fireReconnect :: "nat \<Rightarrow> terminal \<Rightarrow> terminal" where
  "fireReconnect n t0 =
     (case find (\<lambda>r. rt_id r = n) (tm_timers t0) of
        None \<Rightarrow> t0
      | Some r \<Rightarrow>
          let t = t0\<lparr>tm_timers := filter (\<lambda>r. rt_id r \<noteq> n) (tm_timers t0)\<rparr>
          in if tm_userDisconnected t \<or> \<not> tm_mounted t then t
             else doConnectFor (rt_host r) (t\<lparr>tm_attempt := Suc (tm_attempt t)\<rparr>))"

definition doDisconnect :: "terminal \<Rightarrow> terminal" where
  "doDisconnect t0 =
     (let t = t0\<lparr>tm_userDisconnected := True\<rparr>;
          t' = (if tm_client t \<and> hostKeyOf (tm_host t) \<noteq> [] then called (WDisconnect (hostKeyOf (tm_host t))) t else t)
      in (setStatusBoth Disconnected t')\<lparr>tm_hasExecuted := False\<rparr>)"

subsection \<open>Recovery\<close>

text \<open>\<open>recover\<close> up to its \<open>await ensureAlive()\<close>, and from there.\<close>

definition recoverBegin :: "terminal \<Rightarrow> terminal" where
  "recoverBegin t =
     (if \<not> tm_mounted t \<or> tm_host t = None \<or> tm_userDisconnected t then t
      else t\<lparr>tm_recovering := tm_recovering t @ [tm_host t]\<rparr>)"

definition recoverDone :: "bool \<Rightarrow> terminal \<Rightarrow> terminal" where
  "recoverDone workerAlive t0 =
     (case tm_recovering t0 of
        [] \<Rightarrow> t0
      | h # hs \<Rightarrow>
          let t = t0\<lparr>tm_recovering := hs\<rparr>
          in if \<not> tm_mounted t then t
             else if workerAlive \<and> tm_statusRef t = Connected then t
             else let t1 = (if workerAlive then t else t\<lparr>tm_showWebAuthn := True\<rparr>);
                      t2 = (if hostKeyOf h \<noteq> [] \<and> tm_client t1 then called (WDisconnect (hostKeyOf h)) t1 else t1)
                  in doConnectFor h (t2\<lparr>tm_attempt := 0\<rparr>))"

definition recoverOnFocus :: "terminal \<Rightarrow> terminal" where
  "recoverOnFocus t = (if tm_statusRef t = Connected then t else recoverBegin t)"

definition doRestart :: "terminal \<Rightarrow> terminal" where
  "doRestart t =
     (if \<not> tm_client t \<or> hostKeyOf (tm_host t) = [] then t
      else if tm_statusRef t = Connected then
        called (WExec (hostKeyOf (tm_host t)) (startCommand (tm_handleName t))) (t\<lparr>tm_hasExecuted := True\<rparr>)
      else doConnect (t\<lparr>tm_pendingRestart := True, tm_userDisconnected := False, tm_attempt := 0\<rparr>))"

definition sendKeys :: "(jsstring \<Rightarrow> jsstring) \<Rightarrow> quick_key_step list \<Rightarrow> terminal \<Rightarrow> terminal" where
  "sendKeys lc spec t =
     (if tm_client t then (case encodeSpec lc spec of Some bs \<Rightarrow> called (WSendInput bs) t | None \<Rightarrow> t) else t)"

definition sendData :: "bytes \<Rightarrow> terminal \<Rightarrow> terminal" where
  "sendData bs t = (if tm_client t then called (WSendInput bs) t else t)"

subsection \<open>Authentication requests\<close>

definition onPasswordRequest :: "terminal \<Rightarrow> terminal" where
  "onPasswordRequest t = t\<lparr>tm_status := Authenticating, tm_showPassword := True\<rparr>"

definition onCertificateRequest :: "terminal \<Rightarrow> terminal" where
  "onCertificateRequest t = t\<lparr>tm_status := Authenticating\<rparr>"

text \<open>\<open>handleCertificateRequest\<close> after its awaits: the worker is gone, the request failed, or there is a
  certificate and its key.\<close>

datatype cert_outcome = WorkerGone | CertFailed | CertIssued jsstring bytes

fun certificateDone :: "cert_outcome \<Rightarrow> terminal \<Rightarrow> terminal" where
  "certificateDone WorkerGone t = (if tm_client t then t\<lparr>tm_showWebAuthn := True\<rparr> else t)"
| "certificateDone CertFailed t = (if tm_client t then t\<lparr>tm_showWebAuthn := True\<rparr> else t)"
| "certificateDone (CertIssued certificate privateKey) t =
     (if tm_client t then
        (case encodeBase64 privateKey of
           Inr k \<Rightarrow> called (WResolveCertificate certificate k) t
         | Inl e \<Rightarrow> t\<lparr>tm_showWebAuthn := True\<rparr>)
      else t)"

definition handleWebAuthnCancel :: "terminal \<Rightarrow> terminal" where
  "handleWebAuthnCancel t0 =
     (let t = t0\<lparr>tm_showWebAuthn := False, tm_webAuthnError := None\<rparr>
      in if tm_client t then called WRejectCertificate t else t)"

definition handlePasswordSubmit :: "jsstring \<Rightarrow> terminal \<Rightarrow> terminal" where
  "handlePasswordSubmit password t =
     (if tm_client t then (called (WResolvePassword password) t)\<lparr>tm_showPassword := False, tm_status := Connecting\<rparr> else t)"

definition handlePasswordCancel :: "terminal \<Rightarrow> terminal" where
  "handlePasswordCancel t0 =
     (let t = t0\<lparr>tm_userDisconnected := True, tm_hasExecuted := False\<rparr>
      in if tm_client t
         then let t1 = called WRejectPassword t;
                  t2 = (if hostKeyOf (tm_host t1) \<noteq> [] then called (WDisconnect (hostKeyOf (tm_host t1))) t1 else t1)
              in setStatusBoth Disconnected (t2\<lparr>tm_showPassword := False\<rparr>)
         else t)"

subsection \<open>Mount, effects, unmount\<close>

definition mountTerminal :: "host option \<Rightarrow> jsstring \<Rightarrow> bool \<Rightarrow> browser \<Rightarrow> jsstring list \<Rightarrow> int \<Rightarrow> terminal" where
  "mountTerminal h name autoRestart b pool now =
     \<lparr>tm_host = h, tm_sessionName = name, tm_handleName = name, tm_browser = b, tm_now = now, tm_client = True, tm_wasmReady = False, tm_pool = pool,
      tm_status = Disconnected, tm_statusRef = Disconnected, tm_statusError = None, tm_ready = False, tm_loading = True,
      tm_showPassword = False, tm_showWebAuthn = False, tm_webAuthnError = None, tm_userDisconnected = False,
      tm_reconnect = None, tm_timers = [], tm_nextTimer = 0, tm_attempt = 0, tm_hasExecuted = False,
      tm_pendingRestart = autoRestart, tm_mounted = True, tm_recovering = [], tm_attachDeps = None, tm_connectDeps = None,
      tm_calls = [], tm_thrown = []\<rparr>"

definition initDone :: "bool \<Rightarrow> terminal \<Rightarrow> terminal" where
  "initDone ok t = (if ok then t\<lparr>tm_wasmReady := True, tm_loading := False, tm_ready := True\<rparr>
     else t\<lparr>tm_loading := False, tm_status := ErrorStatus\<rparr>)"

definition connectDepsOf :: "terminal \<Rightarrow> connect_deps" where
  "connectDepsOf t = (tm_ready t, map_option ho_id (tm_host t), map_option ho_ssh_user (tm_host t))"

definition attachDepsOf :: "terminal \<Rightarrow> effect_deps" where
  "attachDepsOf t = (tm_status t, tm_sessionName t, hostKeyOf (tm_host t))"

definition connectEffect :: "connect_deps \<Rightarrow> terminal \<Rightarrow> terminal" where
  "connectEffect deps t0 =
     (if tm_connectDeps t0 = Some deps then t0
      else let t = t0\<lparr>tm_connectDeps := Some deps\<rparr> in if \<not> tm_ready t \<or> tm_host t = None then t else doConnect t)"

definition attachEffect :: "effect_deps \<Rightarrow> terminal \<Rightarrow> terminal" where
  "attachEffect deps t0 =
     (if tm_attachDeps t0 = Some deps then t0
      else let t = t0\<lparr>tm_attachDeps := Some deps\<rparr>
           in if tm_statusRef t \<noteq> Connected \<or> \<not> tm_client t \<or> hostKeyOf (tm_host t) = [] then t
              else called (WExec (hostKeyOf (tm_host t))
                     (if tm_pendingRestart t then startCommand (tm_sessionName t) else attachCommand (tm_sessionName t)))
                   (t\<lparr>tm_hasExecuted := True, tm_pendingRestart := False\<rparr>))"

text \<open>A commit: the effects whose dependencies changed, with the dependencies of the rendered state.\<close>

definition commit :: "terminal \<Rightarrow> terminal" where
  "commit t = attachEffect (attachDepsOf t) (connectEffect (connectDepsOf t) t)"

text \<open>New props: \<open>None\<close> is the host object of the last render. The imperative handle is rebuilt when \<open>doConnect\<close>,
  that is the host object, changes; a new session name alone leaves \<open>restart\<close> with the old one.\<close>

definition setProps :: "host option option \<Rightarrow> jsstring \<Rightarrow> terminal \<Rightarrow> terminal" where
  "setProps hp name t =
     commit (case hp of
               None \<Rightarrow> t\<lparr>tm_sessionName := name\<rparr>
             | Some h \<Rightarrow> t\<lparr>tm_host := h, tm_sessionName := name,
                           tm_handleName := (if h = None \<and> tm_host t = None then tm_handleName t else name)\<rparr>)"

definition unmountTerminal :: "terminal \<Rightarrow> terminal" where
  "unmountTerminal t0 =
     (let t = clearReconnect (t0\<lparr>tm_mounted := False, tm_userDisconnected := True\<rparr>)
      in called WDisconnectPending (called WDetach t))"

subsection \<open>Events\<close>

datatype term_event =
    TeStatus conn_status "jsstring option" | TePasswordRequest | TeCertRequest | TeCertDone cert_outcome
  | TeInit bool | TeExited | TeTimer nat | TeTime int
  | TeRecover | TeRecoverDone bool | TeFocus
  | TeConnect | TeDisconnect | TeRestart | TeInput bytes
  | TePasswordSubmit jsstring | TePasswordCancel | TeWebAuthnCancel
  | TeCommit | TeProps "host option option" jsstring | TePool "jsstring list" | TeBrowser browser | TeUnmount

text \<open>After the unmount the wasm callbacks are detached; a timeout fires when due; what was awaited may still
  come back.\<close>

fun enabledT :: "term_event \<Rightarrow> terminal \<Rightarrow> bool" where
  "enabledT (TeTimer n) t = list_ex (\<lambda>r. rt_id r = n \<and> rt_due r \<le> tm_now t) (tm_timers t)"
| "enabledT (TeTime d) t = (0 \<le> d)"
| "enabledT (TeRecoverDone alive) t = True"
| "enabledT (TeCertDone r) t = True"
| "enabledT (TePool ks) t = True"
| "enabledT (TeBrowser b) t = True"
| "enabledT e t = tm_mounted t"

fun termEvent :: "term_event \<Rightarrow> terminal \<Rightarrow> terminal" where
  "termEvent (TeStatus s err) t = onStatus s err t"
| "termEvent TePasswordRequest t = onPasswordRequest t"
| "termEvent TeCertRequest t = onCertificateRequest t"
| "termEvent (TeCertDone r) t = certificateDone r t"
| "termEvent (TeInit ok) t = initDone ok t"
| "termEvent TeExited t = t\<lparr>tm_wasmReady := False\<rparr>"
| "termEvent (TeTimer n) t = fireReconnect n t"
| "termEvent (TeTime d) t = t\<lparr>tm_now := tm_now t + d\<rparr>"
| "termEvent TeRecover t = recoverBegin t"
| "termEvent (TeRecoverDone alive) t = recoverDone alive t"
| "termEvent TeFocus t = recoverOnFocus t"
| "termEvent TeConnect t = doConnect t"
| "termEvent TeDisconnect t = doDisconnect t"
| "termEvent TeRestart t = doRestart t"
| "termEvent (TeInput bs) t = sendData bs t"
| "termEvent (TePasswordSubmit pw) t = handlePasswordSubmit pw t"
| "termEvent TePasswordCancel t = handlePasswordCancel t"
| "termEvent TeWebAuthnCancel t = handleWebAuthnCancel t"
| "termEvent TeCommit t = commit t"
| "termEvent (TeProps h name) t = setProps h name t"
| "termEvent (TePool ks) t = t\<lparr>tm_pool := ks\<rparr>"
| "termEvent (TeBrowser b) t = t\<lparr>tm_browser := b\<rparr>"
| "termEvent TeUnmount t = unmountTerminal t"

definition termInit :: "terminal \<Rightarrow> bool" where
  "termInit t \<longleftrightarrow> (\<exists>h name autoRestart b pool now. t = mountTerminal h name autoRestart b pool now)"

inductive tstep :: "terminal \<Rightarrow> terminal \<Rightarrow> bool" where
  tstep_event: "enabledT e t \<Longrightarrow> tstep t (termEvent e t)"

inductive_cases tstepE: "tstep t u"

text \<open>A run: every event of the list in turn, those that cannot happen skipped.\<close>

fun runEvents :: "term_event list \<Rightarrow> terminal \<Rightarrow> terminal" where
  "runEvents [] t = t"
| "runEvents (e # es) t = runEvents es (if enabledT e t then termEvent e t else t)"

subsection \<open>What the operations leave alone\<close>

fun isConnect :: "wasm_call \<Rightarrow> bool" where
  "isConnect (WConnect k u n p) = True"
| "isConnect c = False"

definition connects :: "terminal \<Rightarrow> wasm_call list" where
  "connects t = filter isConnect (tm_calls t)"

definition safeCall :: "wasm_call \<Rightarrow> bool" where
  "safeCall c \<longleftrightarrow> (case c of WExec k cmd \<Rightarrow> (\<exists>name. shellWords cmd = Some [js ''tmux'', js ''attach'', js ''-t'', name] \<or>
     shellWords cmd = Some [js ''devsesh'', js ''start'', name]) | _ \<Rightarrow> True)"

lemma safeCall_simps [simp]:
  "safeCall (WConnect k u n p)" "safeCall (WDisconnect k)" "safeCall WDisconnectPending" "safeCall WDetach" "safeCall (WSendInput bs)"
  "safeCall (WResolvePassword p)" "safeCall WRejectPassword" "safeCall (WResolveCertificate a b)" "safeCall WRejectCertificate"
  "safeCall (WExec k (attachCommand name))" "safeCall (WExec k (startCommand name))"
  by (simp_all add: safeCall_def attachCommand_words startCommand_words)

definition timerOk :: "terminal \<Rightarrow> bool" where
  "timerOk t \<longleftrightarrow> length (tm_timers t) \<le> 1 \<and> rt_id ` set (tm_timers t) \<subseteq> set_option (tm_reconnect t) \<and>
     (\<forall>r \<in> set (tm_timers t). rt_due r \<le> tm_now t + 10000) \<and> tm_attempt t \<le> 8 \<and>
     (tm_timers t \<noteq> [] \<longrightarrow> tm_attempt t < 8 \<and> tm_mounted t)"

definition termInv :: "terminal \<Rightarrow> bool" where
  "termInv t \<longleftrightarrow> timerOk t \<and> list_all safeCall (tm_calls t)"

lemma reconnectBackoff_le: "reconnectBackoff n \<le> 10000"
  by (simp add: reconnectBackoff_def)

lemma clearReconnect_empty: "timerOk t \<Longrightarrow> tm_timers (clearReconnect t) = []"
  by (cases "tm_reconnect t") (auto simp: timerOk_def clearReconnect_def filter_empty_conv)

lemma clearReconnect_fields [simp]:
  "tm_now (clearReconnect t) = tm_now t" "tm_attempt (clearReconnect t) = tm_attempt t" "tm_mounted (clearReconnect t) = tm_mounted t"
  "tm_calls (clearReconnect t) = tm_calls t" "tm_host (clearReconnect t) = tm_host t" "tm_nextTimer (clearReconnect t) = tm_nextTimer t"
  "tm_userDisconnected (clearReconnect t) = tm_userDisconnected t" "tm_recovering (clearReconnect t) = tm_recovering t"
  "tm_connectDeps (clearReconnect t) = tm_connectDeps t" "tm_ready (clearReconnect t) = tm_ready t" "tm_pool (clearReconnect t) = tm_pool t"
  "tm_statusRef (clearReconnect t) = tm_statusRef t" "tm_status (clearReconnect t) = tm_status t"
  by (simp_all add: clearReconnect_def split: option.split)

lemma maybeReconnect_timerOk: "timerOk t \<Longrightarrow> timerOk (maybeReconnect t)"
  using clearReconnect_empty [of t] reconnectBackoff_le [of "tm_attempt t"]
  by (auto simp: maybeReconnect_def scheduleReconnect_def setStatusBoth_def timerOk_def Let_def MAX_RECONNECT_ATTEMPTS_def)

lemma maybeReconnect_fields [simp]:
  "tm_calls (maybeReconnect t) = tm_calls t" "tm_userDisconnected (maybeReconnect t) = tm_userDisconnected t"
  "tm_recovering (maybeReconnect t) = tm_recovering t" "tm_connectDeps (maybeReconnect t) = tm_connectDeps t"
  "tm_ready (maybeReconnect t) = tm_ready t" "tm_host (maybeReconnect t) = tm_host t" "tm_attempt (maybeReconnect t) = tm_attempt t"
  "tm_pool (maybeReconnect t) = tm_pool t" "tm_mounted (maybeReconnect t) = tm_mounted t"
  by (simp_all add: maybeReconnect_def scheduleReconnect_def setStatusBoth_def Let_def)

lemma onStatus_fields [simp]:
  "tm_calls (onStatus s err t) = tm_calls t" "tm_userDisconnected (onStatus s err t) = tm_userDisconnected t"
  "tm_recovering (onStatus s err t) = tm_recovering t" "tm_connectDeps (onStatus s err t) = tm_connectDeps t"
  "tm_ready (onStatus s err t) = tm_ready t" "tm_host (onStatus s err t) = tm_host t" "tm_pool (onStatus s err t) = tm_pool t"
  "tm_mounted (onStatus s err t) = tm_mounted t"
  "tm_attempt (onStatus s err t) = (if s = Connected then 0 else tm_attempt t)"
  by (simp_all add: onStatus_def setStatusBoth_def Let_def)

lemma onStatus_timerOk: "timerOk t \<Longrightarrow> timerOk (onStatus s err t)"
proof -
  assume "timerOk t"
  then have "timerOk ((setStatusBoth s t)\<lparr>tm_statusError := e\<rparr>)" for e by (simp add: timerOk_def setStatusBoth_def)
  from maybeReconnect_timerOk [OF this] this show ?thesis by (auto simp: onStatus_def Let_def timerOk_def)
qed

text \<open>Connecting adds at most one call of \<open>sshConnect\<close> and touches no timeout.\<close>

lemma doConnectFor_frame:
  "tm_timers (doConnectFor h t) = tm_timers t" "tm_reconnect (doConnectFor h t) = tm_reconnect t" "tm_now (doConnectFor h t) = tm_now t"
  "tm_mounted (doConnectFor h t) = tm_mounted t" "tm_host (doConnectFor h t) = tm_host t" "tm_ready (doConnectFor h t) = tm_ready t"
  "tm_recovering (doConnectFor h t) = tm_recovering t" "tm_connectDeps (doConnectFor h t) = tm_connectDeps t" "tm_pool (doConnectFor h t) = tm_pool t"
  by (auto simp: doConnectFor_def Let_def called_def onStatus_def setStatusBoth_def split: option.split sum.split)

lemma doConnectFor_calls:
  "tm_calls (doConnectFor h t) = tm_calls t \<or> (\<exists>k u n p. tm_calls (doConnectFor h t) = tm_calls t @ [WConnect k u n p])"
  by (auto simp: doConnectFor_def Let_def called_def setStatusBoth_def sshConnectCall_def split: option.split sum.split)

lemma doConnectFor_attempt: "tm_attempt (doConnectFor h t) = tm_attempt t \<or> tm_attempt (doConnectFor h t) = 0"
  by (auto simp: doConnectFor_def Let_def called_def setStatusBoth_def split: option.split sum.split)

lemma doConnectFor_attempt_fresh: "tm_pool t = [] \<Longrightarrow> tm_attempt (doConnectFor h t) = tm_attempt t"
  by (auto simp: doConnectFor_def Let_def called_def setStatusBoth_def split: option.split sum.split)

lemma doConnectFor_timerOk: "timerOk t \<Longrightarrow> timerOk (doConnectFor h t)"
  using doConnectFor_attempt [of h t] by (auto simp: timerOk_def doConnectFor_frame)

lemma doConnectFor_inv: "termInv t \<Longrightarrow> termInv (doConnectFor h t)"
  using doConnectFor_calls [of h t] by (auto simp: termInv_def doConnectFor_timerOk)

subsection \<open>The invariant\<close>

lemma called_inv: "termInv t \<Longrightarrow> safeCall c \<Longrightarrow> termInv (called c t)"
  by (simp add: termInv_def timerOk_def called_def)

lemma fireReconnect_inv:
  assumes "termInv t"
  shows "termInv (fireReconnect n t)"
proof (cases "find (\<lambda>r. rt_id r = n) (tm_timers t)")
  case None
  then show ?thesis using assms by (simp add: fireReconnect_def)
next
  case (Some r)
  then have r: "r \<in> set (tm_timers t)" "rt_id r = n" by (auto simp: find_Some_iff)
  with assms have "tm_timers t = [r]" "tm_attempt t < 8"
    by (cases "tm_timers t"; auto simp: termInv_def timerOk_def)+
  then have g: "filter (\<lambda>r. rt_id r \<noteq> n) (tm_timers t) = []" using r(2) by simp
  let ?g = "t\<lparr>tm_timers := []\<rparr>"
  have "termInv ?g" "termInv (?g\<lparr>tm_attempt := Suc (tm_attempt t)\<rparr>)"
    using assms \<open>tm_attempt t < 8\<close> by (auto simp: termInv_def timerOk_def)
  then show ?thesis by (auto simp: fireReconnect_def Some g Let_def intro: doConnectFor_inv)
qed

lemma recoverDone_inv:
  assumes "termInv t"
  shows "termInv (recoverDone alive t)"
proof (cases "tm_recovering t")
  case (Cons h hs)
  let ?t1 = "if alive then t\<lparr>tm_recovering := hs\<rparr> else t\<lparr>tm_recovering := hs, tm_showWebAuthn := True\<rparr>"
  let ?t2 = "if hostKeyOf h \<noteq> [] \<and> tm_client ?t1 then called (WDisconnect (hostKeyOf h)) ?t1 else ?t1"
  have "termInv (t\<lparr>tm_recovering := hs\<rparr>)" "termInv ?t1" using assms by (auto simp: termInv_def timerOk_def)
  then have "termInv ?t2" by (auto intro: called_inv)
  then have "termInv (?t2\<lparr>tm_attempt := 0\<rparr>)" by (auto simp: termInv_def timerOk_def)
  then show ?thesis using \<open>termInv (t\<lparr>tm_recovering := hs\<rparr>)\<close> doConnectFor_inv [of "?t2\<lparr>tm_attempt := 0\<rparr>" h]
    by (auto simp: recoverDone_def Cons Let_def)
qed (simp add: recoverDone_def assms)

lemma connectEffect_inv: "termInv t \<Longrightarrow> termInv (connectEffect d t)"
proof -
  assume "termInv t"
  then have "termInv (t\<lparr>tm_connectDeps := Some d\<rparr>)" by (simp add: termInv_def timerOk_def)
  then show ?thesis using \<open>termInv t\<close> doConnectFor_inv by (auto simp: connectEffect_def Let_def doConnect_def)
qed

lemma attachEffect_inv: "termInv t \<Longrightarrow> termInv (attachEffect d t)"
proof -
  assume inv: "termInv t"
  then have "termInv (t\<lparr>tm_attachDeps := Some d\<rparr>)" "termInv (t\<lparr>tm_attachDeps := Some d, tm_hasExecuted := True, tm_pendingRestart := False\<rparr>)"
    by (simp_all add: termInv_def timerOk_def)
  then show ?thesis using inv by (auto simp: attachEffect_def Let_def intro: called_inv)
qed

lemma commit_inv: "termInv t \<Longrightarrow> termInv (commit t)"
  by (simp add: commit_def attachEffect_inv connectEffect_inv)

lemma unmount_inv:
  assumes "termInv t"
  shows "termInv (unmountTerminal t)"
proof -
  let ?g = "clearReconnect (t\<lparr>tm_mounted := False, tm_userDisconnected := True\<rparr>)"
  have "tm_timers ?g = []"
    using assms clearReconnect_empty [of t] by (cases "tm_reconnect t") (auto simp: termInv_def clearReconnect_def)
  then have "termInv ?g" using assms by (simp add: termInv_def timerOk_def)
  then show ?thesis by (simp add: unmountTerminal_def Let_def called_inv)
qed

lemma doDisconnect_inv: "termInv t \<Longrightarrow> termInv (doDisconnect t)"
  by (auto simp: doDisconnect_def Let_def called_def setStatusBoth_def termInv_def timerOk_def)

lemma handlePasswordCancel_inv: "termInv t \<Longrightarrow> termInv (handlePasswordCancel t)"
  by (auto simp: handlePasswordCancel_def Let_def called_def setStatusBoth_def termInv_def timerOk_def)

lemma doRestart_inv: "termInv t \<Longrightarrow> termInv (doRestart t)"
proof -
  assume inv: "termInv t"
  then have "termInv (t\<lparr>tm_pendingRestart := True, tm_userDisconnected := False, tm_attempt := 0\<rparr>)"
    "termInv (t\<lparr>tm_hasExecuted := True\<rparr>)" by (auto simp: termInv_def timerOk_def)
  then show ?thesis using inv by (auto simp: doRestart_def doConnect_def intro: called_inv doConnectFor_inv)
qed

lemma certificateDone_inv: "termInv t \<Longrightarrow> termInv (certificateDone r t)"
  by (cases r) (auto simp: called_def termInv_def timerOk_def split: sum.split)

lemma term_step_inv:
  assumes "termInv t" and "enabledT e t"
  shows "termInv (termEvent e t)"
proof (cases e)
  case (TeTime d)
  then show ?thesis using assms by (fastforce simp: termInv_def timerOk_def)
next
  case (TeStatus s err)
  then show ?thesis using assms onStatus_timerOk [of t s err] by (simp add: termInv_def)
next
  case (TeProps h name)
  have "termInv (case h of None \<Rightarrow> t\<lparr>tm_sessionName := name\<rparr>
      | Some h \<Rightarrow> t\<lparr>tm_host := h, tm_sessionName := name, tm_handleName := (if h = None \<and> tm_host t = None then tm_handleName t else name)\<rparr>)"
    using assms by (simp add: termInv_def timerOk_def split: option.split)
  then show ?thesis by (simp add: TeProps setProps_def commit_inv)
next
  case TeConnect
  then show ?thesis using assms by (simp add: doConnect_def doConnectFor_inv)
next
  case TeRecover
  then show ?thesis using assms by (simp add: recoverBegin_def termInv_def timerOk_def)
next
  case TeFocus
  then show ?thesis using assms by (simp add: recoverOnFocus_def recoverBegin_def termInv_def timerOk_def)
next
  case (TeInput bs)
  then show ?thesis using assms by (simp add: sendData_def called_inv)
next
  case (TePasswordSubmit pw)
  then show ?thesis using assms by (simp add: handlePasswordSubmit_def called_def termInv_def timerOk_def)
next
  case TeWebAuthnCancel
  then show ?thesis using assms by (simp add: handleWebAuthnCancel_def Let_def called_def termInv_def timerOk_def)
next
  case (TeInit ok)
  then show ?thesis using assms by (simp add: initDone_def termInv_def timerOk_def)
next
  case TePasswordRequest
  then show ?thesis using assms by (simp add: onPasswordRequest_def termInv_def timerOk_def)
next
  case TeCertRequest
  then show ?thesis using assms by (simp add: onCertificateRequest_def termInv_def timerOk_def)
next
  case TeExited
  then show ?thesis using assms by (simp add: termInv_def timerOk_def)
next
  case (TePool ks)
  then show ?thesis using assms by (simp add: termInv_def timerOk_def)
next
  case (TeBrowser b)
  then show ?thesis using assms by (simp add: termInv_def timerOk_def)
qed (use assms in \<open>simp_all add: fireReconnect_inv recoverDone_inv doDisconnect_inv doRestart_inv handlePasswordCancel_inv
      certificateDone_inv commit_inv unmount_inv\<close>)

interpretation term_system: invariant_system termInit tstep termInv
proof
  fix t assume "termInit t"
  then show "termInv t" by (auto simp: termInit_def mountTerminal_def termInv_def timerOk_def)
next
  fix t u assume "termInv t" "tstep t u"
  then show "termInv u" by (auto elim!: tstepE intro: term_step_inv)
qed

subsection \<open>Runs without anybody asking to connect\<close>

text \<open>The dependencies of the connect effect are those of its last run.\<close>

definition settled :: "terminal \<Rightarrow> bool" where
  "settled t \<longleftrightarrow> tm_recovering t = [] \<and> tm_connectDeps t = Some (connectDepsOf t)"

fun asksConnect :: "term_event \<Rightarrow> bool" where
  "asksConnect TeConnect = True"
| "asksConnect TeRestart = True"
| "asksConnect (TeProps h name) = True"
| "asksConnect (TeInit ok) = True"
| "asksConnect e = False"

fun freshStart :: "term_event \<Rightarrow> bool" where
  "freshStart (TeStatus s err) = (s = Connected)"
| "freshStart TeRecover = True"
| "freshStart TeFocus = True"
| "freshStart (TePool ks) = True"
| "freshStart e = asksConnect e"

lemma connects_called [simp]: "connects (called c t) = connects t @ (if isConnect c then [c] else [])"
  by (simp add: connects_def called_def)

lemma connects_cong: "tm_calls t = tm_calls u \<Longrightarrow> connects t = connects u"
  by (simp add: connects_def)

lemma connectEffect_settled: "tm_connectDeps t = Some d \<Longrightarrow> connectEffect d t = t"
  by (simp add: connectEffect_def)

lemma attachEffect_fields:
  "connects (attachEffect d t) = connects t" "tm_attempt (attachEffect d t) = tm_attempt t"
  "tm_userDisconnected (attachEffect d t) = tm_userDisconnected t" "tm_recovering (attachEffect d t) = tm_recovering t"
  "tm_connectDeps (attachEffect d t) = tm_connectDeps t" "tm_ready (attachEffect d t) = tm_ready t" "tm_host (attachEffect d t) = tm_host t"
  "tm_pool (attachEffect d t) = tm_pool t"
  by (simp_all add: attachEffect_def Let_def called_def connects_def)

text \<open>What an event does when nobody asks to connect: it leaves the effect settled, and adds no connect
  but that of a reconnect timeout, which an intentional disconnect holds back.\<close>

definition keepsQuiet :: "terminal \<Rightarrow> terminal \<Rightarrow> bool" where
  "keepsQuiet t u \<longleftrightarrow> connects u = connects t \<and> tm_host u = tm_host t \<and> tm_ready u = tm_ready t \<and>
     tm_connectDeps u = tm_connectDeps t \<and> (tm_userDisconnected t \<longrightarrow> tm_userDisconnected u)"

lemma keepsQuiet_certificateDone: "keepsQuiet t (certificateDone r t)"
  by (cases r) (auto simp: keepsQuiet_def connects_def called_def split: sum.split)

lemma keepsQuiet_doDisconnect: "keepsQuiet t (doDisconnect t)"
  by (simp add: keepsQuiet_def connects_def called_def doDisconnect_def setStatusBoth_def Let_def)

lemma keepsQuiet_handlePasswordCancel: "keepsQuiet t (handlePasswordCancel t)"
  by (simp add: keepsQuiet_def connects_def called_def handlePasswordCancel_def setStatusBoth_def Let_def)

lemma keepsQuiet_others:
  "keepsQuiet t (onStatus s err t)" "keepsQuiet t (handlePasswordSubmit pw t)" "keepsQuiet t (handleWebAuthnCancel t)"
  "keepsQuiet t (unmountTerminal t)" "keepsQuiet t (attachEffect d t)"
  by (simp_all add: keepsQuiet_def connects_def called_def handlePasswordSubmit_def
      handleWebAuthnCancel_def unmountTerminal_def attachEffect_def Let_def)

lemmas keepsQuiet_ops = keepsQuiet_certificateDone keepsQuiet_doDisconnect keepsQuiet_handlePasswordCancel keepsQuiet_others

lemma certificateDone_fields:
  "tm_recovering (certificateDone r t) = tm_recovering t" "tm_pool (certificateDone r t) = tm_pool t"
  "tm_attempt (certificateDone r t) = tm_attempt t"
  by (cases r; simp add: called_def split: sum.split)+

lemma doDisconnect_fields:
  "tm_recovering (doDisconnect t) = tm_recovering t" "tm_pool (doDisconnect t) = tm_pool t" "tm_attempt (doDisconnect t) = tm_attempt t"
  by (simp_all add: doDisconnect_def called_def setStatusBoth_def Let_def)

lemma handlePasswordCancel_fields:
  "tm_recovering (handlePasswordCancel t) = tm_recovering t" "tm_pool (handlePasswordCancel t) = tm_pool t" "tm_attempt (handlePasswordCancel t) = tm_attempt t"
  by (simp_all add: handlePasswordCancel_def called_def setStatusBoth_def Let_def)

lemma handlePasswordSubmit_fields:
  "tm_recovering (handlePasswordSubmit pw t) = tm_recovering t" "tm_pool (handlePasswordSubmit pw t) = tm_pool t" "tm_attempt (handlePasswordSubmit pw t) = tm_attempt t"
  by (simp_all add: handlePasswordSubmit_def called_def setStatusBoth_def Let_def)

lemma handleWebAuthnCancel_fields:
  "tm_recovering (handleWebAuthnCancel t) = tm_recovering t" "tm_pool (handleWebAuthnCancel t) = tm_pool t" "tm_attempt (handleWebAuthnCancel t) = tm_attempt t"
  by (simp_all add: handleWebAuthnCancel_def called_def setStatusBoth_def Let_def)

lemma unmountTerminal_fields:
  "tm_recovering (unmountTerminal t) = tm_recovering t" "tm_pool (unmountTerminal t) = tm_pool t" "tm_attempt (unmountTerminal t) = tm_attempt t"
  by (simp_all add: unmountTerminal_def called_def setStatusBoth_def Let_def)

lemmas recovering_ops = certificateDone_fields doDisconnect_fields handlePasswordCancel_fields handlePasswordSubmit_fields handleWebAuthnCancel_fields unmountTerminal_fields

lemma quiet_event:
  assumes "settled t" and "\<not> asksConnect e" and "\<And>n. e \<noteq> TeTimer n"
  shows "keepsQuiet t (termEvent e t) \<and>
    (\<not> freshStart e \<or> tm_userDisconnected t \<longrightarrow> tm_recovering (termEvent e t) = [])"
proof (cases e)
  case (TeRecoverDone alive)
  then show ?thesis using assms by (simp add: recoverDone_def settled_def keepsQuiet_def)
next
  case TeCommit
  then show ?thesis using assms keepsQuiet_others(5)
    by (simp add: commit_def settled_def connectEffect_settled attachEffect_fields)
next
  case (TeTimer n)
  then show ?thesis using assms by simp
qed (use assms in \<open>simp_all add: settled_def recovering_ops keepsQuiet_ops, simp_all add: keepsQuiet_def connects_def
      onPasswordRequest_def onCertificateRequest_def recoverBegin_def recoverOnFocus_def sendData_def called_def\<close>)

lemma keepsQuiet_settled: "settled t \<Longrightarrow> keepsQuiet t u \<Longrightarrow> tm_recovering u = [] \<Longrightarrow> settled u"
  by (simp add: settled_def keepsQuiet_def connectDepsOf_def)

lemma timer_userDisconnected:
  "tm_userDisconnected t \<Longrightarrow> keepsQuiet t (fireReconnect n t) \<and> tm_recovering (fireReconnect n t) = tm_recovering t"
  by (auto simp: fireReconnect_def keepsQuiet_def connects_def Let_def split: option.split)

lemma disconnected_step:
  assumes "settled t" and "tm_userDisconnected t" and "\<not> asksConnect e"
  shows "settled (termEvent e t) \<and> tm_userDisconnected (termEvent e t) \<and> connects (termEvent e t) = connects t"
proof -
  have "keepsQuiet t (termEvent e t) \<and> tm_recovering (termEvent e t) = []"
  proof (cases "\<exists>n. e = TeTimer n")
    case True
    then obtain n where "e = TeTimer n" by blast
    then show ?thesis using timer_userDisconnected [OF assms(2), of n] assms(1) by (simp add: settled_def)
  next
    case False
    then show ?thesis using quiet_event [OF assms(1,3)] assms(2) by blast
  qed
  then show ?thesis using keepsQuiet_settled [OF assms(1), of "termEvent e t"] assms(2) by (simp add: keepsQuiet_def)
qed

lemma disconnected_run:
  "settled t \<Longrightarrow> tm_userDisconnected t \<Longrightarrow> list_all (\<lambda>e. \<not> asksConnect e) es \<Longrightarrow>
     connects (runEvents es t) = connects t \<and> tm_userDisconnected (runEvents es t)"
  by (induction es t rule: runEvents.induct) (auto dest: disconnected_step)

text \<open>Attempts and connects together never grow by more than the budget.\<close>

lemma drop_step:
  assumes "termInv t" and "settled t" and "tm_pool t = []" and "\<not> freshStart e" and "enabledT e t"
  shows "settled (termEvent e t) \<and> tm_pool (termEvent e t) = [] \<and>
    length (connects (termEvent e t)) + tm_attempt t \<le> length (connects t) + tm_attempt (termEvent e t)"
proof (cases "\<exists>n. e = TeTimer n")
  case True
  then obtain n where e: "e = TeTimer n" by blast
  show ?thesis
  proof (cases "find (\<lambda>r. rt_id r = n) (tm_timers t)")
    case None
    then show ?thesis using assms by (simp add: e fireReconnect_def)
  next
    case (Some r)
    let ?g = "t\<lparr>tm_timers := filter (\<lambda>r. rt_id r \<noteq> n) (tm_timers t), tm_attempt := Suc (tm_attempt t)\<rparr>"
    have "length (connects (doConnectFor (rt_host r) ?g)) \<le> Suc (length (connects t))"
      using doConnectFor_calls [of "rt_host r" ?g] by (auto simp: connects_def)
    moreover have "tm_attempt (doConnectFor (rt_host r) ?g) = Suc (tm_attempt t)"
      using doConnectFor_attempt_fresh [of ?g "rt_host r"] assms(3) by simp
    ultimately show ?thesis using assms(2,3)
      by (auto simp: e fireReconnect_def Some Let_def settled_def connectDepsOf_def doConnectFor_frame connects_def)
  qed
next
  case False
  have "\<not> asksConnect e" using assms(4) by (cases e) auto
  from quiet_event [OF assms(2) this] False assms(4)
  have q: "keepsQuiet t (termEvent e t)" "tm_recovering (termEvent e t) = []" by auto
  have "tm_pool (termEvent e t) = [] \<and> tm_attempt (termEvent e t) = tm_attempt t"
    using False assms(2-4) by (cases e) (auto simp: recovering_ops onPasswordRequest_def onCertificateRequest_def sendData_def called_def
        recoverDone_def settled_def commit_def connectEffect_settled attachEffect_fields)
  then show ?thesis using q keepsQuiet_settled [OF assms(2) q] by (simp add: keepsQuiet_def)
qed

lemma drop_run:
  "termInv t \<Longrightarrow> settled t \<Longrightarrow> tm_pool t = [] \<Longrightarrow> list_all (\<lambda>e. \<not> freshStart e) es \<Longrightarrow>
     termInv (runEvents es t) \<and>
     length (connects (runEvents es t)) + tm_attempt t \<le> length (connects t) + tm_attempt (runEvents es t)"
proof (induction es t rule: runEvents.induct)
  case (2 e es t)
  let ?u = "if enabledT e t then termEvent e t else t"
  have "settled ?u \<and> tm_pool ?u = [] \<and> length (connects ?u) + tm_attempt t \<le> length (connects t) + tm_attempt ?u"
    using drop_step [of t e] 2 by auto
  moreover have "termInv ?u" using 2 term_step_inv by auto
  ultimately show ?case using 2 by fastforce
qed simp

subsection \<open>Properties\<close>

text \<open>C13: a session name cannot inject anything into the remote shell. In every reachable state of a terminal,
  every command it ever ran on a host splits, in a POSIX shell, into exactly the words \<open>tmux attach -t NAME\<close>
  or \<open>devsesh start NAME\<close>, with nothing expanded and no quote left open, whatever the name is.\<close>

theorem terminal_commands_quoted:
  assumes "reach termInit tstep t" and "WExec key cmd \<in> set (tm_calls t)"
  shows "\<exists>name. shellWords cmd = Some [js ''tmux'', js ''attach'', js ''-t'', name] \<or>
    shellWords cmd = Some [js ''devsesh'', js ''start'', name]"
proof -
  have "termInv t" by (rule term_system.reachable_inv [OF assms(1)])
  then have "safeCall (WExec key cmd)" using assms(2) by (auto simp: termInv_def list_all_iff)
  then show ?thesis by (simp add: safeCall_def)
qed



text \<open>C16: a drop is never silent. When a mounted terminal that was not disconnected on purpose reports
  \<open>disconnected\<close> or \<open>error\<close>, either the ceiling of 8 attempts is reached and the terminal shows the error with
  no timeout pending, or exactly one timeout is pending for the current host, after 1 s doubled with every
  attempt and capped at 10 s, and when it fires it opens the connection to that host.\<close>

theorem drop_reconnects_or_gives_up:
  assumes "reach termInit tstep t" and "tm_mounted t" and "\<not> tm_userDisconnected t" and "s = Disconnected \<or> s = ErrorStatus"
  shows "let u = onStatus s err t in
    (if tm_attempt t = 8 then tm_status u = ErrorStatus \<and> tm_timers u = []
     else \<exists>r. tm_timers u = [r] \<and> rt_due r = tm_now t + min (1000 * 2 ^ tm_attempt t) 10000 \<and> rt_host r = tm_host t \<and>
            fireReconnect (rt_id r) u = doConnect (u\<lparr>tm_timers := [], tm_attempt := Suc (tm_attempt t)\<rparr>))"
proof -
  have inv: "timerOk t" using term_system.reachable_inv [OF assms(1)] by (simp add: termInv_def)
  define t1 where "t1 = (setStatusBoth s t)\<lparr>tm_statusError := statusErrorAfter s err (tm_statusError t)\<rparr>"
  have t1: "timerOk t1" "tm_mounted t1" "\<not> tm_userDisconnected t1" "tm_attempt t1 = tm_attempt t" "tm_host t1 = tm_host t"
    "tm_now t1 = tm_now t" "tm_timers t1 = tm_timers t"
    using inv assms(2,3) by (simp_all add: t1_def setStatusBoth_def timerOk_def)
  have u: "onStatus s err t = maybeReconnect t1" using assms(4) t1(3) by (auto simp: onStatus_def Let_def t1_def [symmetric])
  show ?thesis
  proof (cases "tm_attempt t = 8")
    case True
    then have "tm_timers t = []" using inv by (auto simp: timerOk_def)
    with True show ?thesis using t1 by (simp add: u maybeReconnect_def MAX_RECONNECT_ATTEMPTS_def setStatusBoth_def)
  next
    case False
    then have "tm_attempt t < 8" using inv by (simp add: timerOk_def)
    then have m: "maybeReconnect t1 = scheduleReconnect t1"
      using t1 by (simp add: maybeReconnect_def MAX_RECONNECT_ATTEMPTS_def)
    let ?r = "\<lparr>rt_id = tm_nextTimer t1, rt_due = tm_now t + reconnectBackoff (tm_attempt t), rt_host = tm_host t\<rparr>"
    have f: "tm_timers (scheduleReconnect t1) = [?r]" "\<not> tm_userDisconnected (scheduleReconnect t1)"
      "tm_mounted (scheduleReconnect t1)" "tm_attempt (scheduleReconnect t1) = tm_attempt t" "tm_host (scheduleReconnect t1) = tm_host t"
      using clearReconnect_empty [OF t1(1)] t1 by (simp_all add: scheduleReconnect_def Let_def)
    show ?thesis
      unfolding u m Let_def using False by (auto simp: f fireReconnect_def doConnect_def reconnectBackoff_def)
  qed
qed

subsection \<open>Races\<close>

definition canConnect :: "terminal \<Rightarrow> bool" where
  "canConnect t \<longleftrightarrow> tm_mounted t \<and> tm_client t \<and> tm_wasmReady t \<and> bearerOf (tm_browser t) \<noteq> None"

lemma doConnectFor_connects:
  "canConnect t \<Longrightarrow> \<exists>u n p. tm_calls (doConnectFor (Some h) t) = tm_calls t @ [WConnect (showInt (ho_id h)) u n p] \<and>
     \<not> tm_userDisconnected (doConnectFor (Some h) t)"
  by (auto simp: canConnect_def doConnectFor_def Let_def sshConnectCall_def bearerOf_def called_def setStatusBoth_def split: option.splits if_splits)

text \<open>A disconnect while \<open>recover\<close> waits for the worker check is undone: the recovery does not look at
  \<open>userDisconnectedRef\<close> again after its \<open>await\<close>.\<close>

theorem recover_overrides_disconnect:
  assumes "canConnect t" and "tm_host t = Some h" and "\<not> tm_userDisconnected t" and "tm_recovering t = []"
  shows "let u = termEvent (TeRecoverDone alive) (termEvent TeDisconnect (termEvent TeRecover t)) in
    \<not> tm_userDisconnected u \<and> (\<exists>us n p. last (tm_calls u) = WConnect (showInt (ho_id h)) us n p)"
proof -
  define d where "d = termEvent TeDisconnect (termEvent TeRecover t)"
  have d: "tm_recovering d = [Some h]" "canConnect d" "tm_statusRef d = Disconnected"
    using assms by (auto simp: d_def recoverBegin_def canConnect_def doDisconnect_def Let_def setStatusBoth_def called_def)
  define w where "w = (let t1 = (if alive then d\<lparr>tm_recovering := []\<rparr> else d\<lparr>tm_recovering := [], tm_showWebAuthn := True\<rparr>);
      t2 = (if hostKeyOf (Some h) \<noteq> [] \<and> tm_client t1 then called (WDisconnect (hostKeyOf (Some h))) t1 else t1) in t2\<lparr>tm_attempt := 0\<rparr>)"
  have "canConnect w" using d by (simp add: w_def Let_def canConnect_def called_def)
  moreover have "recoverDone alive d = doConnectFor (Some h) w"
    using d by (simp add: recoverDone_def w_def Let_def canConnect_def)
  ultimately have "\<exists>us n p. tm_calls (recoverDone alive d) = tm_calls w @ [WConnect (showInt (ho_id h)) us n p] \<and>
      \<not> tm_userDisconnected (recoverDone alive d)"
    using doConnectFor_connects [of w h] by simp
  then show ?thesis unfolding Let_def d_def termEvent.simps by auto
qed

text \<open>A reconnect timeout keeps the host of the render that scheduled it: after a switch to another host it
  connects to the old one.\<close>

theorem reconnect_uses_stale_host:
  assumes "canConnect t" and "\<not> tm_userDisconnected t" and "tm_timers t = [r]" and "rt_host r = Some old"
  shows "\<exists>u n p. last (tm_calls (fireReconnect (rt_id r) (t\<lparr>tm_host := Some new\<rparr>))) = WConnect (showInt (ho_id old)) u n p"
proof -
  let ?g = "t\<lparr>tm_host := Some new, tm_timers := [], tm_attempt := Suc (tm_attempt t)\<rparr>"
  have "canConnect ?g" using assms(1) by (simp add: canConnect_def)
  then show ?thesis using doConnectFor_connects [of ?g old] assms
    by (auto simp: fireReconnect_def canConnect_def)
qed

subsection \<open>Concrete terminals\<close>

definition toy_term_browser :: browser where
  "toy_term_browser = \<lparr>br_window = True, br_storage = empty_storage\<lparr>ls_items := [js ''token'' \<mapsto> js ''t'']\<rparr>,
     br_protocol = js ''https:'', br_host = js ''h'', br_href = None\<rparr>"

definition toy_host :: host where
  "toy_host = \<lparr>ho_id = 7, ho_label = js ''h'', ho_hostname = js ''h'', ho_ssh_user = [], ho_ssh_port = 22, ho_ssh_principal = []\<rparr>"

definition toy_mount :: terminal where
  "toy_mount = mountTerminal (Some toy_host) (js ''it's'') False toy_term_browser [] 0"

definition toy_live :: terminal where
  "toy_live = termEvent TeCommit (termEvent (TeInit True) toy_mount)"

lemma reach_term_event: "reach termInit tstep t \<Longrightarrow> enabledT e t \<Longrightarrow> reach termInit tstep (termEvent e t)"
  by (blast intro: reach_step tstep_event)

lemma toy_mount_reached: "reach termInit tstep toy_mount"
  unfolding toy_mount_def by (rule reach_init) (unfold termInit_def, blast)

lemmas toy_term_defs = toy_mount_def mountTerminal_def toy_host_def toy_term_browser_def empty_storage_def initDone_def commit_def
  connectEffect_def attachEffect_def connectDepsOf_def attachDepsOf_def hostKeyOf_def Let_def doConnect_def doConnectFor_def
  sshConnectCall_def getToken_def getItem_def setStatusBoth_def called_def

lemma showInt_nonempty [simp]: "showInt i \<noteq> []"
  by (simp add: showInt_def showNat_def natDigits.simps [of "nat \<bar>i\<bar>"])

lemma toy_live_facts:
  "reach termInit tstep toy_live" "settled toy_live" "tm_pool toy_live = []" "tm_mounted toy_live" "\<not> tm_userDisconnected toy_live"
  "tm_attempt toy_live = 0" "length (connects toy_live) = 1" "tm_timers toy_live = []" "tm_statusRef toy_live = Connecting"
proof -
  have "enabledT (TeInit True) toy_mount" by (simp add: toy_mount_def mountTerminal_def)
  from reach_term_event [OF toy_mount_reached this] show "reach termInit tstep toy_live"
    unfolding toy_live_def by (rule reach_term_event) (simp add: toy_mount_def mountTerminal_def initDone_def)
qed (simp_all add: toy_live_def settled_def connects_def toy_term_defs)

theorem terminal_commands_quoted_witness:
  "let t = termEvent TeRestart (termEvent (TeStatus Connected None) toy_live)
   in reach termInit tstep t \<and> (\<exists>cmd. WExec (showInt 7) cmd \<in> set (tm_calls t) \<and>
        (\<exists>name. shellWords cmd = Some [js ''tmux'', js ''attach'', js ''-t'', name] \<or> shellWords cmd = Some [js ''devsesh'', js ''start'', name]))"
proof -
  let ?t = "termEvent TeRestart (termEvent (TeStatus Connected None) toy_live)"
  have "reach termInit tstep (termEvent (TeStatus Connected None) toy_live)"
    using toy_live_facts by (intro reach_term_event) simp_all
  then have r: "reach termInit tstep ?t" using toy_live_facts by (intro reach_term_event) simp_all
  have m: "WExec (showInt 7) (startCommand (js ''it's'')) \<in> set (tm_calls ?t)"
    by (simp add: doRestart_def onStatus_def toy_live_def toy_term_defs)
  show ?thesis using terminal_commands_quoted [OF r m] r m by (auto simp: Let_def)
qed



theorem drop_reconnects_or_gives_up_witness:
  "\<exists>r. tm_timers (onStatus Disconnected None toy_live) = [r] \<and> rt_due r = tm_now toy_live + 1000"
  using drop_reconnects_or_gives_up [OF toy_live_facts(1,4,5), of Disconnected None] toy_live_facts(6) by (auto simp: Let_def)

end
