(* ===== verification/Spake2.thy ===== *)
theory Spake2
  imports MasterKey
begin

unbundle bit_operations_syntax

text \<open>
  The password-authenticated exchange of passkey enrollment (\<open>web/src/lib/crypto/spake2.ts\<close>): each side sends
  its ECDH public key, XOR-ed with a hash of the code. P-256 of WebCrypto and SHA-256 and HKDF of
  \<open>@noble/hashes\<close> are the fields of \<open>p256\<close>; what the exchange relies on is \<open>ecdh_agreement\<close>. \<open>toUpperCase\<close> is the
  parameter \<open>uc\<close>.
\<close>

record p256 =
  pk_of :: "bytes \<Rightarrow> bytes"                    \<comment> \<open>the raw public key of a private key\<close>
  valid_point :: "bytes \<Rightarrow> bool"               \<comment> \<open>what \<open>importKey('raw', ...)\<close> accepts\<close>
  ecdh_bits :: "bytes \<Rightarrow> bytes \<Rightarrow> bytes"        \<comment> \<open>private key, public key: 256 bits\<close>
  sha256 :: "bytes \<Rightarrow> bytes"
  hkdf :: "bytes \<Rightarrow> bytes \<Rightarrow> bytes \<Rightarrow> nat \<Rightarrow> bytes"

text \<open>Public keys import, the shared bits do not depend on the side and are 32 bytes.\<close>

definition ecdh_agreement :: "p256 \<Rightarrow> bool" where
  "ecdh_agreement g \<longleftrightarrow> (\<forall>a b. valid_point g (pk_of g a) \<and> ecdh_bits g a (pk_of g b) = ecdh_bits g b (pk_of g a) \<and>
     length (ecdh_bits g a (pk_of g b)) = 32)"

definition hkdf_size :: "p256 \<Rightarrow> bool" where
  "hkdf_size g \<longleftrightarrow> (\<forall>ikm salt info n. length (hkdf g ikm salt info n) = n)"

datatype spake_error = InvalidPoint | TranscriptRange | SpakeBase64 base64_error

record spake2_state =
  sp_privateKey :: bytes
  sp_password :: jsstring
  sp_isPartyA :: bool
  sp_publicKeyBytes :: bytes
  sp_blindedPublicKey :: bytes

definition derivePasswordPoint :: "p256 \<Rightarrow> (jsstring \<Rightarrow> jsstring) \<Rightarrow> jsstring \<Rightarrow> byte \<Rightarrow> bytes" where
  "derivePasswordPoint g uc password tag = sha256 g (textEncode (uc password) @ [tag])"

text \<open>\<open>b[i % b.length]\<close> is \<open>undefined\<close> for an empty \<open>b\<close>, which XOR reads as 0.\<close>

definition xorArrays :: "bytes \<Rightarrow> bytes \<Rightarrow> bytes" where
  "xorArrays a b = map (\<lambda>i. a ! i XOR (if b = [] then 0 else b ! (i mod length b))) [0..<length a]"

text \<open>\<open>priv\<close> is the private key that \<open>generateKey\<close> drew.\<close>

definition spake2Init :: "p256 \<Rightarrow> (jsstring \<Rightarrow> jsstring) \<Rightarrow> bytes \<Rightarrow> jsstring \<Rightarrow> bool \<Rightarrow> spake2_state \<times> bytes" where
  "spake2Init g uc priv password isPartyA =
     (let publicKeyBytes = pk_of g priv;
          blindingFactor = derivePasswordPoint g uc password (if isPartyA then 0x00 else 0x01);
          blindedPublicKey = xorArrays publicKeyBytes blindingFactor
      in (\<lparr>sp_privateKey = priv, sp_password = uc password, sp_isPartyA = isPartyA,
           sp_publicKeyBytes = publicKeyBytes, sp_blindedPublicKey = blindedPublicKey\<rparr>, blindedPublicKey))"

definition spake2InitB :: "p256 \<Rightarrow> (jsstring \<Rightarrow> jsstring) \<Rightarrow> bytes \<Rightarrow> jsstring \<Rightarrow> spake2_state \<times> bytes" where
  "spake2InitB g uc priv password =
     (let publicKeyBytes = pk_of g priv;
          blindingFactor = derivePasswordPoint g uc password 0x01;
          blindedPublicKey = xorArrays publicKeyBytes blindingFactor
      in (\<lparr>sp_privateKey = priv, sp_password = uc password, sp_isPartyA = False,
           sp_publicKeyBytes = publicKeyBytes, sp_blindedPublicKey = blindedPublicKey\<rparr>, blindedPublicKey))"

definition liftRange :: "'a option \<Rightarrow> spake_error + 'a" where
  "liftRange r = (case r of Some x \<Rightarrow> Inr x | None \<Rightarrow> Inl TranscriptRange)"

definition importPublicKey :: "p256 \<Rightarrow> bytes \<Rightarrow> spake_error + bytes" where
  "importPublicKey g bs = (if valid_point g bs then Inr bs else Inl InvalidPoint)"

definition spake2Transcript :: "spake2_state \<Rightarrow> bytes \<Rightarrow> bytes \<Rightarrow> spake_error + bytes" where
  "spake2Transcript st other sharedBits =
     (let mine = sp_blindedPublicKey st;
          t0 = newUint8Array (length mine + length other + 32);
          (fstPart, sndPart) = (if sp_isPartyA st then (mine, other) else (other, mine))
      in bindE (liftRange (u8_set t0 fstPart 0)) (\<lambda>t1.
         bindE (liftRange (u8_set t1 sndPart (length fstPart))) (\<lambda>t2.
         liftRange (u8_set t2 sharedBits (length mine + length other)))))"

definition spake2Finish :: "p256 \<Rightarrow> (jsstring \<Rightarrow> jsstring) \<Rightarrow> spake2_state \<Rightarrow> bytes \<Rightarrow> spake_error + bytes" where
  "spake2Finish g uc st other =
     (let otherBlindingFactor = derivePasswordPoint g uc (sp_password st) (if sp_isPartyA st then 0x01 else 0x00);
          otherPublicKeyBytes = xorArrays other otherBlindingFactor
      in bindE (importPublicKey g otherPublicKeyBytes) (\<lambda>otherPublicKey.
         bindE (spake2Transcript st other (ecdh_bits g (sp_privateKey st) otherPublicKey)) (\<lambda>transcript.
         Inr (hkdf g transcript (sha256 g (textEncode (sp_password st))) (textEncode (js ''SPAKE2 shared secret'')) 32))))"

definition encodeMessage :: "bytes \<Rightarrow> base64_error + jsstring" where
  "encodeMessage data = encodeBase64 data"

definition decodeMessage :: "jsstring \<Rightarrow> base64_error + bytes" where
  "decodeMessage encoded = decodeBase64 encoded"

subsection \<open>Laws\<close>

lemma length_xorArrays [simp]: "length (xorArrays a b) = length a"
  by (simp add: xorArrays_def)

lemma nth_xorArrays: "i < length a \<Longrightarrow> xorArrays a b ! i = a ! i XOR (if b = [] then 0 else b ! (i mod length b))"
  by (simp add: xorArrays_def)

lemma xorArrays_twice [simp]: "xorArrays (xorArrays a b) b = a"
  by (rule nth_equalityI) (simp_all add: nth_xorArrays xor.assoc)

lemma spake2InitB_eq: "spake2InitB g uc priv password = spake2Init g uc priv password False"
  by (simp add: spake2InitB_def spake2Init_def)

text \<open>The transcript is A's message, then B's, then the shared bits, on both sides.\<close>

lemma spake2Transcript_eq:
  assumes "length sharedBits = 32"
  shows "spake2Transcript st other sharedBits =
    Inr ((if sp_isPartyA st then sp_blindedPublicKey st @ other else other @ sp_blindedPublicKey st) @ sharedBits)"
  using assms by (simp add: spake2Transcript_def Let_def u8_set_def newUint8Array_def liftRange_def add_ac)

definition sharedSecretOf :: "p256 \<Rightarrow> jsstring \<Rightarrow> bytes \<Rightarrow> bytes \<Rightarrow> bytes \<Rightarrow> bytes" where
  "sharedSecretOf g pw msgA msgB bits =
     hkdf g (msgA @ msgB @ bits) (sha256 g (textEncode pw)) (textEncode (js ''SPAKE2 shared secret'')) 32"

lemma spake2Finish_eq:
  assumes "ecdh_agreement g" and "uc (uc p) = uc p" and "uc (uc q) = uc q" and "uc p = uc q"
  shows "spake2Finish g uc (fst (spake2Init g uc a p party)) (snd (spake2Init g uc b q (\<not> party))) =
    Inr (if party then sharedSecretOf g (uc p) (snd (spake2Init g uc a p party)) (snd (spake2Init g uc b q (\<not> party))) (ecdh_bits g a (pk_of g b))
         else sharedSecretOf g (uc p) (snd (spake2Init g uc b q (\<not> party))) (snd (spake2Init g uc a p party)) (ecdh_bits g a (pk_of g b)))"
  using assms by (auto simp: spake2Finish_def spake2Init_def Let_def derivePasswordPoint_def importPublicKey_def
      ecdh_agreement_def spake2Transcript_eq sharedSecretOf_def)

lemma spake2_secret:
  assumes "ecdh_agreement g" and "hkdf_size g" and "uc (uc p) = uc p" and "uc (uc q) = uc q" and "uc p = uc q"
  shows "\<exists>secret. spake2Finish g uc (fst (spake2Init g uc a p True)) (snd (spake2InitB g uc b q)) = Inr secret \<and>
    spake2Finish g uc (fst (spake2InitB g uc b q)) (snd (spake2Init g uc a p True)) = Inr secret \<and> length secret = 32"
proof -
  have bits: "ecdh_bits g b (pk_of g a) = ecdh_bits g a (pk_of g b)" using assms(1) by (simp add: ecdh_agreement_def)
  show ?thesis
    using spake2Finish_eq [OF assms(1,3,4,5), of a True b] spake2Finish_eq [OF assms(1,4,3) assms(5) [symmetric], of b False a] assms(2,5)
    by (simp add: spake2InitB_eq bits sharedSecretOf_def hkdf_size_def)
qed

text \<open>Both sides of an enrollment derive the same secret. When machine A and machine B run the exchange with
  codes equal up to case, whatever keys they draw, each finishes on the other's message, and both get the
  same 32-byte secret.\<close>

theorem spake2_agreement:
  assumes "ecdh_agreement g" and "hkdf_size g" and "uc (uc p) = uc p" and "uc (uc q) = uc q" and "uc p = uc q"
  shows "\<exists>secret. spake2Finish g uc (fst (spake2Init g uc a p True)) (snd (spake2InitB g uc b q)) = Inr secret \<and>
    spake2Finish g uc (fst (spake2InitB g uc b q)) (snd (spake2Init g uc a p True)) = Inr secret \<and> length secret = 32"
  using assms by (rule spake2_secret)

text \<open>The message can be tested for a guessed code without taking part: unblinding with the right code gives a
  point that imports, so whoever records one message can discard the codes whose unblinding does not.\<close>

theorem spake2_message_is_a_code_test:
  assumes "ecdh_agreement g" and "uc guess = uc password"
  shows "valid_point g (xorArrays (snd (spake2Init g uc priv password party)) (derivePasswordPoint g uc guess (if party then 0 else 1)))"
  using assms by (simp add: spake2Init_def Let_def derivePasswordPoint_def ecdh_agreement_def)

subsection \<open>A concrete group\<close>

definition toy_p256 :: p256 where
  "toy_p256 = \<lparr>pk_of = (\<lambda>a. 4 # a), valid_point = (\<lambda>bs. take 1 bs = [4]), ecdh_bits = (\<lambda>a p. map (\<lambda>i. (if i < length a then a ! i else 0) XOR (if Suc i < length p then p ! Suc i else 0)) [0..<32]),
     sha256 = (\<lambda>bs. take 2 bs), hkdf = (\<lambda>ikm salt info n. map (\<lambda>i. if i < length ikm then ikm ! i else 0) [0..<n])\<rparr>"

lemma toy_p256_ok: "ecdh_agreement toy_p256" "hkdf_size toy_p256"
  by (simp_all add: toy_p256_def ecdh_agreement_def hkdf_size_def xor.commute)

theorem spake2_agreement_witness:
  "\<exists>secret. spake2Finish toy_p256 asciiUpper (fst (spake2Init toy_p256 asciiUpper [1, 2] (js ''ab12'') True)) (snd (spake2InitB toy_p256 asciiUpper [3] (js ''AB12''))) = Inr secret \<and> length secret = 32"
proof -
  have up: "asciiUpper (js ''ab12'') = js ''AB12''" "asciiUpper (js ''AB12'') = js ''AB12''"
    by (simp_all add: asciiUpper_def asciiUpperUnit_def js_def)
  show ?thesis using spake2_agreement [OF toy_p256_ok, of asciiUpper "js ''ab12''" "js ''AB12''" "[1, 2]" "[3]"] by (auto simp: up)
qed

end
