(* ===== verification/Enrollment.thy ===== *)
theory Enrollment
  imports Spake2 Api
begin

text \<open>
  Passkey enrollment: machine A, which can unlock the master key (\<open>web/src/pages/AddPasskeyPage.tsx\<close>), hands it to
  machine B, which registers a passkey (\<open>web/src/pages/RegisterPasskeyPage.tsx\<close>), over a socket that the server
  relays. Each page is a record of its state and refs; each socket handler is one function, with what it awaits
  from the server, the authenticator and the random generator as arguments. Messages are the values of
  \<open>enroll_msg\<close>; \<open>None\<close> stands for text that does not parse.
\<close>

datatype enroll_msg =
    MError "jsstring option"
  | MPeerConnected
  | MSpake2A jsstring
  | MSpake2B jsstring
  | MPayload jsstring jsstring
  | MOther

datatype enroll_error =
    InvalidCode | NoWebAuthn | NotLoggedIn | AuthFailed
  | PeerReported "jsstring option" | NoPrfKey | CannotUnlock | ConnectionError | ConnectionFailed | ClosedUnexpectedly
  | CryptoFailed crypto_error | SpakeFailed spake_error | ApiFailed api_error | StateLost | CodeExpired | Cancelled | NoPrfOutput
  | SessionKeyMissing | BadMessage

record enroll_env =
  en_crypto :: webcrypto
  en_group :: p256
  en_upper :: "jsstring \<Rightarrow> jsstring"
  en_text :: "enroll_error \<Rightarrow> jsstring"     \<comment> \<open>\<open>err.message\<close>\<close>

definition liftC :: "crypto_error + 'a \<Rightarrow> enroll_error + 'a" where
  "liftC r = (case r of Inl e \<Rightarrow> Inl (CryptoFailed e) | Inr x \<Rightarrow> Inr x)"

definition liftS :: "spake_error + 'a \<Rightarrow> enroll_error + 'a" where
  "liftS r = (case r of Inl e \<Rightarrow> Inl (SpakeFailed e) | Inr x \<Rightarrow> Inr x)"

definition liftB :: "base64_error + 'a \<Rightarrow> enroll_error + 'a" where
  "liftB r = liftC (liftBase64 r)"

definition liftA :: "api_error + 'a \<Rightarrow> enroll_error + 'a" where
  "liftA r = (case r of Inl e \<Rightarrow> Inl (ApiFailed e) | Inr x \<Rightarrow> Inr x)"

text \<open>\<open>deriveKey(sharedSecret, "encryption-key")\<close>.\<close>

definition sessionKeyFrom :: "enroll_env \<Rightarrow> bytes \<Rightarrow> bytes" where
  "sessionKeyFrom env secret = deriveKey (en_crypto env) secret (js ''encryption-key'') 32"

definition encryptedPayload :: "enroll_env \<Rightarrow> bytes \<Rightarrow> bytes \<Rightarrow> bytes \<Rightarrow> enroll_error + enroll_msg" where
  "encryptedPayload env rnd key plaintext =
     bindE (liftC (encrypt (en_crypto env) rnd key plaintext)) (\<lambda>e.
     bindE (liftB (encodeBase64 (er_nonce e))) (\<lambda>n.
     bindE (liftB (encodeBase64 (er_ciphertext e))) (\<lambda>c. Inr (MPayload n c))))"

definition decryptPayload :: "enroll_env \<Rightarrow> bytes option \<Rightarrow> jsstring \<Rightarrow> jsstring \<Rightarrow> enroll_error + bytes" where
  "decryptPayload env key n c =
     (case key of
        None \<Rightarrow> Inl SessionKeyMissing
      | Some k \<Rightarrow>
          bindE (liftB (decodeBase64 n)) (\<lambda>nonce.
          bindE (liftB (decodeBase64 c)) (\<lambda>ciphertext. liftC (decrypt (en_crypto env) k nonce ciphertext))))"

subsection \<open>Machine A\<close>

datatype a_status = AIdle | AAuthenticating | AConnecting | AHandshaking | ATransferring | ASuccess | AError

record machine_a =
  ma_code :: jsstring
  ma_cleanCode :: jsstring             \<comment> \<open>what the handlers of the last submit closed over\<close>
  ma_status :: a_status
  ma_error :: "enroll_error option"
  ma_open :: bool
  ma_sessionKey :: "bytes option"
  ma_completed :: bool
  ma_prfKey :: "bytes option"
  ma_sent :: "enroll_msg list"

definition cleanCode :: "jsstring \<Rightarrow> jsstring" where
  "cleanCode c = filter (\<lambda>u. u \<noteq> 45) c"

definition formatCode :: "(jsstring \<Rightarrow> jsstring) \<Rightarrow> jsstring \<Rightarrow> jsstring" where
  "formatCode uc input =
     (let cleaned = uc (cleanCode input)
      in if 4 < length cleaned then take 4 cleaned @ [45] @ drop 4 cleaned else cleaned)"

definition validCode :: "jsstring \<Rightarrow> bool" where
  "validCode c \<longleftrightarrow> length c = 8 \<and> list_all (\<lambda>u. (65 \<le> u \<and> u \<le> 90) \<or> (48 \<le> u \<and> u \<le> 57)) c"

definition failA :: "enroll_error \<Rightarrow> machine_a \<Rightarrow> machine_a" where
  "failA e a = a\<lparr>ma_error := Some e, ma_status := AError\<rparr>"

definition sendA :: "enroll_msg \<Rightarrow> machine_a \<Rightarrow> machine_a" where
  "sendA msg a = a\<lparr>ma_sent := ma_sent a @ [msg]\<rparr>"

definition submitA :: "bool \<Rightarrow> jsstring option \<Rightarrow> machine_a \<Rightarrow> machine_a" where
  "submitA supported token a0 =
     (let a = a0\<lparr>ma_error := None, ma_completed := False\<rparr>
      in if \<not> validCode (cleanCode (ma_code a)) then a\<lparr>ma_error := Some InvalidCode\<rparr>
         else if \<not> supported then a\<lparr>ma_error := Some NoWebAuthn\<rparr>
         else if token = None \<or> token = Some [] then failA NotLoggedIn a
         else a\<lparr>ma_cleanCode := cleanCode (ma_code a), ma_status := AAuthenticating\<rparr>)"

text \<open>The WebAuthn ceremony and its verification returned: the PRF output, if the authenticator gave one.\<close>

definition authDoneA :: "enroll_env \<Rightarrow> enroll_error + bytes option \<Rightarrow> machine_a \<Rightarrow> machine_a" where
  "authDoneA env r a =
     (case r of
        Inl e \<Rightarrow> failA e a
      | Inr prf \<Rightarrow> a\<lparr>ma_prfKey := (case prf of Some p \<Rightarrow> if p = [] then None else Some (deriveMasterKeyFromPrf (en_crypto env) p) | None \<Rightarrow> None),
                     ma_status := AConnecting\<rparr>)"

definition openA :: "machine_a \<Rightarrow> machine_a" where
  "openA a = a\<lparr>ma_open := True, ma_status := AHandshaking\<rparr>"

definition closeA :: "machine_a \<Rightarrow> machine_a" where
  "closeA a = a\<lparr>ma_open := False\<rparr>"

definition sendPeerErrorA :: "jsstring option \<Rightarrow> machine_a \<Rightarrow> machine_a" where
  "sendPeerErrorA message a = (if ma_open a then sendA (MError message) a else a)"

text \<open>The exchange: session key and answer, or an exception.\<close>

definition exchangeA :: "enroll_env \<Rightarrow> bytes \<Rightarrow> jsstring \<Rightarrow> jsstring \<Rightarrow> enroll_error + (bytes \<times> enroll_msg)" where
  "exchangeA env priv code message =
     bindE (liftB (decodeMessage message)) (\<lambda>otherMsg.
       let (st, spake2Msg) = spake2Init (en_group env) (en_upper env) priv code True
       in bindE (liftS (spake2Finish (en_group env) (en_upper env) st otherMsg)) (\<lambda>secret.
          bindE (liftB (encodeMessage spake2Msg)) (\<lambda>txt. Inr (sessionKeyFrom env secret, MSpake2A txt))))"

text \<open>The transfer: the inner \<open>try\<close>.\<close>

definition transferA :: "enroll_env \<Rightarrow> bytes \<Rightarrow> api_error + jsstring list \<Rightarrow> bytes option \<Rightarrow> bytes \<Rightarrow> enroll_error + enroll_msg" where
  "transferA env rnd blobs prfKey key =
     (case prfKey of
        None \<Rightarrow> Inl NoPrfKey
      | Some k \<Rightarrow>
          bindE (liftA blobs) (\<lambda>bs.
            case unlockMasterKey (en_crypto env) k bs of
              None \<Rightarrow> Inl CannotUnlock
            | Some masterKey \<Rightarrow> encryptedPayload env rnd key masterKey))"

text \<open>\<open>TextDecoder\<close> drops a leading byte order mark.\<close>

definition isReceived :: "bytes \<Rightarrow> bool" where
  "isReceived bs \<longleftrightarrow> bs = textEncode (js ''received'') \<or> bs = [0xEF, 0xBB, 0xBF] @ textEncode (js ''received'')"

definition messageA ::
  "enroll_env \<Rightarrow> bytes \<Rightarrow> bytes \<Rightarrow> api_error + jsstring list \<Rightarrow> enroll_msg option \<Rightarrow> machine_a \<Rightarrow> machine_a" where
  "messageA env priv rnd blobs msg a =
     (case msg of
        None \<Rightarrow> failA ConnectionError a
      | Some (MError m) \<Rightarrow> closeA (failA (PeerReported m) a)
      | Some (MSpake2B txt) \<Rightarrow>
          (case exchangeA env priv (ma_cleanCode a) txt of
             Inl e \<Rightarrow> failA ConnectionError a
           | Inr (key, answer) \<Rightarrow>
               let a1 = (sendA answer (a\<lparr>ma_sessionKey := Some key\<rparr>))\<lparr>ma_status := ATransferring\<rparr>
               in case transferA env rnd blobs (ma_prfKey a1) key of
                    Inr payload \<Rightarrow> sendA payload a1
                  | Inl e \<Rightarrow> closeA (sendPeerErrorA (Some (en_text env e)) (failA e a1)))
      | Some (MPayload n c) \<Rightarrow>
          (case decryptPayload env (ma_sessionKey a) n c of
             Inl e \<Rightarrow> failA ConnectionError a
           | Inr decrypted \<Rightarrow> if isReceived decrypted then closeA (a\<lparr>ma_completed := True, ma_status := ASuccess\<rparr>) else a)
      | Some _ \<Rightarrow> a)"

definition onerrorA :: "machine_a \<Rightarrow> machine_a" where
  "onerrorA a = failA ConnectionFailed a"

definition oncloseA :: "machine_a \<Rightarrow> machine_a" where
  "oncloseA a = (if \<not> ma_completed a \<and> ma_status a \<noteq> AError then failA ClosedUnexpectedly a else a)"

definition cancelA :: "machine_a \<Rightarrow> machine_a" where
  "cancelA a = a\<lparr>ma_open := False, ma_status := AIdle, ma_sessionKey := None, ma_completed := False\<rparr>"

subsection \<open>Machine B\<close>

datatype b_status = BIdle | BWaiting | BHandshaking | BReady | BRegistering | BSuccess | BError

record machine_b =
  mb_code :: jsstring
  mb_status :: b_status
  mb_error :: "enroll_error option"
  mb_expiresAt :: "int option"
  mb_timeLeft :: int
  mb_open :: bool
  mb_spake :: "spake2_state option"
  mb_message :: bytes
  mb_second :: bool                    \<comment> \<open>the handler installed after the exchange\<close>
  mb_sessionKey :: "bytes option"
  mb_masterKey :: "bytes option"
  mb_options :: bool
  mb_cancelling :: bool
  mb_sent :: "enroll_msg list"
  mb_navigate :: "jsstring option"

definition failB :: "enroll_error \<Rightarrow> machine_b \<Rightarrow> machine_b" where
  "failB e b = b\<lparr>mb_error := Some e, mb_status := BError\<rparr>"

definition sendB :: "enroll_msg \<Rightarrow> machine_b \<Rightarrow> machine_b" where
  "sendB msg b = b\<lparr>mb_sent := mb_sent b @ [msg]\<rparr>"

definition sendPeerErrorB :: "jsstring option \<Rightarrow> machine_b \<Rightarrow> machine_b" where
  "sendPeerErrorB message b = (if mb_open b then sendB (MError message) b else b)"

definition startB :: "enroll_env \<Rightarrow> bytes \<Rightarrow> bool \<Rightarrow> api_error + jsstring \<Rightarrow> int \<Rightarrow> machine_b \<Rightarrow> machine_b" where
  "startB env priv supported r now b0 =
     (if \<not> supported then b0\<lparr>mb_error := Some NoWebAuthn\<rparr>
      else let b = b0\<lparr>mb_cancelling := False\<rparr>
           in case r of
                Inl e \<Rightarrow> failB (ApiFailed e) b
              | Inr code \<Rightarrow>
                  let (st, spake2Msg) = spake2InitB (en_group env) (en_upper env) priv code
                  in b\<lparr>mb_code := code, mb_expiresAt := Some (now + 300000), mb_status := BWaiting, mb_spake := Some st,
                       mb_message := spake2Msg, mb_second := False\<rparr>)"

definition openB :: "machine_b \<Rightarrow> machine_b" where
  "openB b = b\<lparr>mb_open := True, mb_status := BWaiting\<rparr>"

definition exchangeB :: "enroll_env \<Rightarrow> spake2_state \<Rightarrow> jsstring \<Rightarrow> enroll_error + bytes" where
  "exchangeB env st message =
     bindE (liftB (decodeMessage message)) (\<lambda>otherMsg.
     bindE (liftS (spake2Finish (en_group env) (en_upper env) st otherMsg)) (\<lambda>secret. Inr (sessionKeyFrom env secret)))"

definition relayFailB :: "enroll_env \<Rightarrow> enroll_error \<Rightarrow> machine_b \<Rightarrow> machine_b" where
  "relayFailB env e b = sendPeerErrorB (Some (en_text env e)) (failB e b)"

definition messageB1 :: "enroll_env \<Rightarrow> enroll_msg option \<Rightarrow> machine_b \<Rightarrow> machine_b" where
  "messageB1 env msg b =
     (case msg of
        None \<Rightarrow> relayFailB env BadMessage b
      | Some (MError m) \<Rightarrow> failB (PeerReported m) b
      | Some MPeerConnected \<Rightarrow>
          (case encodeMessage (mb_message b) of
             Inr txt \<Rightarrow> sendB (MSpake2B txt) (b\<lparr>mb_status := BHandshaking\<rparr>)
           | Inl e \<Rightarrow> relayFailB env (CryptoFailed (Base64Error e)) (b\<lparr>mb_status := BHandshaking\<rparr>))
      | Some (MSpake2A txt) \<Rightarrow>
          (case mb_spake b of
             None \<Rightarrow> b
           | Some st \<Rightarrow>
               (case exchangeB env st txt of
                  Inl e \<Rightarrow> relayFailB env e b
                | Inr key \<Rightarrow> b\<lparr>mb_sessionKey := Some key, mb_status := BWaiting, mb_second := True\<rparr>))
      | Some _ \<Rightarrow> b)"

text \<open>\<open>begun\<close> is the answer of \<open>enrollmentBegin\<close>.\<close>

definition messageB2 :: "enroll_env \<Rightarrow> api_error + unit \<Rightarrow> enroll_msg option \<Rightarrow> machine_b \<Rightarrow> machine_b" where
  "messageB2 env begun msg b =
     (case msg of
        None \<Rightarrow> relayFailB env BadMessage b
      | Some (MError m) \<Rightarrow> failB (PeerReported m) b
      | Some (MPayload n c) \<Rightarrow>
          (case decryptPayload env (mb_sessionKey b) n c of
             Inl e \<Rightarrow> relayFailB env e b
           | Inr decrypted \<Rightarrow>
               let b1 = b\<lparr>mb_masterKey := Some decrypted\<rparr>
               in case begun of
                    Inl e \<Rightarrow> relayFailB env (ApiFailed e) b1
                  | Inr _ \<Rightarrow> b1\<lparr>mb_options := True, mb_status := BReady\<rparr>)
      | Some _ \<Rightarrow> b)"

definition messageB :: "enroll_env \<Rightarrow> api_error + unit \<Rightarrow> enroll_msg option \<Rightarrow> machine_b \<Rightarrow> machine_b" where
  "messageB env begun msg b = (if mb_second b then messageB2 env begun msg b else messageB1 env msg b)"

text \<open>\<open>completeRegistration\<close>. \<open>existing\<close> is the PRF output of a passkey the device already has, with the outcome of
  uploading its blob; \<open>created\<close> the PRF output of the new passkey (\<open>None\<close>: no PRF) and the outcome of
  \<open>enrollmentComplete\<close>. The second component of the result is the blob that was uploaded.\<close>

definition confirmB :: "enroll_env \<Rightarrow> bytes \<Rightarrow> bytes \<Rightarrow> enroll_error + enroll_msg" where
  "confirmB env rnd sessionKey = encryptedPayload env rnd sessionKey (textEncode (js ''received''))"

definition finishB :: "jsstring \<Rightarrow> enroll_msg \<Rightarrow> machine_b \<Rightarrow> machine_b" where
  "finishB target conf b =
     (let b1 = (if mb_open b then sendB conf b else b) in b1\<lparr>mb_status := BSuccess, mb_navigate := Some target\<rparr>)"

definition tryExistingB ::
  "enroll_env \<Rightarrow> bytes \<Rightarrow> bytes \<Rightarrow> (bytes \<times> (api_error + unit)) option \<Rightarrow> bytes \<Rightarrow> bytes \<Rightarrow> enroll_error + (jsstring \<times> enroll_msg) option" where
  "tryExistingB env rnd1 rnd2 existing masterKey sessionKey =
     (case existing of
        None \<Rightarrow> Inr None
      | Some (prfOut, uploaded) \<Rightarrow>
          bindE (liftC (wrapMasterKey (en_crypto env) rnd1 (deriveMasterKeyFromPrf (en_crypto env) prfOut) masterKey)) (\<lambda>blob.
          bindE (liftA uploaded) (\<lambda>_.
          bindE (confirmB env rnd2 sessionKey) (\<lambda>conf. Inr (Some (blob, conf))))))"

definition createB ::
  "enroll_env \<Rightarrow> bytes \<Rightarrow> bytes \<Rightarrow> (bytes option \<times> (api_error + unit)) option \<Rightarrow> bytes \<Rightarrow> bytes \<Rightarrow> enroll_error + (jsstring \<times> enroll_msg)" where
  "createB env rnd1 rnd2 created masterKey sessionKey =
     (case created of
        None \<Rightarrow> Inl Cancelled
      | Some (None, completed) \<Rightarrow> Inl NoPrfOutput
      | Some (Some prfOutput, completed) \<Rightarrow>
          bindE (liftC (wrapMasterKey (en_crypto env) rnd1 (deriveMasterKeyFromPrf (en_crypto env) prfOutput) masterKey)) (\<lambda>blob.
          bindE (liftA completed) (\<lambda>_.
          bindE (confirmB env rnd2 sessionKey) (\<lambda>conf. Inr (blob, conf)))))"

definition completeRegistration ::
  "enroll_env \<Rightarrow> bytes \<Rightarrow> bytes \<Rightarrow> (bytes \<times> (api_error + unit)) option \<Rightarrow> (bytes option \<times> (api_error + unit)) option \<Rightarrow>
   machine_b \<Rightarrow> machine_b \<times> jsstring option" where
  "completeRegistration env rnd1 rnd2 existing created b =
     (case (mb_masterKey b, mb_sessionKey b, mb_options b) of
        (Some masterKey, Some sessionKey, True) \<Rightarrow>
          let b1 = b\<lparr>mb_status := BRegistering\<rparr>
          in (case tryExistingB env rnd1 rnd2 existing masterKey sessionKey of
                Inr (Some (blob, conf)) \<Rightarrow> (finishB (js ''/'') conf b1, Some blob)
              | _ \<Rightarrow>
                  (case createB env rnd1 rnd2 created masterKey sessionKey of
                     Inr (blob, conf) \<Rightarrow> (finishB (js ''/login'') conf b1, Some blob)
                   | Inl e \<Rightarrow> (relayFailB env e b1, None)))
      | _ \<Rightarrow> (failB StateLost b, None))"

definition oncloseB :: "machine_b \<Rightarrow> machine_b" where
  "oncloseB b = (if \<not> mb_cancelling b \<and> mb_status b \<noteq> BSuccess \<and> mb_status b \<noteq> BError then b\<lparr>mb_status := BError, mb_open := False\<rparr>
     else b\<lparr>mb_open := False\<rparr>)"

definition onerrorB :: "machine_b \<Rightarrow> machine_b" where
  "onerrorB b = failB ConnectionError b"

text \<open>The countdown, every second while \<open>expiresAt\<close> is set.\<close>

definition tickB :: "int \<Rightarrow> machine_b \<Rightarrow> machine_b" where
  "tickB now b =
     (case mb_expiresAt b of
        None \<Rightarrow> b
      | Some e \<Rightarrow>
          let remaining = max 0 ((e - now) div 1000); b1 = b\<lparr>mb_timeLeft := remaining\<rparr>
          in if remaining = 0 then (failB CodeExpired b1)\<lparr>mb_open := False\<rparr> else b1)"

definition cancelB :: "machine_b \<Rightarrow> machine_b" where
  "cancelB b = b\<lparr>mb_cancelling := True, mb_status := BIdle, mb_code := [], mb_expiresAt := None, mb_timeLeft := 300, mb_error := None,
     mb_sessionKey := None, mb_masterKey := None, mb_options := False, mb_open := False\<rparr>"

definition formatTime :: "nat \<Rightarrow> jsstring" where
  "formatTime s = showNat (s div 60) @ js '':'' @ (let secs = showNat (s mod 60) in (if length secs < 2 then js ''0'' else []) @ secs)"

subsection \<open>Laws\<close>

lemma lift_simps [simp]: "liftC (Inr x) = Inr x" "liftS (Inr x) = Inr x" "liftA (Inr x) = Inr x" "liftB (Inr x) = Inr x"
  "liftC (Inl e) = Inl (CryptoFailed e)"
  by (simp_all add: liftC_def liftS_def liftA_def liftB_def)

lemma sessionKey_length: "hkdf_length (en_crypto env) \<Longrightarrow> length (sessionKeyFrom env s) = 32"
  by (simp add: sessionKeyFrom_def deriveKey_def hkdf_length_def)

lemma payload_roundtrip:
  assumes "aesgcm_correct (en_crypto env)" and "length key = 32"
  shows "\<exists>n c. encryptedPayload env rnd key plaintext = Inr (MPayload n c) \<and> decryptPayload env (Some key) n c = Inr plaintext"
  using assms by (simp add: encryptedPayload_def decryptPayload_def encrypt_def decrypt_def encodeBase64_eq aesgcm_correct_def)

lemma exchange_agrees:
  assumes "ecdh_agreement (en_group env)" and "hkdf_size (en_group env)" and "en_upper env (en_upper env code) = en_upper env code"
  shows "\<exists>txtB txtA key secret. encodeMessage (snd (spake2InitB (en_group env) (en_upper env) privB code)) = Inr txtB \<and>
    exchangeA env privA code txtB = Inr (key, MSpake2A txtA) \<and> key = sessionKeyFrom env secret \<and>
    exchangeB env (fst (spake2InitB (en_group env) (en_upper env) privB code)) txtA = Inr key"
proof -
  let ?a = "spake2Init (en_group env) (en_upper env) privA code True"
  let ?b = "spake2InitB (en_group env) (en_upper env) privB code"
  obtain secret where s: "spake2Finish (en_group env) (en_upper env) (fst ?a) (snd ?b) = Inr secret"
    "spake2Finish (en_group env) (en_upper env) (fst ?b) (snd ?a) = Inr secret"
    using spake2_secret [OF assms(1,2,3,3) refl, of privA privB] by blast
  obtain sa ma where a: "?a = (sa, ma)" by (cases ?a)
  show ?thesis using s
    by (auto simp: exchangeA_def exchangeB_def encodeMessage_def decodeMessage_def encodeBase64_eq a Let_def)
qed

subsection \<open>A whole enrollment\<close>

definition initA :: "jsstring \<Rightarrow> machine_a" where
  "initA code = \<lparr>ma_code = code, ma_cleanCode = [], ma_status = AIdle, ma_error = None, ma_open = False, ma_sessionKey = None,
     ma_completed = False, ma_prfKey = None, ma_sent = []\<rparr>"

definition initB :: machine_b where
  "initB = \<lparr>mb_code = [], mb_status = BIdle, mb_error = None, mb_expiresAt = None, mb_timeLeft = 300, mb_open = False, mb_spake = None,
     mb_message = [], mb_second = False, mb_sessionKey = None, mb_masterKey = None, mb_options = False, mb_cancelling = False,
     mb_sent = [], mb_navigate = None\<rparr>"

text \<open>Machine B shows the code, the user types it on machine A, and the server relays what each sends, in order.\<close>

definition beginB :: "enroll_env \<Rightarrow> bytes \<Rightarrow> jsstring \<Rightarrow> int \<Rightarrow> machine_b" where
  "beginB env privB code now = messageB env (Inr ()) (Some MPeerConnected) (openB (startB env privB True (Inr code) now initB))"

definition beginA :: "enroll_env \<Rightarrow> bytes \<Rightarrow> jsstring \<Rightarrow> jsstring \<Rightarrow> machine_a" where
  "beginA env prfA token shown =
     openA (authDoneA env (Inr (Some prfA)) (submitA True (Some token) (initA (formatCode (en_upper env) shown))))"

definition relayA :: "enroll_env \<Rightarrow> bytes \<Rightarrow> bytes \<Rightarrow> api_error + jsstring list \<Rightarrow> machine_b \<Rightarrow> machine_a \<Rightarrow> machine_a" where
  "relayA env privA rnd blobs b a = messageA env privA rnd blobs (Some (last (mb_sent b))) a"

definition relayB :: "enroll_env \<Rightarrow> machine_a \<Rightarrow> machine_b \<Rightarrow> machine_b" where
  "relayB env a b = fold (\<lambda>msg. messageB env (Inr ()) (Some msg)) (ma_sent a) b"

text \<open>The code as machine B shows it, with a dash in the middle.\<close>

definition shownCode :: "jsstring \<Rightarrow> jsstring" where
  "shownCode code = take 4 code @ [45] @ drop 4 code"

lemma validCode_clean: "validCode code \<Longrightarrow> cleanCode code = code"
proof -
  have "\<not> ((65 :: code_unit) \<le> 45 \<or> (48 :: code_unit) \<le> 45)" by simp
  then show "validCode code \<Longrightarrow> ?thesis" by (auto simp: validCode_def cleanCode_def filter_id_conv list_all_iff)
qed

lemma cleanCode_shown: "validCode code \<Longrightarrow> cleanCode (shownCode code) = code"
proof -
  assume "validCode code"
  have "cleanCode (shownCode code) = cleanCode (take 4 code) @ cleanCode (drop 4 code)" by (simp add: shownCode_def cleanCode_def)
  also have "\<dots> = cleanCode code" by (simp add: cleanCode_def flip: filter_append)
  finally show ?thesis using validCode_clean [OF \<open>validCode code\<close>] by simp
qed

lemma typed_code:
  assumes "validCode code" and "en_upper env code = code"
  shows "cleanCode (formatCode (en_upper env) (shownCode code)) = code"
proof -
  have "formatCode (en_upper env) (shownCode code) = shownCode code"
    using assms by (simp add: formatCode_def Let_def cleanCode_shown) (simp add: shownCode_def validCode_def)
  then show ?thesis using cleanCode_shown assms(1) by simp
qed

lemma beginA_eq:
  assumes "validCode code" and "en_upper env code = code" and "prfA \<noteq> []" and "token \<noteq> []"
  shows "ma_cleanCode (beginA env prfA token (shownCode code)) = code \<and>
    ma_prfKey (beginA env prfA token (shownCode code)) = Some (deriveMasterKeyFromPrf (en_crypto env) prfA) \<and>
    ma_open (beginA env prfA token (shownCode code)) \<and> ma_sent (beginA env prfA token (shownCode code)) = []"
  using assms typed_code [OF assms(1,2)]
  by (simp add: beginA_def openA_def authDoneA_def submitA_def initA_def Let_def)

lemma beginB_eq:
  assumes "encodeMessage (snd (spake2InitB (en_group env) (en_upper env) privB code)) = Inr txtB"
  shows "mb_sent (beginB env privB code now) = [MSpake2B txtB] \<and> \<not> mb_second (beginB env privB code now) \<and>
    mb_spake (beginB env privB code now) = Some (fst (spake2InitB (en_group env) (en_upper env) privB code)) \<and>
    mb_open (beginB env privB code now)"
  using assms by (simp add: beginB_def messageB_def messageB1_def openB_def startB_def initB_def sendB_def case_prod_unfold Let_def)

lemma deriveMasterKey_length: "hkdf_length w \<Longrightarrow> length (deriveMasterKeyFromPrf w prf) = 32"
  by (simp add: deriveMasterKeyFromPrf_def hkdf_length_def)

lemma wrapped_unlocks:
  assumes "aesgcm_correct w" and "length rnd = 12" and "length k = 32"
  shows "\<exists>blob. wrapMasterKey w rnd k mk = Inr blob \<and> unlockBlob w k blob = Inr mk"
  using unlockBlob_wrapped [OF assms(2,3,3)] wrapMasterKey_eq [OF assms(2,3), of w mk] assms(1)
  by (simp add: aesgcm_correct_def)

lemma received_received: "isReceived (textEncode (js ''received''))"
  by (simp add: isReceived_def)

text \<open>The assumptions on the cryptography, and a code as the server issues it.\<close>

definition enrollmentOk :: "enroll_env \<Rightarrow> jsstring \<Rightarrow> bool" where
  "enrollmentOk env code \<longleftrightarrow> ecdh_agreement (en_group env) \<and> hkdf_size (en_group env) \<and> aesgcm_correct (en_crypto env) \<and>
     hkdf_length (en_crypto env) \<and> validCode code \<and> en_upper env code = code"

text \<open>After A's answers, machine B holds the master key that A unlocked and is ready to register.\<close>

lemma transfer_done:
  fixes privA privB rnd now
  assumes ok: "enrollmentOk env code" and given: "prfA \<noteq> []" "token \<noteq> []"
    and unlock: "unlockMasterKey (en_crypto env) (deriveMasterKeyFromPrf (en_crypto env) prfA) blobs = Some mk"
  defines "b0 \<equiv> beginB env privB code now"
  defines "a1 \<equiv> relayA env privA rnd (Inr blobs) b0 (beginA env prfA token (shownCode code))"
  shows "\<exists>key. length key = 32 \<and> ma_sessionKey a1 = Some key \<and> mb_sessionKey (relayB env a1 b0) = Some key \<and>
    mb_masterKey (relayB env a1 b0) = Some mk \<and> mb_options (relayB env a1 b0) \<and> mb_open (relayB env a1 b0) \<and>
    mb_status (relayB env a1 b0) = BReady"
proof -
  let ?a0 = "beginA env prfA token (shownCode code)"
  from ok have ok': "ecdh_agreement (en_group env)" "hkdf_size (en_group env)" "aesgcm_correct (en_crypto env)"
    "hkdf_length (en_crypto env)" "validCode code" "en_upper env code = code" by (simp_all add: enrollmentOk_def)
  then obtain txtB txtA key secret where x: "encodeMessage (snd (spake2InitB (en_group env) (en_upper env) privB code)) = Inr txtB"
    "exchangeA env privA code txtB = Inr (key, MSpake2A txtA)" "key = sessionKeyFrom env secret"
    "exchangeB env (fst (spake2InitB (en_group env) (en_upper env) privB code)) txtA = Inr key"
    using exchange_agrees [of env code privB privA] by auto
  have len: "length key = 32" using x(3) sessionKey_length ok'(4) by simp
  obtain n c where p: "encryptedPayload env rnd key mk = Inr (MPayload n c)" "decryptPayload env (Some key) n c = Inr mk"
    using payload_roundtrip [OF ok'(3) len] by blast
  have a0: "ma_cleanCode ?a0 = code" "ma_prfKey ?a0 = Some (deriveMasterKeyFromPrf (en_crypto env) prfA)" "ma_sent ?a0 = []"
    using beginA_eq [OF ok'(5,6) given] by simp_all
  have b0: "mb_sent b0 = [MSpake2B txtB]" "\<not> mb_second b0" "mb_open b0"
    "mb_spake b0 = Some (fst (spake2InitB (en_group env) (en_upper env) privB code))"
    using beginB_eq [OF x(1)] by (simp_all add: b0_def)
  have a1: "ma_sessionKey a1 = Some key" "ma_sent a1 = [MSpake2A txtA, MPayload n c]"
    using a0 x(2) p(1) unlock by (simp_all add: a1_def relayA_def b0 messageA_def transferA_def sendA_def Let_def)
  show ?thesis
    using len a1(1) b0 x(4) p(2) by (simp add: relayB_def a1(2) messageB_def messageB1_def messageB2_def Let_def)
qed



text \<open>A failure of the exchange itself on machine A is not relayed: nothing is sent, the socket stays open, and
  machine B waits until the code expires.\<close>

theorem exchange_failure_not_relayed:
  assumes "exchangeA env priv (ma_cleanCode a) txt = Inl e"
  shows "let a' = messageA env priv rnd blobs (Some (MSpake2B txt)) a
    in ma_status a' = AError \<and> ma_sent a' = ma_sent a \<and> ma_open a' = ma_open a"
  using assms by (simp add: Let_def messageA_def failA_def)

text \<open>When the upload of the blob for an existing passkey fails, the registration goes on to create a new one.\<close>

theorem failed_upload_creates_passkey:
  assumes "mb_masterKey b = Some mk" and "mb_sessionKey b = Some key" and "mb_options b"
    and "createB env rnd1 rnd2 created mk key = Inr (blob, conf)"
  shows "snd (completeRegistration env rnd1 rnd2 (Some (prf, Inl e)) created b) = Some blob"
proof -
  have "\<exists>e'. tryExistingB env rnd1 rnd2 (Some (prf, Inl e)) mk key = Inl e'"
    by (cases "wrapMasterKey (en_crypto env) rnd1 (deriveMasterKeyFromPrf (en_crypto env) prf) mk")
      (simp_all add: tryExistingB_def liftA_def)
  then show ?thesis using assms by (auto simp: completeRegistration_def Let_def)
qed

subsection \<open>Concrete enrollments\<close>

definition toy_env :: enroll_env where
  "toy_env = \<lparr>en_crypto = toy_webcrypto, en_group = toy_p256, en_upper = asciiUpper, en_text = (\<lambda>e. js ''failed'')\<rparr>"

definition toy_code :: jsstring where "toy_code = js ''AB12CD34''"

lemma toy_enrollment_ok: "enrollmentOk toy_env toy_code"
  using toy_webcrypto_ok toy_p256_ok
  by (simp add: enrollmentOk_def toy_env_def toy_code_def validCode_def js_def asciiUpper_def asciiUpperUnit_def)

definition toy_blob :: jsstring where
  "toy_blob = b64enc (map unat (0x01 # replicate 12 0 @ replicate 32 5 @ replicate 12 0 @ [7 :: byte]))"

lemma toy_unlock: "unlockMasterKey (en_crypto toy_env) (deriveMasterKeyFromPrf (en_crypto toy_env) [5]) [toy_blob] = Some [7]"
proof -
  have k: "deriveMasterKeyFromPrf (en_crypto toy_env) [5] = replicate 32 5"
    by (simp add: toy_env_def toy_webcrypto_def deriveMasterKeyFromPrf_def)
  have "wrapMasterKey toy_webcrypto (replicate 12 0) (replicate 32 5) [7] = Inr toy_blob"
    by (simp add: wrapMasterKey_eq toy_blob_def toy_webcrypto_def)
  from unlockBlob_wrapped [OF _ _ _ this] toy_webcrypto_ok(1) show ?thesis
    unfolding k by (simp add: toy_env_def aesgcm_correct_def)
qed



end
