(* ===== verification/WebAuthn.thy ===== *)
theory WebAuthn
  imports MasterKey Api Sessions
begin

text \<open>
  The WebAuthn ceremonies of the pages: how the options the server sends as JSON become the options of
  \<open>navigator.credentials\<close> (\<open>RegisterPage.tsx\<close>, \<open>SSHTerminal.tsx\<close>, \<open>AddPasskeyPage.tsx\<close>), how the PRF output is obtained, and
  what is sent back. The authenticator is the parameter \<open>authenticator\<close>; a ceremony may fail, or return nothing.
  \<open>prf_consistent\<close> states what the PRF extension promises of it. \<open>bufferToBase64URLString\<close> of the WebAuthn
  library is the parameter \<open>b64u\<close>.
\<close>

subsection \<open>Errors and JSON access\<close>

datatype wa_error =
    WaTypeError | WaDecode base64_error | WaCeremony | WaCancelled | WaPrfGetFailed | WaPrfRequired
  | WaOptionsFailed | WaVerifyFailed | WaNetwork | WaSyntax

text \<open>\<open>v.k\<close>; a \<open>TypeError\<close> on \<open>undefined\<close> and \<open>null\<close>.\<close>

definition memberE :: "string \<Rightarrow> json option \<Rightarrow> wa_error + json option" where
  "memberE k v = (case v of None \<Rightarrow> Inl WaTypeError | Some JNull \<Rightarrow> Inl WaTypeError | Some x \<Rightarrow> Inr (jfield (js k) x))"

definition base64urlToBuffer :: "json option \<Rightarrow> wa_error + bytes" where
  "base64urlToBuffer v =
     (case v of
        Some (JStr s) \<Rightarrow> (case decodeBase64URL s of Inl e \<Rightarrow> Inl (WaDecode e) | Inr d \<Rightarrow> Inr d)
      | _ \<Rightarrow> Inl WaTypeError)"

fun mapE :: "('a \<Rightarrow> 'e + 'b) \<Rightarrow> 'a list \<Rightarrow> 'e + 'b list" where
  "mapE f [] = Inr []"
| "mapE f (x # xs) = bindE (f x) (\<lambda>y. bindE (mapE f xs) (\<lambda>ys. Inr (y # ys)))"

text \<open>\<open>v.map(f)\<close> and \<open>v?.map(f)\<close>.\<close>

definition mapArray :: "(json \<Rightarrow> wa_error + 'b) \<Rightarrow> json option \<Rightarrow> wa_error + 'b list" where
  "mapArray f v = (case v of Some (JArr xs) \<Rightarrow> mapE f xs | _ \<Rightarrow> Inl WaTypeError)"

definition mapArrayOpt :: "(json \<Rightarrow> wa_error + 'b) \<Rightarrow> json option \<Rightarrow> wa_error + 'b list option" where
  "mapArrayOpt f v =
     (if v = None \<or> v = Some JNull then Inr None else bindE (mapArray f v) (\<lambda>ys. Inr (Some ys)))"

subsection \<open>Options\<close>

record descriptor =
  cd_id :: bytes
  cd_type :: "json option"
  cd_transports :: "json option"

definition descriptorOf :: "json \<Rightarrow> wa_error + descriptor" where
  "descriptorOf c =
     bindE (memberE ''id'' (Some c)) (\<lambda>i.
     bindE (base64urlToBuffer i) (\<lambda>raw.
     bindE (memberE ''type'' (Some c)) (\<lambda>ty.
     bindE (memberE ''transports'' (Some c)) (\<lambda>tr.
       Inr \<lparr>cd_id = raw, cd_type = ty, cd_transports = tr\<rparr>))))"

record creation_options =
  co_challenge :: bytes
  co_rp :: "json option"
  co_userId :: bytes
  co_userName :: "json option"
  co_displayName :: "json option"
  co_params :: "(json option \<times> json option) list"
  co_timeout :: "json option"
  co_exclude :: "descriptor list option"
  co_selection :: "json option"
  co_attestation :: "json option"
  co_prf :: prf_extension

definition creationOptions :: "json option \<Rightarrow> wa_error + creation_options" where
  "creationOptions pubKey =
     bindE (memberE ''challenge'' pubKey) (\<lambda>ch.
     bindE (base64urlToBuffer ch) (\<lambda>challenge.
     bindE (memberE ''rp'' pubKey) (\<lambda>rp.
     bindE (memberE ''user'' pubKey) (\<lambda>user.
     bindE (memberE ''id'' user) (\<lambda>ui.
     bindE (base64urlToBuffer ui) (\<lambda>userId.
     bindE (memberE ''name'' user) (\<lambda>nm.
     bindE (memberE ''displayName'' user) (\<lambda>dn.
     bindE (memberE ''pubKeyCredParams'' pubKey) (\<lambda>ps.
     bindE (mapArray (\<lambda>p. bindE (memberE ''type'' (Some p)) (\<lambda>t. bindE (memberE ''alg'' (Some p)) (\<lambda>a. Inr (t, a)))) ps) (\<lambda>params.
     bindE (memberE ''excludeCredentials'' pubKey) (\<lambda>ex.
     bindE (mapArrayOpt descriptorOf ex) (\<lambda>exclude.
       Inr \<lparr>co_challenge = challenge, co_rp = rp, co_userId = userId, co_userName = nm, co_displayName = dn, co_params = params,
            co_timeout = jfield (js ''timeout'') (the pubKey), co_exclude = exclude,
            co_selection = jfield (js ''authenticatorSelection'') (the pubKey), co_attestation = jfield (js ''attestation'') (the pubKey),
            co_prf = \<lparr>prf_eval = Some getPrfSalt, prf_evalByCredential = None\<rparr>\<rparr>))))))))))))"

record request_options =
  ro_challenge :: bytes
  ro_timeout :: "json option"
  ro_rpId :: "json option"
  ro_userVerification :: "json option"
  ro_allow :: "descriptor list option"
  ro_prf :: prf_extension

definition prfE :: "base64_error + prf_extension \<Rightarrow> wa_error + prf_extension" where
  "prfE r = (case r of Inl e \<Rightarrow> Inl (WaDecode e) | Inr x \<Rightarrow> Inr x)"

text \<open>The options of the SSH unlock.\<close>

definition unlockOptions :: "json \<Rightarrow> wa_error + request_options" where
  "unlockOptions options =
     bindE (memberE ''publicKey'' (Some options)) (\<lambda>pk.
     bindE (memberE ''challenge'' pk) (\<lambda>ch.
     bindE (base64urlToBuffer ch) (\<lambda>challenge.
     bindE (memberE ''allowCredentials'' pk) (\<lambda>ac.
     bindE (mapArrayOpt descriptorOf ac) (\<lambda>allow.
     bindE (prfE (buildPrfGetExtension (map cd_id (case allow of Some ds \<Rightarrow> ds | None \<Rightarrow> [])) getPrfSalt)) (\<lambda>prf.
       Inr \<lparr>ro_challenge = challenge, ro_timeout = jfield (js ''timeout'') (the pk), ro_rpId = jfield (js ''rpId'') (the pk),
            ro_userVerification = jfield (js ''userVerification'') (the pk), ro_allow = allow, ro_prf = prf\<rparr>))))))"

subsection \<open>The authenticator\<close>

record credential =
  cr_id :: jsstring
  cr_rawId :: bytes
  cr_type :: jsstring
  cr_prfEnabled :: bool
  cr_prfFirst :: "bytes option"
  cr_extensions :: json                 \<comment> \<open>the extension results as \<open>JSON.stringify\<close> writes them\<close>
  cr_clientData :: bytes
  cr_authData :: "bytes option"
  cr_signature :: bytes
  cr_userHandle :: "bytes option"
  cr_attestation :: bytes
  cr_transports :: json
  cr_publicKey :: "bytes option"
  cr_algorithm :: "json option"
  cr_attachment :: "json option"

record authenticator =
  wn_supported :: bool
  wn_create :: "creation_options \<Rightarrow> wa_error + credential option"
  wn_get :: "request_options \<Rightarrow> wa_error + credential option"

text \<open>The salt a request asks the PRF of one credential to be evaluated on.\<close>

definition prfSaltFor :: "prf_extension \<Rightarrow> bytes \<Rightarrow> bytes option" where
  "prfSaltFor x rawId =
     (case prf_evalByCredential x of
        Some m \<Rightarrow> (case encodeBase64URL rawId of Inr k \<Rightarrow> (case m k of Some s \<Rightarrow> Some s | None \<Rightarrow> prf_eval x) | Inl _ \<Rightarrow> prf_eval x)
      | None \<Rightarrow> prf_eval x)"

text \<open>What WebAuthn promises: an assertion is made by one of the allowed credentials, and the output of the PRF
  extension is a function of the credential and the salt.\<close>

definition prf_consistent :: "authenticator \<Rightarrow> (bytes \<Rightarrow> bytes \<Rightarrow> bytes) \<Rightarrow> bool" where
  "prf_consistent wn prf \<longleftrightarrow>
     (\<forall>ro c. wn_get wn ro = Inr (Some c) \<longrightarrow>
        (\<forall>ds. ro_allow ro = Some ds \<longrightarrow> ds \<noteq> [] \<longrightarrow> cr_rawId c \<in> cd_id ` set ds) \<and>
        (\<forall>s out. prfSaltFor (ro_prf ro) (cr_rawId c) = Some s \<longrightarrow> cr_prfFirst c = Some out \<longrightarrow> out = prf (cr_rawId c) s))"

subsection \<open>Registration ceremony\<close>

definition rpIdOf :: "jsstring \<Rightarrow> json option \<Rightarrow> wa_error + json option" where
  "rpIdOf hostname rp =
     bindE (memberE ''id'' rp) (\<lambda>i. Inr (case i of Some v \<Rightarrow> if truthyJson v then Some v else Some (JStr hostname) | None \<Rightarrow> Some (JStr hostname)))"

text \<open>The assertion that yields the PRF output of a credential just created.\<close>

definition prfRequest :: "bytes \<Rightarrow> json option \<Rightarrow> bytes \<Rightarrow> prf_extension \<Rightarrow> request_options" where
  "prfRequest challenge rpId rawId prf =
     \<lparr>ro_challenge = challenge, ro_timeout = None, ro_rpId = rpId, ro_userVerification = Some (JStr (js ''required'')),
      ro_allow = Some [\<lparr>cd_id = rawId, cd_type = Some (JStr (js ''public-key'')), cd_transports = None\<rparr>], ro_prf = prf\<rparr>"

definition registerCredential ::
  "authenticator \<Rightarrow> jsstring \<Rightarrow> bytes \<Rightarrow> json option \<Rightarrow> wa_error + (credential \<times> bytes)" where
  "registerCredential wn hostname challenge pubKey =
     bindE (creationOptions pubKey) (\<lambda>options.
     bindE (wn_create wn options) (\<lambda>r.
       case r of
         None \<Rightarrow> Inl WaCancelled
       | Some cred \<Rightarrow>
           if cr_prfEnabled cred \<or> cr_prfFirst cred \<noteq> None then
             bindE (rpIdOf hostname (co_rp options)) (\<lambda>rpId.
             bindE (wn_get wn (prfRequest challenge rpId (cr_rawId cred)
                      \<lparr>prf_eval = Some getPrfSalt, prf_evalByCredential = None\<rparr>)) (\<lambda>a.
               case a of
                 None \<Rightarrow> Inl WaPrfGetFailed
               | Some assertion \<Rightarrow>
                   (case cr_prfFirst assertion of Some out \<Rightarrow> Inr (cred, out) | None \<Rightarrow> Inl WaPrfRequired)))
           else Inl WaPrfRequired))"

definition credentialJSON :: "(bytes \<Rightarrow> jsstring) \<Rightarrow> credential \<Rightarrow> json" where
  "credentialJSON b64u c =
     JObj ([(js ''id'', JStr (cr_id c)), (js ''rawId'', JStr (b64u (cr_rawId c))),
            (js ''response'', JObj ([(js ''attestationObject'', JStr (b64u (cr_attestation c))), (js ''clientDataJSON'', JStr (b64u (cr_clientData c))),
               (js ''transports'', if truthyJson (cr_transports c) then cr_transports c else JArr [])] @
               optMember ''publicKey'' (map_option (\<lambda>k. JStr (b64u k)) (cr_publicKey c)) @
               optMember ''publicKeyAlgorithm'' (cr_algorithm c) @
               optMember ''authenticatorData'' (map_option (\<lambda>k. JStr (b64u k)) (cr_authData c)))),
            (js ''type'', JStr (cr_type c)), (js ''clientExtensionResults'', cr_extensions c)] @
           optMember ''authenticatorAttachment'' (cr_attachment c))"

subsection \<open>Authentication of machine A\<close>

text \<open>\<open>AddPasskeyPage\<close>: the options keep what the server sent and replace the challenge, the credential ids and
  the PRF extension.\<close>

record add_options =
  ao_server :: json
  ao_challenge :: bytes
  ao_allow :: "(json \<times> bytes) list option"
  ao_prf :: prf_extension

definition addPasskeyOptions :: "json option \<Rightarrow> wa_error + add_options" where
  "addPasskeyOptions authOptions =
     bindE (memberE ''publicKey'' authOptions) (\<lambda>pk.
     bindE (memberE ''allowCredentials'' pk) (\<lambda>ac.
     bindE (mapArrayOpt (\<lambda>c. bindE (memberE ''id'' (Some c)) (\<lambda>i. bindE (base64urlToBuffer i) (\<lambda>raw. Inr (c, raw)))) ac) (\<lambda>allow.
     bindE (memberE ''challenge'' pk) (\<lambda>ch.
     bindE (base64urlToBuffer ch) (\<lambda>challenge.
     bindE (prfE (buildPrfGetExtension (map snd (case allow of Some ds \<Rightarrow> ds | None \<Rightarrow> [])) getPrfSalt)) (\<lambda>prf.
       Inr \<lparr>ao_server = the pk, ao_challenge = challenge, ao_allow = allow, ao_prf = prf\<rparr>))))))"

definition assertionJSON :: "(bytes \<Rightarrow> jsstring) \<Rightarrow> credential \<Rightarrow> wa_error + json" where
  "assertionJSON b64u c =
     bindE (case cr_userHandle c of
              None \<Rightarrow> Inr JNull
            | Some h \<Rightarrow> (case encodeBase64URL h of Inr s \<Rightarrow> Inr (JStr s) | Inl e \<Rightarrow> Inl (WaDecode e))) (\<lambda>handle.
       Inr (JObj [(js ''id'', JStr (cr_id c)), (js ''rawId'', JStr (b64u (cr_rawId c))),
         (js ''response'', JObj [(js ''clientDataJSON'', JStr (b64u (cr_clientData c))),
            (js ''authenticatorData'', JStr (b64u (case cr_authData c of Some d \<Rightarrow> d | None \<Rightarrow> []))),
            (js ''signature'', JStr (b64u (cr_signature c))), (js ''userHandle'', handle)]),
         (js ''type'', JStr (js ''public-key'')), (js ''clientExtensionResults'', cr_extensions c)]))"

definition authPost :: "string \<Rightarrow> jsstring \<Rightarrow> jsstring option \<Rightarrow> http_request" where
  "authPost url token body =
     \<lparr>rq_url = js url, rq_method = Some (js ''POST''),
      rq_headers = [(js ''Content-Type'', js ''application/json''), (js ''Authorization'', js ''Bearer '' @ token)],
      rq_body = body, rq_keepalive = False\<rparr>"

definition okJson :: "wa_error \<Rightarrow> http_response option \<Rightarrow> wa_error + http_response" where
  "okJson e r = (case r of None \<Rightarrow> Inl WaNetwork | Some x \<Rightarrow> if rs_ok x then Inr x else Inl e)"

text \<open>From the options to the credential that was verified by the server.\<close>

definition authenticateA ::
  "server \<Rightarrow> (add_options \<Rightarrow> wa_error + credential option) \<Rightarrow> (bytes \<Rightarrow> jsstring) \<Rightarrow> jsstring \<Rightarrow> wa_error + credential" where
  "authenticateA fetch get b64u token =
     bindE (okJson WaOptionsFailed (fetch (authPost ''/api/v1/auth/passkeys/auth-begin'' token None))) (\<lambda>r.
     bindE (case jsonParse (rs_text r) of Some v \<Rightarrow> Inr v | None \<Rightarrow> Inl WaSyntax) (\<lambda>beginResp.
     bindE (memberE ''options'' (Some beginResp)) (\<lambda>authOptions.
     bindE (memberE ''sessionKey'' (Some beginResp)) (\<lambda>sessKey.
     bindE (addPasskeyOptions authOptions) (\<lambda>options.
     bindE (get options) (\<lambda>assertion.
       case assertion of
         None \<Rightarrow> Inl WaCancelled
       | Some cred \<Rightarrow>
           bindE (assertionJSON b64u cred) (\<lambda>credJSON.
           bindE (okJson WaVerifyFailed (fetch (authPost ''/api/v1/auth/passkeys/auth-finish'' token
                    (Some (stringify (JObj (optMember ''session_key'' sessKey @ [(js ''credential'', credJSON)]))))))) (\<lambda>_.
             Inr cred))))))))"

subsection \<open>The salt\<close>

lemma prfE_Inr [simp]: "prfE r = Inr x \<longleftrightarrow> r = Inr x"
  by (cases r) (simp_all add: prfE_def)

text \<open>Every credential that may answer an unlock is asked for the PRF of the one application salt.\<close>

lemma buildPrf_salt:
  assumes "buildPrfGetExtension ids salt = Inr x" and "ids = [] \<or> rawId \<in> set ids"
  shows "prfSaltFor x rawId = Some salt"
proof -
  obtain k where k: "encodeBase64URL rawId = Inr k" using base64url.enc_total by blast
  then show ?thesis
    using assms by (auto simp: buildPrfGetExtension_def fillByCredential_eq prfSaltFor_def map_add_def split: if_splits)
qed

lemma unlockOptions_salt:
  assumes "unlockOptions options = Inr ro" and "prf_consistent wn prf" and "wn_get wn ro = Inr (Some c)"
    and "cr_prfFirst c = Some out"
  shows "out = prf (cr_rawId c) getPrfSalt"
proof -
  obtain allow where allow: "ro_allow ro = allow" and
    ext: "buildPrfGetExtension (map cd_id (case allow of Some ds \<Rightarrow> ds | None \<Rightarrow> [])) getPrfSalt = Inr (ro_prf ro)"
    using assms(1) by (auto simp: unlockOptions_def bindE_Inr_iff)
  have "map cd_id (case allow of Some ds \<Rightarrow> ds | None \<Rightarrow> []) = [] \<or>
      cr_rawId c \<in> set (map cd_id (case allow of Some ds \<Rightarrow> ds | None \<Rightarrow> []))"
    using assms(2,3) allow unfolding prf_consistent_def by (cases allow) fastforce+
  from buildPrf_salt [OF ext this] show ?thesis using assms(2-4) by (auto simp: prf_consistent_def)
qed

lemma case_option_Inr_iff: "(case r of None \<Rightarrow> Inl e | Some x \<Rightarrow> f x) = Inr y \<longleftrightarrow> (\<exists>x. r = Some x \<and> f x = Inr y)"
  by (simp split: option.split)

lemma registerCredential_prf:
  assumes "registerCredential wn hostname challenge pubKey = Inr (cred, out)" and "prf_consistent wn prf"
  shows "out = prf (cr_rawId cred) getPrfSalt"
proof -
  define x where "x = \<lparr>prf_eval = Some getPrfSalt, prf_evalByCredential = None\<rparr>"
  obtain rpId assertion where a: "wn_get wn (prfRequest challenge rpId (cr_rawId cred) x) = Inr (Some assertion)" "cr_prfFirst assertion = Some out"
    using assms(1) by (auto simp: registerCredential_def bindE_Inr_iff case_option_Inr_iff x_def split: if_split_asm)
  have "cr_rawId assertion = cr_rawId cred"
    using assms(2) a(1) unfolding prf_consistent_def by (fastforce simp: prfRequest_def)
  moreover have "prfSaltFor x (cr_rawId assertion) = Some getPrfSalt" by (simp add: prfSaltFor_def x_def)
  ultimately show ?thesis using assms(2) a unfolding prf_consistent_def by (fastforce simp: prfRequest_def)
qed

end
