(* ===== verification/Auth.thy ===== *)
theory Auth
  imports Api Sessions Encoding
begin

text \<open>
  The signed-in user: \<open>AuthProvider\<close> (\<open>web/src/contexts/AuthContext.tsx\<close>), the guard of the protected routes
  (\<open>web/src/App.tsx\<close>) and the sign-in page (\<open>web/src/pages/LoginPage.tsx\<close>). The provider keeps the user and the
  token twice: in its React state, the record \<open>auth\<close>, and in \<open>localStorage\<close>, from where a reload restores them.
  Tokens come out of JSON the code does not check, so they are JSON values. The function
  \<open>startAuthentication\<close> of the WebAuthn library is a parameter of the page.
\<close>

subsection \<open>AuthProvider\<close>

record auth =
  au_user :: "json option"
  au_token :: "json option"

datatype auth_error = AuthStorage | AuthCorrupt

definition signedOut :: auth where
  "signedOut = \<lparr>au_user = None, au_token = None\<rparr>"

text \<open>The mount effect. \<open>JSON.parse\<close> is not guarded: a corrupt user is an exception of the effect.\<close>

definition mountAuth :: "storage \<Rightarrow> auth_error + auth" where
  "mountAuth st =
     (case (getItem (js ''token'') st, getItem (js ''user'') st) of
        (Some (Some t), Some (Some u)) \<Rightarrow>
          if t \<noteq> [] \<and> u \<noteq> [] then
            (case jsonParse u of
               Some v \<Rightarrow> Inr \<lparr>au_user = Some v, au_token = Some (JStr t)\<rparr>
             | None \<Rightarrow> Inl AuthCorrupt)
          else Inr signedOut
      | (Some _, Some _) \<Rightarrow> Inr signedOut
      | _ \<Rightarrow> Inl AuthStorage)"

text \<open>\<open>setItem\<close> stores \<open>String(v)\<close>; \<open>undefined\<close> becomes the text \<open>undefined\<close>.\<close>

definition storedText :: "(jsstring \<Rightarrow> jsstring) \<Rightarrow> json option \<Rightarrow> jsstring" where
  "storedText showNum v = (case v of None \<Rightarrow> js ''undefined'' | Some x \<Rightarrow> toStringJ showNum x)"

definition login :: "(jsstring \<Rightarrow> jsstring) \<Rightarrow> json option \<Rightarrow> json \<Rightarrow> auth \<times> storage \<Rightarrow> (auth_error + unit) \<times> auth \<times> storage" where
  "login showNum newToken newUser as =
     (case as of (a, st) \<Rightarrow>
        (case setItem (js ''token'') (storedText showNum newToken) st of
           None \<Rightarrow> (Inl AuthStorage, a, st)
         | Some st1 \<Rightarrow>
             (case setItem (js ''user'') (stringify newUser) st1 of
                None \<Rightarrow> (Inl AuthStorage, a, st1)
              | Some st2 \<Rightarrow> (Inr (), \<lparr>au_user = Some newUser, au_token = newToken\<rparr>, st2))))"

definition logout :: "auth \<times> storage \<Rightarrow> (auth_error + unit) \<times> auth \<times> storage" where
  "logout as =
     (case as of (a, st) \<Rightarrow>
        (case removeItem (js ''token'') st of
           None \<Rightarrow> (Inl AuthStorage, a, st)
         | Some st1 \<Rightarrow>
             (case removeItem (js ''user'') st1 of
                None \<Rightarrow> (Inl AuthStorage, a, st1)
              | Some st2 \<Rightarrow> (Inr (), signedOut, st2))))"

definition isAuthenticated :: "auth \<Rightarrow> bool" where
  "isAuthenticated a = (case au_token a of Some v \<Rightarrow> truthyJson v | None \<Rightarrow> False)"

subsection \<open>ProtectedRoute\<close>

datatype route = RouteChildren | RouteLogin | RouteThrows

definition ProtectedRoute :: "storage \<Rightarrow> route" where
  "ProtectedRoute st =
     (case getItem (js ''token'') st of
        None \<Rightarrow> RouteThrows
      | Some t \<Rightarrow> if truthy t then RouteChildren else RouteLogin)"

subsection \<open>LoginPage\<close>

datatype login_error = LoginUnsupported | LoginApi api_error | LoginCeremony | LoginTypeError | LoginStorage

record login_page =
  lp_error :: "login_error option"
  lp_loading :: bool
  lp_noUsers :: bool
  lp_navigate :: "jsstring option"

text \<open>The status effect of the mount.\<close>

definition usersChecked :: "api_error + json \<Rightarrow> login_page \<Rightarrow> login_page" where
  "usersChecked r p =
     (case r of
        Inr status \<Rightarrow>
          (if status = JNull then p\<lparr>lp_noUsers := False\<rparr>
           else p\<lparr>lp_noUsers := (case jfield (js ''exists'') status of Some v \<Rightarrow> \<not> truthyJson v | None \<Rightarrow> True)\<rparr>)
      | Inl e \<Rightarrow> p\<lparr>lp_noUsers := False\<rparr>)"

text \<open>\<open>o.k = v\<close> on a parsed object.\<close>

definition jput :: "jsstring \<Rightarrow> json \<Rightarrow> json \<Rightarrow> json" where
  "jput k v j = (case j of JObj ms \<Rightarrow> JObj (putKey k v ms) | _ \<Rightarrow> j)"

text \<open>The user handle is re-encoded before the assertion is sent.\<close>

definition encodeUserHandle :: "(jsstring \<Rightarrow> jsstring) \<Rightarrow> json \<Rightarrow> login_error + json" where
  "encodeUserHandle showNum credential =
     (case jfield (js ''response'') credential of
        None \<Rightarrow> Inl LoginTypeError
      | Some JNull \<Rightarrow> Inl LoginTypeError
      | Some resp \<Rightarrow>
          (case jfield (js ''userHandle'') resp of
             None \<Rightarrow> Inr credential
           | Some h \<Rightarrow>
               if \<not> truthyJson h then Inr credential
               else (case encodeBase64URL (textEncode (toStringJ showNum h)) of
                       Inr e \<Rightarrow> Inr (jput (js ''response'') (jput (js ''userHandle'') (JStr e) resp) credential)
                     | Inl e \<Rightarrow> Inl LoginTypeError)))"

definition signedInUser :: "jsstring \<Rightarrow> json option \<Rightarrow> json" where
  "signedInUser email token = JObj ([(js ''id'', JNum (js ''0'')), (js ''email'', JStr email)] @ optMember ''token'' token)"

definition fieldE :: "jsstring \<Rightarrow> json \<Rightarrow> login_error + json option" where
  "fieldE k v = (if v = JNull then Inl LoginTypeError else Inr (jfield k v))"

definition loginE :: "api_error + 'a \<Rightarrow> login_error + 'a" where
  "loginE r = (case r of Inl e \<Rightarrow> Inl (LoginApi e) | Inr v \<Rightarrow> Inr v)"

text \<open>The body of the \<open>try\<close>, up to the call of \<open>login\<close>: the token the server returned.\<close>

definition loginToken ::
  "(jsstring \<Rightarrow> jsstring) \<Rightarrow> server \<Rightarrow> (json option \<Rightarrow> json option) \<Rightarrow> jsstring \<Rightarrow> browser \<Rightarrow> (login_error + json option) \<times> browser" where
  "loginToken showNum fetch startAuthentication email b =
     (case loginBegin fetch email b of
        (Inl e, b') \<Rightarrow> (Inl (LoginApi e), b')
      | (Inr response, b') \<Rightarrow>
          (bindE (fieldE (js ''publicKey'') response) (\<lambda>options.
             case startAuthentication options of
               None \<Rightarrow> Inl LoginCeremony
             | Some credential \<Rightarrow>
                 bindE (encodeUserHandle showNum credential) (\<lambda>assertion.
                 bindE (loginE (loginFinish fetch email assertion)) (\<lambda>result.
                   fieldE (js ''token'') result))), b'))"

definition handleLogin ::
  "(jsstring \<Rightarrow> jsstring) \<Rightarrow> server \<Rightarrow> bool \<Rightarrow> (json option \<Rightarrow> json option) \<Rightarrow> jsstring \<Rightarrow>
   login_page \<times> auth \<times> browser \<Rightarrow> login_page \<times> auth \<times> browser" where
  "handleLogin showNum fetch supported startAuthentication email pab =
     (case pab of (p0, a, b) \<Rightarrow>
        let p = p0\<lparr>lp_error := None, lp_loading := True\<rparr>
        in if \<not> supported then (p\<lparr>lp_error := Some LoginUnsupported, lp_loading := False\<rparr>, a, b)
           else (case loginToken showNum fetch startAuthentication email b of
                   (Inl e, b') \<Rightarrow> (p\<lparr>lp_error := Some e, lp_loading := False\<rparr>, a, b')
                 | (Inr token, b') \<Rightarrow>
                     (case login showNum token (signedInUser email token) (a, br_storage b') of
                        (Inl e, a', st) \<Rightarrow> (p\<lparr>lp_error := Some LoginStorage, lp_loading := False\<rparr>, a', b'\<lparr>br_storage := st\<rparr>)
                      | (Inr _, a', st) \<Rightarrow>
                          (p\<lparr>lp_navigate := Some (js ''/dashboard''), lp_loading := False\<rparr>, a', b'\<lparr>br_storage := st\<rparr>))))"

subsection \<open>Sessions of the provider\<close>

datatype auth_op = OpLogin jsstring json | OpLogout

fun runAuth :: "(jsstring \<Rightarrow> jsstring) \<Rightarrow> auth_op list \<Rightarrow> auth \<times> storage \<Rightarrow> auth \<times> storage" where
  "runAuth showNum [] as = as"
| "runAuth showNum (OpLogin t u # ops) as = runAuth showNum ops (snd (login showNum (Some (JStr t)) u as))"
| "runAuth showNum (OpLogout # ops) as = runAuth showNum ops (snd (logout as))"

fun opOk :: "auth_op \<Rightarrow> bool" where
  "opOk (OpLogin t u) = (t \<noteq> [] \<and> wfJson u)"
| "opOk OpLogout = True"

lemma stringify_nonempty: "wfJson v \<Longrightarrow> stringify v \<noteq> []"
  by (cases v) (auto simp: quoteString_def validNumber_def validUnsigned_def js_def)

lemma login_eq:
  "usable st \<Longrightarrow> login showNum t u (a, st) =
     (Inr (), \<lparr>au_user = Some u, au_token = t\<rparr>,
      st\<lparr>ls_items := (ls_items st)(js ''token'' \<mapsto> storedText showNum t, js ''user'' \<mapsto> stringify u)\<rparr>)"
  by (simp add: login_def setItem_def usable_def)

lemma logout_eq:
  "ls_available st \<Longrightarrow> logout (a, st) =
     (Inr (), signedOut, st\<lparr>ls_items := (ls_items st)(js ''token'' := None, js ''user'' := None)\<rparr>)"
  by (simp add: logout_def removeItem_def)

lemma login_ok:
  assumes "login showNum t u (a, st) = (Inr r, a', st')"
  shows "usable st" "a' = \<lparr>au_user = Some u, au_token = t\<rparr>"
    "st' = st\<lparr>ls_items := (ls_items st)(js ''token'' \<mapsto> storedText showNum t, js ''user'' \<mapsto> stringify u)\<rparr>"
  using assms by (auto simp: login_def setItem_def usable_def split: if_splits)

lemma login_failed: "login showNum t u (a, st) = (Inl e, a', st') \<Longrightarrow> a' = a"
  by (auto simp: login_def setItem_def split: if_splits)

lemma signedInUser_wf: "wfJson (signedInUser email (Some (JStr s)))"
  by (simp add: signedInUser_def optMember_def validNumber_def validUnsigned_def validFrac_def validExp_def isDigit_def isNumUnit_def js_def)

lemma mountAuth_login:
  assumes "usable st" and "t \<noteq> []" and "wfJson u"
  shows "mountAuth (st\<lparr>ls_items := (ls_items st)(js ''token'' \<mapsto> t, js ''user'' \<mapsto> stringify u)\<rparr>) =
    Inr \<lparr>au_user = Some u, au_token = Some (JStr t)\<rparr>"
  using assms by (simp add: mountAuth_def getItem_def usable_def stringify_nonempty jsonParse_stringify)

lemma mountAuth_logout:
  "ls_available st \<Longrightarrow> mountAuth (st\<lparr>ls_items := (ls_items st)(js ''token'' := None, js ''user'' := None)\<rparr>) = Inr signedOut"
  by (simp add: mountAuth_def getItem_def)

subsection \<open>Properties\<close>

definition authAgrees :: "auth \<times> storage \<Rightarrow> bool" where
  "authAgrees as \<longleftrightarrow> usable (snd as) \<and> mountAuth (snd as) = Inr (fst as) \<and>
     (isAuthenticated (fst as) \<longleftrightarrow> ProtectedRoute (snd as) = RouteChildren)"

lemma authAgrees_login:
  assumes "usable st" and "t \<noteq> []" and "wfJson u"
  shows "authAgrees (snd (login showNum (Some (JStr t)) u (a, st)))"
  using assms by (simp add: authAgrees_def login_eq storedText_def mountAuth_login isAuthenticated_def ProtectedRoute_def getItem_def
      usable_def truthy_def)

lemma authAgrees_logout: "usable st \<Longrightarrow> authAgrees (snd (logout (a, st)))"
  by (simp add: authAgrees_def logout_eq mountAuth_logout isAuthenticated_def ProtectedRoute_def getItem_def usable_def truthy_def signedOut_def)

lemma runAuth_agrees: "list_all opOk ops \<Longrightarrow> authAgrees as \<Longrightarrow> authAgrees (runAuth showNum ops as)"
proof (induction showNum ops as rule: runAuth.induct)
  case (2 showNum t u ops as)
  then show ?case by (cases as) (simp add: authAgrees_login authAgrees_def [of "(_, _)"])
next
  case (3 showNum ops as)
  then show ?case by (cases as) (simp add: authAgrees_logout authAgrees_def [of "(_, _)"])
qed simp

text \<open>C30: the provider's state is a cache of storage. Starting from a loaded page on which the route guard and
  the provider agree, after any sequence of sign-ins (with a non-empty token) and sign-outs a reload computes
  exactly the provider's current user and token from storage, and the guard of the protected routes lets
  the user in exactly when the provider says that they are signed in.\<close>

theorem auth_survives_reload:
  assumes "authAgrees (a, st)" and "list_all opOk ops"
  shows "let (a', st') = runAuth showNum ops (a, st)
    in mountAuth st' = Inr a' \<and> (isAuthenticated a' \<longleftrightarrow> ProtectedRoute st' = RouteChildren)"
  using runAuth_agrees [OF assms(2,1)] by (simp add: authAgrees_def case_prod_unfold Let_def)


text \<open>The page does not check that there is a token: an answer without one stores the text \<open>undefined\<close>, which the
  route guard takes for a token.\<close>

theorem login_without_token:
  assumes "loginToken showNum fetch startAuthentication email b = (Inr None, b')" and "usable (br_storage b')"
  shows "let (p1, a1, b1) = handleLogin showNum fetch True startAuthentication email (p, a, b)
    in lp_navigate p1 = Some (js ''/dashboard'') \<and> \<not> isAuthenticated a1 \<and> ProtectedRoute (br_storage b1) = RouteChildren"
  using assms by (simp add: handleLogin_def login_eq isAuthenticated_def ProtectedRoute_def getItem_def usable_def truthy_def storedText_def)

text \<open>Concrete runs.\<close>

definition toy_answer :: json where
  "toy_answer = JObj [(js ''token'', JStr (js ''t''))]"

definition toy_login_server :: server where
  "toy_login_server q = Some \<lparr>rs_status = 200, rs_content_length = Some (js ''13''), rs_text = stringify toy_answer\<rparr>"

definition toy_assertion :: "json option \<Rightarrow> json option" where
  "toy_assertion options = Some (JObj [(js ''response'', JObj [])])"

definition fresh_browser :: browser where
  "fresh_browser = \<lparr>br_window = True, br_storage = empty_storage, br_protocol = js ''https:'', br_host = js ''h'', br_href = None\<rparr>"

lemma toy_answer_parse: "jsonParse (stringify toy_answer) = Some toy_answer"
  by (rule jsonParse_stringify) (simp add: toy_answer_def)

lemma toy_loginToken:
  "loginToken id toy_login_server toy_assertion (js ''e'') fresh_browser = (Inr (Some (JStr (js ''t''))), fresh_browser)"
  unfolding loginToken_def
  by (simp add: loginBegin_def fetchApi_def toy_login_server_def readResponse_def rs_ok_def jsonE_def toy_answer_parse loginFinish_def
      fresh_browser_def getToken_def getItem_def empty_storage_def toy_assertion_def encodeUserHandle_def fieldE_def loginE_def)
    (simp add: toy_answer_def jfield_def)

theorem auth_survives_reload_witness:
  "mountAuth (snd (runAuth id [OpLogin (js ''t'') (JStr (js ''u'')), OpLogout, OpLogin (js ''s'') (JStr (js ''v''))] (signedOut, empty_storage))) =
     Inr (fst (runAuth id [OpLogin (js ''t'') (JStr (js ''u'')), OpLogout, OpLogin (js ''s'') (JStr (js ''v''))] (signedOut, empty_storage)))"
proof -
  have "authAgrees (signedOut, empty_storage)"
    by (simp add: authAgrees_def mountAuth_def getItem_def empty_storage_def usable_def signedOut_def isAuthenticated_def ProtectedRoute_def truthy_def)
  from auth_survives_reload [OF this, of "[OpLogin (js ''t'') (JStr (js ''u'')), OpLogout, OpLogin (js ''s'') (JStr (js ''v''))]" id]
  show ?thesis by (simp add: case_prod_unfold Let_def)
qed

definition toy_page :: login_page where
  "toy_page = \<lparr>lp_error = None, lp_loading = False, lp_noUsers = False, lp_navigate = None\<rparr>"


end
