(* ===== verification/Registration.thy ===== *)
theory Registration
  imports WebAuthn Auth
begin

text \<open>
  Creating an account (\<open>web/src/pages/RegisterPage.tsx\<close>): the passkey ceremony, the fresh master key wrapped under
  the PRF key, the sign-in, and the client share of the SSH CA that is encrypted with the master key and
  uploaded. Random values are arguments. Beside the state of the page, \<open>register_page\<close> records what went over the
  wire: the passkey, the blob, the server's answer and the share text.
\<close>

datatype register_error =
    RegUnsupported | RegApi api_error | RegWebAuthn wa_error | RegCrypto crypto_error | RegNoToken | RegStorage | RegTypeError

record reg_env =
  re_crypto :: webcrypto
  re_fetch :: server
  re_auth :: authenticator
  re_b64u :: "bytes \<Rightarrow> jsstring"
  re_hostname :: jsstring
  re_showNum :: "jsstring \<Rightarrow> jsstring"

record reg_random =
  rr_challenge :: bytes
  rr_masterKey :: bytes
  rr_nonce :: bytes
  rr_shareNonce :: bytes

record register_page =
  rp_error :: "register_error option"
  rp_loading :: bool
  rp_navigate :: "jsstring option"
  rp_credential :: "credential option"  \<comment> \<open>the passkey that was created\<close>
  rp_blob :: "jsstring option"          \<comment> \<open>the wrapped master key sent to the server\<close>
  rp_answer :: "json option"            \<comment> \<open>the server's answer to it\<close>
  rp_share :: "jsstring option"         \<comment> \<open>the encrypted client share sent to the server\<close>

definition regApi :: "api_error + 'a \<Rightarrow> register_error + 'a" where
  "regApi r = (case r of Inl e \<Rightarrow> Inl (RegApi e) | Inr v \<Rightarrow> Inr v)"

definition regWa :: "wa_error + 'a \<Rightarrow> register_error + 'a" where
  "regWa r = (case r of Inl e \<Rightarrow> Inl (RegWebAuthn e) | Inr v \<Rightarrow> Inr v)"

definition regCrypto :: "crypto_error + 'a \<Rightarrow> register_error + 'a" where
  "regCrypto r = (case r of Inl e \<Rightarrow> Inl (RegCrypto e) | Inr v \<Rightarrow> Inr v)"

text \<open>The client share, encrypted with the master key: nonce, then ciphertext, as base64.\<close>

definition encryptShare :: "webcrypto \<Rightarrow> bytes \<Rightarrow> bytes \<Rightarrow> bytes \<Rightarrow> crypto_error + jsstring" where
  "encryptShare w rnd masterKey clientShareBytes =
     bindE (encrypt w rnd masterKey clientShareBytes) (\<lambda>e.
     bindE (liftSet (u8_set (newUint8Array (12 + length (er_ciphertext e))) (er_nonce e) 0)) (\<lambda>s1.
     bindE (liftSet (u8_set s1 (er_ciphertext e) 12)) (\<lambda>encryptedShare.
       liftBase64 (encodeBase64 encryptedShare))))"

text \<open>From the ceremony to the answer of \<open>registerFinish\<close>, with the blob that was sent.\<close>

definition registerAccount :: "reg_env \<Rightarrow> reg_random \<Rightarrow> jsstring \<Rightarrow> json \<Rightarrow> register_error + (credential \<times> jsstring \<times> json)" where
  "registerAccount env rnd email response =
     bindE (regWa (memberE ''publicKey'' (Some response))) (\<lambda>pubKey.
     bindE (regWa (registerCredential (re_auth env) (re_hostname env) (rr_challenge rnd) pubKey)) (\<lambda>(cred, prfOutput).
     bindE (regCrypto (wrapMasterKey (re_crypto env) (rr_nonce rnd) (deriveMasterKeyFromPrf (re_crypto env) prfOutput) (rr_masterKey rnd))) (\<lambda>encryptedMasterKey.
     bindE (regApi (registerFinish (re_fetch env) email (credentialJSON (re_b64u env) cred) (Some encryptedMasterKey))) (\<lambda>registerResponse.
       Inr (cred, encryptedMasterKey, registerResponse)))))"

definition truthyMember :: "string \<Rightarrow> json \<Rightarrow> json option" where
  "truthyMember k v = (case jfield (js k) v of Some x \<Rightarrow> if truthyJson x then Some x else None | None \<Rightarrow> None)"

text \<open>The upload of the share, after the sign-in.\<close>

definition uploadShare :: "reg_env \<Rightarrow> reg_random \<Rightarrow> json \<Rightarrow> browser \<Rightarrow> (register_error + jsstring option) \<times> browser" where
  "uploadShare env rnd registerResponse b =
     (case truthyMember ''client_share'' registerResponse of
        None \<Rightarrow> (Inr None, b)
      | Some v \<Rightarrow>
          (case bindE (regCrypto (liftBase64 (decodeBase64 (toStringJ (re_showNum env) v)))) (\<lambda>clientShareBytes.
                regCrypto (encryptShare (re_crypto env) (rr_shareNonce rnd) (rr_masterKey rnd) clientShareBytes)) of
             Inl e \<Rightarrow> (Inl e, b)
           | Inr txt \<Rightarrow>
               (case updateSSHCAClientShare (re_fetch env) txt b of
                  (Inl e, b') \<Rightarrow> (Inl (RegApi e), b')
                | (Inr _, b') \<Rightarrow> (Inr (Some txt), b'))))"

definition failR :: "register_error \<Rightarrow> register_page \<Rightarrow> register_page" where
  "failR e p = p\<lparr>rp_error := Some e, rp_loading := False\<rparr>"

definition handleRegister ::
  "reg_env \<Rightarrow> reg_random \<Rightarrow> jsstring \<Rightarrow> register_page \<times> auth \<times> browser \<Rightarrow> register_page \<times> auth \<times> browser" where
  "handleRegister env rnd email pab =
     (case pab of (p0, a, b) \<Rightarrow>
        let p = p0\<lparr>rp_error := None, rp_loading := True\<rparr>
        in if \<not> wn_supported (re_auth env) then (failR RegUnsupported p, a, b)
           else (case registerBegin (re_fetch env) email b of
             (Inl e, b1) \<Rightarrow> (failR (RegApi e) p, a, b1)
           | (Inr response, b1) \<Rightarrow>
               (case registerAccount env rnd email response of
                  Inl e \<Rightarrow> (failR e p, a, b1)
                | Inr (cred, blob, registerResponse) \<Rightarrow>
                    let p1 = p\<lparr>rp_credential := Some cred, rp_blob := Some blob, rp_answer := Some registerResponse\<rparr>
                    in if registerResponse = JNull then (failR RegTypeError p1, a, b1)
                       else (case truthyMember ''token'' registerResponse of
                               None \<Rightarrow> (failR RegNoToken p1, a, b1)
                             | Some token \<Rightarrow>
                                 (case login (re_showNum env) (Some token) (signedInUser email (Some token)) (a, br_storage b1) of
                                    (Inl e, a1, st) \<Rightarrow> (failR RegStorage p1, a1, b1\<lparr>br_storage := st\<rparr>)
                                  | (Inr _, a1, st) \<Rightarrow>
                                      (case uploadShare env rnd registerResponse (b1\<lparr>br_storage := st\<rparr>) of
                                         (Inl e, b2) \<Rightarrow> (failR e p1, a1, b2)
                                       | (Inr share, b2) \<Rightarrow>
                                           (p1\<lparr>rp_share := share, rp_navigate := Some (js ''/dashboard''), rp_loading := False\<rparr>, a1, b2)))))))"

subsection \<open>What registration uploads\<close>

lemma reg_lifts [simp]:
  "regApi r = Inr v \<longleftrightarrow> r = Inr v" "regWa q = Inr w \<longleftrightarrow> q = Inr w" "regCrypto s = Inr x \<longleftrightarrow> s = Inr x"
  by (simp_all add: regApi_def regWa_def regCrypto_def split: sum.split)

lemma encryptShare_eq:
  assumes "length rnd = 12" and "length masterKey = 32"
  shows "encryptShare w rnd masterKey d = Inr (b64enc (map unat (rnd @ aesgcm_encrypt w masterKey rnd d)))"
  using assms by (simp add: encryptShare_def encrypt_def u8_set_def newUint8Array_def encodeBase64_eq)

lemma registerAccount_ok:
  assumes "registerAccount env rnd email response = Inr (cred, blob, answer)"
  obtains prfOutput pubKey where
    "registerCredential (re_auth env) (re_hostname env) (rr_challenge rnd) pubKey = Inr (cred, prfOutput)"
    "wrapMasterKey (re_crypto env) (rr_nonce rnd) (deriveMasterKeyFromPrf (re_crypto env) prfOutput) (rr_masterKey rnd) = Inr blob"
  using assms by (auto simp: registerAccount_def bindE_Inr_iff)

lemma uploadShare_ok:
  assumes "uploadShare env rnd answer b = (Inr share, b')"
  shows "b' = b \<and> (case truthyMember ''client_share'' answer of
      None \<Rightarrow> share = None
    | Some v \<Rightarrow> \<exists>d txt. decodeBase64 (toStringJ (re_showNum env) v) = Inr d \<and> share = Some txt \<and>
        encryptShare (re_crypto env) (rr_shareNonce rnd) (rr_masterKey rnd) d = Inr txt)"
  using assms
  by (auto simp: uploadShare_def updateSSHCAClientShare_def voidResult_def fetchApi_def expireSession_def bindE_Inr_iff liftBase64_def regCrypto_def
      split: option.splits prod.splits sum.splits if_splits)

text \<open>A registration that reached the dashboard, step by step.\<close>

lemma handleRegister_ok:
  assumes "handleRegister env rnd email (p, a, b) = (p', a', b')" and "rp_navigate p = None" and "rp_navigate p' \<noteq> None"
  obtains cred blob answer token response and b1 :: browser where
    "registerAccount env rnd email response = Inr (cred, blob, answer)"
    "rp_credential p' = Some cred" "rp_blob p' = Some blob" "rp_answer p' = Some answer"
    "truthyMember ''token'' answer = Some token"
    "login (re_showNum env) (Some token) (signedInUser email (Some token)) (a, br_storage b1) = (Inr (), a', br_storage b')"
    "uploadShare env rnd answer b' = (Inr (rp_share p'), b')"
proof -
  obtain r b1 where rb: "registerBegin (re_fetch env) email b = (r, b1)" by (cases "registerBegin (re_fetch env) email b")
  from assms rb obtain response where r: "r = Inr response" by (cases r) (auto simp: handleRegister_def failR_def Let_def split: if_splits)
  from assms rb r obtain cred blob answer where ra: "registerAccount env rnd email response = Inr (cred, blob, answer)"
    by (cases "registerAccount env rnd email response") (auto simp: handleRegister_def failR_def Let_def split: if_splits)
  from assms rb r ra obtain token where tk: "truthyMember ''token'' answer = Some token" and nn: "answer \<noteq> JNull"
    by (cases "truthyMember ''token'' answer") (auto simp: handleRegister_def failR_def Let_def split: if_splits)
  obtain q a1 st where lg: "login (re_showNum env) (Some token) (signedInUser email (Some token)) (a, br_storage b1) = (q, a1, st)"
    by (cases "login (re_showNum env) (Some token) (signedInUser email (Some token)) (a, br_storage b1)")
  obtain s b2 where up: "uploadShare env rnd answer (b1\<lparr>br_storage := st\<rparr>) = (s, b2)"
    by (cases "uploadShare env rnd answer (b1\<lparr>br_storage := st\<rparr>)")
  from assms rb r ra tk nn lg up obtain share where q: "q = Inr ()" and s: "s = Inr share"
    and p': "a' = a1" "b' = b2" "rp_credential p' = Some cred" "rp_blob p' = Some blob" "rp_answer p' = Some answer" "rp_share p' = share"
    by (cases q; cases s) (auto simp: handleRegister_def failR_def Let_def split: if_splits)
  from uploadShare_ok [OF up [unfolded s]] have b2: "b2 = b1\<lparr>br_storage := st\<rparr>" by simp
  show ?thesis
    by (rule that [OF ra p'(3-5) tk, of b1]) (use lg up q s p' b2 in auto)
qed

end
