(* ===== verification/Unlock.thy ===== *)
theory Unlock
  imports Registration FrostClient Terminal
begin

text \<open>
  Unlocking SSH: the provider of the FROST client (\<open>web/src/contexts/FROSTContext.tsx\<close>) and the unlock flow of the
  terminal (\<open>handleWebAuthnAuth\<close> of \<open>web/src/components/SSHTerminal.tsx\<close>). The flow asks the passkey for its PRF
  output, fetches the wrapped master keys, unwraps the one of this device, and initialises the FROST worker with
  the client share that registration encrypted under the master key; a certificate request follows. The flow
  is split at its waits for the worker.
\<close>

datatype unlock_stage =
    StInit | StLoginBegin | StWebAuthnGet | StPrfExtract | StFetchMasterKey | StDeriveDecrypt | StInitWorker | StRequestCert

datatype unlock_error =
    UNoUser | UStorage | UCorruptUser | UTypeError | UApi api_error | UWebAuthn wa_error | UCancelled | UNoPrf
  | UNeedsProvision | UNoFrostClient | UClient client_error | UBase64 base64_error | UNoSSHClient

subsection \<open>FROSTContext\<close>

record frost_context =
  fx_client :: "client option"
  fx_isActive :: bool
  fx_remainingTime :: int

definition mountFROST :: frost_context where
  "mountFROST = \<lparr>fx_client = Some newFROSTClient, fx_isActive = False, fx_remainingTime = 0\<rparr>"

text \<open>The poll of every second.\<close>

definition pollFROST :: "frost_context \<Rightarrow> frost_context" where
  "pollFROST fx =
     (case fx_client fx of
        Some c \<Rightarrow> fx\<lparr>fx_isActive := isActiveC c, fx_remainingTime := getRemainingTime c\<rparr>
      | None \<Rightarrow> fx)"

definition configText :: "(jsstring \<Rightarrow> jsstring) \<Rightarrow> string \<Rightarrow> json \<Rightarrow> jsstring" where
  "configText showNum k config = (case jfield (js k) config of Some v \<Rightarrow> toStringJ showNum v | None \<Rightarrow> js ''undefined'')"

definition sshcaConfigOf :: "(jsstring \<Rightarrow> jsstring) \<Rightarrow> json \<Rightarrow> sshca_config" where
  "sshcaConfigOf showNum config =
     \<lparr>sc_public_key = configText showNum ''public_key'' config,
      sc_server_verifying_share = configText showNum ''server_verifying_share'' config,
      sc_client_verifying_share = configText showNum ''client_verifying_share'' config\<rparr>"

definition clientE :: "client_error + 'a \<Rightarrow> unlock_error + 'a" where
  "clientE r = (case r of Inl e \<Rightarrow> Inl (UClient e) | Inr v \<Rightarrow> Inr v)"

text \<open>\<open>initWithShare\<close> with the parsed configuration: the share is decrypted before the configuration is read.\<close>

definition initShare :: "(jsstring \<Rightarrow> jsstring) \<Rightarrow> webcrypto \<Rightarrow> bytes \<Rightarrow> bytes \<Rightarrow> json \<Rightarrow> client \<Rightarrow> unlock_error + (nat \<times> client)" where
  "initShare showNum wc encryptedShare masterKey config c =
     (if config = JNull then bindE (clientE (decryptShare wc encryptedShare masterKey)) (\<lambda>_. Inl UTypeError)
      else clientE (initWithShareDone wc encryptedShare masterKey (sshcaConfigOf showNum config) c))"

text \<open>\<open>initWorker\<close> up to the answer of the worker: the number of the request it waits for.\<close>

definition initWorker ::
  "(jsstring \<Rightarrow> jsstring) \<Rightarrow> server \<Rightarrow> webcrypto \<Rightarrow> bytes \<Rightarrow> frost_context \<times> browser \<Rightarrow> (unlock_error + nat) \<times> frost_context \<times> browser" where
  "initWorker showNum fetch wc masterKey fxb =
     (case fxb of (fx, b) \<Rightarrow>
        (case fx_client fx of
           None \<Rightarrow> (Inl UNoFrostClient, fx, b)
         | Some c \<Rightarrow>
             (case getSSHCAConfig fetch b of
                (Inl e, b1) \<Rightarrow> (Inl (UApi e), fx, b1)
              | (Inr config, b1) \<Rightarrow>
                  (case jfield (js ''client_share'') config of
                     None \<Rightarrow> (Inl UTypeError, fx, b1)
                   | Some share \<Rightarrow>
                       if share = JNull then (Inl UTypeError, fx, b1)
                       else (case decodeBase64 (toStringJ showNum share) of
                               Inl e \<Rightarrow> (Inl (UBase64 e), fx, b1)
                             | Inr encryptedShare \<Rightarrow>
                                 let fx1 = fx\<lparr>fx_client := Some (initWithShareBegin c)\<rparr>
                                 in (case getSSHCAConfig fetch b1 of
                                       (Inl e, b2) \<Rightarrow> (Inl (UApi e), fx1, b2)
                                     | (Inr config', b2) \<Rightarrow>
                                         (case initShare showNum wc encryptedShare masterKey config' (initWithShareBegin c) of
                                            Inl e \<Rightarrow> (Inl e, fx1, b2)
                                          | Inr (i, c') \<Rightarrow> (Inr i, fx1\<lparr>fx_client := Some c'\<rparr>, b2))))))))"

definition initWorkerDone :: "worker_response \<Rightarrow> frost_context \<Rightarrow> (unlock_error + unit) \<times> frost_context" where
  "initWorkerDone response fx =
     (case fx_client fx of
        None \<Rightarrow> (Inl UNoFrostClient, fx)
      | Some c \<Rightarrow>
          (case initWithConfigDone response c of
             Inl e \<Rightarrow> (Inl (UClient e), fx)
           | Inr c' \<Rightarrow> (Inr (), fx\<lparr>fx_client := Some c', fx_isActive := True\<rparr>)))"

definition ensureAliveF :: "frost_context \<Rightarrow> (bool + nat option) \<times> frost_context" where
  "ensureAliveF fx =
     (case fx_client fx of
        None \<Rightarrow> (Inl False, fx)
      | Some c \<Rightarrow> let (i, c') = ensureAlive c in (Inr i, fx\<lparr>fx_client := Some c'\<rparr>))"

definition ensureAliveFDone :: "client_error + worker_response \<Rightarrow> frost_context \<Rightarrow> bool \<times> frost_context" where
  "ensureAliveFDone r fx =
     (case fx_client fx of
        None \<Rightarrow> (False, fx)
      | Some c \<Rightarrow> let (alive, c') = ensureAliveDone r c in (alive, fx\<lparr>fx_client := Some c', fx_isActive := alive\<rparr>))"

definition requestCert ::
  "cert_flow option \<Rightarrow> jsstring option \<Rightarrow> int \<Rightarrow> bytes \<Rightarrow> bytes \<Rightarrow> frost_context \<Rightarrow> unlock_error + (cert_flow \<times> frost_context)" where
  "requestCert current token hostId sk pk fx =
     (case fx_client fx of
        None \<Rightarrow> Inl UNoFrostClient
      | Some c \<Rightarrow>
          (case requestCertificate current token hostId sk pk c of
             Inl e \<Rightarrow> Inl (UClient e)
           | Inr (f, c') \<Rightarrow> Inr (f, fx\<lparr>fx_client := Some c'\<rparr>)))"

text \<open>\<open>terminate\<close> up to the worker's answer, when there is one to wait for, and from there.\<close>

definition terminateF :: "frost_context \<Rightarrow> nat option \<times> frost_context" where
  "terminateF fx =
     (case fx_client fx of
        None \<Rightarrow> (None, fx\<lparr>fx_isActive := False\<rparr>)
      | Some c \<Rightarrow>
          (case terminateC c of
             (None, c') \<Rightarrow> (None, fx\<lparr>fx_client := Some c', fx_remainingTime := 0, fx_isActive := False\<rparr>)
           | (Some i, c') \<Rightarrow> (Some i, fx\<lparr>fx_client := Some c'\<rparr>)))"

definition terminateFDone :: "frost_context \<Rightarrow> unlock_error + frost_context" where
  "terminateFDone fx =
     (case fx_client fx of
        None \<Rightarrow> Inl UNoFrostClient
      | Some c \<Rightarrow>
          (case terminateDone c of
             Inl e \<Rightarrow> Inl (UClient e)
           | Inr c' \<Rightarrow> Inr (fx\<lparr>fx_client := Some c', fx_remainingTime := 0, fx_isActive := False\<rparr>)))"

subsection \<open>handleWebAuthnAuth\<close>

record unlock_env =
  ue_crypto :: webcrypto
  ue_fetch :: server
  ue_auth :: authenticator
  ue_showNum :: "jsstring \<Rightarrow> jsstring"

record unlock_dialog =
  ud_show :: bool
  ud_authenticating :: bool
  ud_error :: "(unlock_stage \<times> unlock_error) option"
  ud_href :: "jsstring option"

text \<open>\<open>loginBegin(user.email)\<close> with whatever the stored user has.\<close>

definition loginBeginFor :: "server \<Rightarrow> json \<Rightarrow> browser \<Rightarrow> (api_error + json) \<times> browser" where
  "loginBeginFor fetch user b =
     fetchApi fetch (js ''/auth/login/begin'') (withBody ''POST'' (JObj (optMember ''email'' (jfield (js ''email'') user)))) b"

text \<open>What \<open>for (const blob of blobs)\<close> runs over, as texts; \<open>None\<close> when it is not iterable.\<close>

definition blobTexts :: "(jsstring \<Rightarrow> jsstring) \<Rightarrow> json \<Rightarrow> jsstring list option" where
  "blobTexts showNum v = (case v of JArr xs \<Rightarrow> Some (map (toStringJ showNum) xs) | JStr s \<Rightarrow> Some (spread s) | _ \<Rightarrow> None)"

definition storedUser :: "storage \<Rightarrow> unlock_error + json" where
  "storedUser st =
     (case getItem (js ''user'') st of
        None \<Rightarrow> Inl UStorage
      | Some u \<Rightarrow> if \<not> truthy u then Inl UNoUser
                  else (case jsonParse (the u) of Some v \<Rightarrow> Inr v | None \<Rightarrow> Inl UCorruptUser))"

text \<open>The passkey ceremony: the credential and its PRF output.\<close>

definition unlockCredential :: "authenticator \<Rightarrow> json \<Rightarrow> (unlock_stage \<times> unlock_error) + (credential \<times> bytes)" where
  "unlockCredential wn options =
     (case unlockOptions options of
        Inl e \<Rightarrow> Inl (StLoginBegin, UWebAuthn e)
      | Inr ro \<Rightarrow>
          (case wn_get wn ro of
             Inl e \<Rightarrow> Inl (StWebAuthnGet, UWebAuthn e)
           | Inr None \<Rightarrow> Inl (StWebAuthnGet, UCancelled)
           | Inr (Some c) \<Rightarrow>
               (case cr_prfFirst c of
                  None \<Rightarrow> Inl (StPrfExtract, UNoPrf)
                | Some out \<Rightarrow> Inr (c, out))))"

definition unlockBlobs :: "unlock_env \<Rightarrow> bytes \<Rightarrow> master_key_answer \<Rightarrow> (unlock_stage \<times> unlock_error) + bytes" where
  "unlockBlobs env prfOutput answer =
     (case blobTexts (ue_showNum env) (mk_blobs answer) of
        None \<Rightarrow> Inl (StDeriveDecrypt, UTypeError)
      | Some blobs \<Rightarrow>
          (case unlockMasterKey (ue_crypto env) (deriveMasterKeyFromPrf (ue_crypto env) prfOutput) blobs of
             None \<Rightarrow> Inl (StDeriveDecrypt, UNeedsProvision)
           | Some masterKey \<Rightarrow> Inr masterKey))"

text \<open>Up to the master key.\<close>

definition unlockMaster :: "unlock_env \<Rightarrow> browser \<Rightarrow> ((unlock_stage \<times> unlock_error) + bytes) \<times> browser" where
  "unlockMaster env b =
     (case storedUser (br_storage b) of
        Inl e \<Rightarrow> (Inl (StInit, e), b)
      | Inr user \<Rightarrow>
          if user = JNull then (Inl (StLoginBegin, UTypeError), b)
          else (case loginBeginFor (ue_fetch env) user b of
             (Inl e, b1) \<Rightarrow> (Inl (StLoginBegin, UApi e), b1)
           | (Inr options, b1) \<Rightarrow>
               (case unlockCredential (ue_auth env) options of
                  Inl e \<Rightarrow> (Inl e, b1)
                | Inr (c, prfOutput) \<Rightarrow>
                    (case encodeBase64URL (cr_rawId c) of
                       Inl e \<Rightarrow> (Inl (StFetchMasterKey, UBase64 e), b1)
                     | Inr credentialId \<Rightarrow>
                         (case getMasterKey (ue_fetch env) (Some credentialId) b1 of
                            (Inl e, b2) \<Rightarrow> (Inl (StFetchMasterKey, UApi e), b2)
                          | (Inr answer, b2) \<Rightarrow> (unlockBlobs env prfOutput answer, b2))))))"

definition unlockBegin :: "unlock_dialog \<Rightarrow> unlock_dialog" where
  "unlockBegin d = d\<lparr>ud_authenticating := True, ud_error := None\<rparr>"

text \<open>The \<open>catch\<close> and the \<open>finally\<close>.\<close>

definition unlockFailed :: "unlock_stage \<times> unlock_error \<Rightarrow> unlock_dialog \<Rightarrow> unlock_dialog" where
  "unlockFailed se d =
     (if snd se = UNeedsProvision
      then d\<lparr>ud_show := False, ud_href := Some (js ''/passkeys/enroll?reason=ssh-provision''), ud_authenticating := False\<rparr>
      else d\<lparr>ud_error := Some se, ud_authenticating := False\<rparr>)"

text \<open>The flow up to the worker's answer.\<close>

definition handleWebAuthnAuth ::
  "unlock_env \<Rightarrow> unlock_dialog \<times> frost_context \<times> browser \<Rightarrow> nat option \<times> unlock_dialog \<times> frost_context \<times> browser" where
  "handleWebAuthnAuth env dfb =
     (case dfb of (d, fx, b) \<Rightarrow>
        let d1 = unlockBegin d
        in (case unlockMaster env b of
              (Inl e, b1) \<Rightarrow> (None, unlockFailed e d1, fx, b1)
            | (Inr masterKey, b1) \<Rightarrow>
                (case initWorker (ue_showNum env) (ue_fetch env) (ue_crypto env) masterKey (fx, b1) of
                   (Inl e, fx1, b2) \<Rightarrow> (None, unlockFailed (StInitWorker, e) d1, fx1, b2)
                 | (Inr i, fx1, b2) \<Rightarrow> (Some i, d1, fx1, b2))))"

text \<open>The worker answered, and then the certificate request.\<close>

definition unlockReady :: "worker_response \<Rightarrow> unlock_dialog \<times> frost_context \<Rightarrow> unlock_dialog \<times> frost_context" where
  "unlockReady response df =
     (case df of (d, fx) \<Rightarrow>
        (case initWorkerDone response fx of
           (Inl e, fx') \<Rightarrow> (unlockFailed (StInitWorker, e) d, fx')
         | (Inr _, fx') \<Rightarrow> (d, fx')))"

definition unlockCertDone ::
  "client_error + (jsstring \<times> bytes) \<Rightarrow> unlock_dialog \<times> terminal \<Rightarrow> unlock_dialog \<times> terminal" where
  "unlockCertDone r dt =
     (case dt of (d, t) \<Rightarrow>
        if \<not> tm_client t then (unlockFailed (StRequestCert, UNoSSHClient) d, t)
        else (case r of
                Inl e \<Rightarrow> (unlockFailed (StRequestCert, UClient e) d, t)
              | Inr (certificate, userPrivateKey) \<Rightarrow>
                  (case encodeBase64 userPrivateKey of
                     Inl e \<Rightarrow> (unlockFailed (StRequestCert, UBase64 e) d, t)
                   | Inr privateKey \<Rightarrow>
                       (d\<lparr>ud_show := False, ud_authenticating := False\<rparr>, called (WResolveCertificate certificate privateKey) t))))"

subsection \<open>Recovering what registration stored\<close>


lemma unlockMasterKey_among:
  assumes "aesgcm_correct w" and "aesgcm_authentic w" and "length prfKey = 32"
    and "\<forall>x\<in>set blobs. \<exists>dk rnd. length dk = 32 \<and> length rnd = 12 \<and> wrapMasterKey w rnd dk mk = Inr x"
    and "length rnd = 12" and "wrapMasterKey w rnd prfKey mk = Inr blob" and "blob \<in> set blobs"
  shows "unlockMasterKey w prfKey blobs = Some mk"
proof -
  have one: "unlockBlob w prfKey x = Inr mk \<or> \<not> isOk (unlockBlob w prfKey x)" if mem: "x \<in> set blobs" for x
  proof -
    obtain dk r where d: "length dk = 32" "length r = 12" "wrapMasterKey w r dk mk = Inr x" using bspec [OF assms(4) mem] by auto
    have "aesgcm_decrypt w prfKey r (aesgcm_encrypt w dk r mk) = (if dk = prfKey then Some mk else None)"
      using assms(1-3) d(1) by (simp add: aesgcm_correct_def aesgcm_authentic_def)
    with unlockBlob_wrapped [OF d(2,1) assms(3) d(3)] show ?thesis by (cases "dk = prfKey") simp_all
  qed
  have "unlockBlob w prfKey blob = Inr mk"
    using unlockBlob_wrapped [OF assms(5,3,3,6)] assms(1,3,5) by (simp add: aesgcm_correct_def)
  then have "unlockMasterKey w prfKey blobs \<noteq> None" using assms(7) by (auto simp: unlockMasterKey_None intro!: bexI [of _ blob])
  then obtain x where x: "unlockMasterKey w prfKey blobs = Some x" by auto
  from unlockMasterKey_sound [OF this] obtain b where "b \<in> set blobs" "unlockBlob w prfKey b = Inr x" by blast
  with one [of b] x show ?thesis by auto
qed

lemma decryptShare_uploaded:
  assumes "aesgcm_correct wc" and "length rnd = 12" and "length mk = 32" and "encryptShare wc rnd mk share = Inr txt"
  obtains enc where "decodeBase64 txt = Inr enc" "decryptShare wc enc mk = Inr share"
proof -
  have t: "txt = b64enc (map unat (rnd @ aesgcm_encrypt wc mk rnd share))" using assms(2-4) by (simp add: encryptShare_eq)
  show ?thesis
    by (rule that [of "rnd @ aesgcm_encrypt wc mk rnd share"])
      (use assms(1-3) in \<open>simp_all add: t decodeBase64_b64enc [of "rnd @ _"] del: map_append, simp add: decryptShare_def slice_def sliceFrom_def decrypt_def aesgcm_correct_def\<close>)
qed

text \<open>What the server and the passkey answer at the unlock: the blob and the share that were uploaded, the blob
  among any others that wrap the same master key.\<close>

definition servesAccount :: "unlock_env \<Rightarrow> browser \<Rightarrow> json \<Rightarrow> bytes \<Rightarrow> bytes \<Rightarrow> jsstring \<Rightarrow> jsstring \<Rightarrow> bool" where
  "servesAccount env b user masterKey rawId blob share \<longleftrightarrow>
     (\<exists>options ro c out cid answer blobs config gk sk ck.
        loginBeginFor (ue_fetch env) user b = (Inr options, b) \<and>
        unlockOptions options = Inr ro \<and> wn_get (ue_auth env) ro = Inr (Some c) \<and> cr_rawId c = rawId \<and> cr_prfFirst c = Some out \<and>
        encodeBase64URL rawId = Inr cid \<and>
        getMasterKey (ue_fetch env) (Some cid) b = (Inr answer, b) \<and> mk_blobs answer = JArr (map JStr blobs) \<and> blob \<in> set blobs \<and>
        (\<forall>x\<in>set blobs. \<exists>dk rnd. length dk = 32 \<and> length rnd = 12 \<and> wrapMasterKey (ue_crypto env) rnd dk masterKey = Inr x) \<and>
        getSSHCAConfig (ue_fetch env) b = (Inr config, b) \<and> jfield (js ''client_share'') config = Some (JStr share) \<and>
        decodeBase64 (configText (ue_showNum env) ''public_key'' config) = Inr gk \<and>
        decodeBase64 (configText (ue_showNum env) ''server_verifying_share'' config) = Inr sk \<and>
        decodeBase64 (configText (ue_showNum env) ''client_verifying_share'' config) = Inr ck)"

lemma blobTexts_strings [simp]: "blobTexts showNum (JArr (map JStr xs)) = Some xs"
  by (simp add: blobTexts_def comp_def)

lemma storedUser_login:
  assumes "login showNum (Some (JStr t)) (signedInUser email (Some (JStr t))) (a, st) = (Inr (), a', st')"
  shows "storedUser st' = Inr (signedInUser email (Some (JStr t)))"
  using login_ok [OF assms] signedInUser_wf [of email t]
  by (simp add: storedUser_def getItem_def usable_def truthy_def stringify_nonempty jsonParse_stringify)

lemma initShare_posts:
  assumes "decryptShare wc enc mk = Inr share" and "config \<noteq> JNull" and "c_worker c = Some h"
    and "decodeBase64 (configText showNum ''public_key'' config) = Inr gk"
    and "decodeBase64 (configText showNum ''server_verifying_share'' config) = Inr sk"
    and "decodeBase64 (configText showNum ''client_verifying_share'' config) = Inr ck"
  obtains i c' where "initShare showNum wc enc mk config c = Inr (i, c')"
    "c_posted c' = c_posted c @ [(h, MInit \<lparr>ip_share = JsU8 share, ip_groupPublicKey = JsU8 gk,
       ip_verifyingShares = Some (JsU8 sk, JsU8 ck), ip_timeoutMs = Some (c_timeoutMs c)\<rparr>)]"
  using assms
  by (auto simp: initShare_def initWithShareDone_def initWithConfig_def clientE_def sshcaConfigOf_def decodeC_def sendToWorker_def Let_def)

lemma registered_wrap:
  assumes "prf_consistent (re_auth env) prf" and "registerAccount env rnd email response = Inr (cred, blob, answer)"
  shows "wrapMasterKey (re_crypto env) (rr_nonce rnd) (deriveMasterKeyFromPrf (re_crypto env) (prf (cr_rawId cred) getPrfSalt)) (rr_masterKey rnd) = Inr blob"
  using registerAccount_ok [OF assms(2)] registerCredential_prf [OF _ assms(1)] by metis

lemma unlockMaster_served:
  assumes "servesAccount env b user mk rawId blob share" and "storedUser (br_storage b) = Inr user" and "user \<noteq> JNull"
    and "aesgcm_correct (ue_crypto env)" and "aesgcm_authentic (ue_crypto env)" and "hkdf_length (ue_crypto env)"
    and "prf_consistent (ue_auth env) prf" and "length rnd = 12"
    and "wrapMasterKey (ue_crypto env) rnd (deriveMasterKeyFromPrf (ue_crypto env) (prf rawId getPrfSalt)) mk = Inr blob"
  shows "unlockMaster env b = (Inr mk, b)"
proof -
  let ?w = "ue_crypto env"
  obtain options ro c out cid answer blobs where s:
      "loginBeginFor (ue_fetch env) user b = (Inr options, b)" "unlockOptions options = Inr ro" "wn_get (ue_auth env) ro = Inr (Some c)"
      "cr_rawId c = rawId" "cr_prfFirst c = Some out" "encodeBase64URL rawId = Inr cid"
      "getMasterKey (ue_fetch env) (Some cid) b = (Inr answer, b)" "mk_blobs answer = JArr (map JStr blobs)" "blob \<in> set blobs"
      "\<forall>x\<in>set blobs. \<exists>dk rnd. length dk = 32 \<and> length rnd = 12 \<and> wrapMasterKey ?w rnd dk mk = Inr x"
    using assms(1) unfolding servesAccount_def by blast
  have out: "out = prf rawId getPrfSalt" using unlockOptions_salt [OF s(2) assms(7) s(3,5)] s(4) by simp
  have "length (deriveMasterKeyFromPrf ?w out) = 32" using assms(6) by (simp add: deriveMasterKeyFromPrf_def hkdf_length_def)
  then have "unlockMasterKey ?w (deriveMasterKeyFromPrf ?w out) blobs = Some mk"
    using unlockMasterKey_among [OF assms(4,5) _ s(10) assms(8) _ s(9)] assms(9) out by simp
  then show ?thesis using s assms(2,3) by (simp add: unlockMaster_def unlockCredential_def unlockBlobs_def)
qed

definition sameDevice :: "reg_env \<Rightarrow> unlock_env \<Rightarrow> bool" where
  "sameDevice r u \<longleftrightarrow> ue_crypto u = re_crypto r \<and> ue_auth u = re_auth r \<and> ue_showNum u = re_showNum r"

definition randomOk :: "reg_random \<Rightarrow> bool" where
  "randomOk rnd \<longleftrightarrow> length (rr_masterKey rnd) = 32 \<and> length (rr_nonce rnd) = 12 \<and> length (rr_shareNonce rnd) = 12"

lemma initWorker_posts:
  assumes "servesAccount env b user mk rawId blob txt" and "decodeBase64 txt = Inr enc" and "decryptShare (ue_crypto env) enc mk = Inr share"
    and "fx_client fx = Some c"
  obtains i fx' c' h payload where
    "initWorker (ue_showNum env) (ue_fetch env) (ue_crypto env) mk (fx, b) = (Inr i, fx', b)" "fx_client fx' = Some c'"
    "c_posted c' = c_posted c @ [(h, MInit payload)]" "ip_share payload = JsU8 share"
proof -
  obtain config gk sk ck where s: "getSSHCAConfig (ue_fetch env) b = (Inr config, b)" "jfield (js ''client_share'') config = Some (JStr txt)"
      "decodeBase64 (configText (ue_showNum env) ''public_key'' config) = Inr gk"
      "decodeBase64 (configText (ue_showNum env) ''server_verifying_share'' config) = Inr sk"
      "decodeBase64 (configText (ue_showNum env) ''client_verifying_share'' config) = Inr ck"
    using assms(1) unfolding servesAccount_def by blast
  have "config \<noteq> JNull" using s(2) by (auto simp: jfield_def)
  obtain h where h: "c_worker (initWithShareBegin c) = Some h" by (cases "c_worker c") (auto simp: initWithShareBegin_def spawnWorker_def)
  obtain i c' where i: "initShare (ue_showNum env) (ue_crypto env) enc mk config (initWithShareBegin c) = Inr (i, c')"
      "c_posted c' = c_posted (initWithShareBegin c) @ [(h, MInit \<lparr>ip_share = JsU8 share, ip_groupPublicKey = JsU8 gk,
         ip_verifyingShares = Some (JsU8 sk, JsU8 ck), ip_timeoutMs = Some (c_timeoutMs (initWithShareBegin c))\<rparr>)]"
    by (rule initShare_posts [OF assms(3) \<open>config \<noteq> JNull\<close> h s(3-5)])
  have "c_posted (initWithShareBegin c) = c_posted c" by (simp add: initWithShareBegin_def spawnWorker_def)
  then show ?thesis
    by (intro that) (use assms(2,4) s(1,2) i in \<open>auto simp: initWorker_def\<close>)
qed

subsection \<open>A concrete account\<close>

definition toy_credential :: credential where
  "toy_credential = \<lparr>cr_id = js ''AQ'', cr_rawId = [1], cr_type = js ''public-key'', cr_prfEnabled = True, cr_prfFirst = Some [5],
     cr_extensions = JObj [], cr_clientData = [], cr_authData = None, cr_signature = [], cr_userHandle = None, cr_attestation = [],
     cr_transports = JArr [], cr_publicKey = None, cr_algorithm = None, cr_attachment = None\<rparr>"

definition toy_authenticator :: authenticator where
  "toy_authenticator = \<lparr>wn_supported = True, wn_create = (\<lambda>co. Inr (Some toy_credential)),
     wn_get = (\<lambda>ro. case ro_allow ro of
                       Some ds \<Rightarrow> if ds \<noteq> [] \<and> [1] \<notin> cd_id ` set ds then Inr None else Inr (Some toy_credential)
                     | None \<Rightarrow> Inr (Some toy_credential))\<rparr>"

definition toy_blob1 :: jsstring where
  "toy_blob1 = b64enc (map unat (0x01 # replicate 12 0 @ replicate 32 5 @ replicate 12 0 @ replicate 32 (9 :: byte)))"

definition toy_share1 :: jsstring where
  "toy_share1 = b64enc (map unat (replicate 12 0 @ replicate 32 9 @ replicate 12 0 @ [7 :: byte]))"

definition toy_registered :: json where
  "toy_registered = JObj [(js ''publicKey'', JObj [(js ''challenge'', JStr []), (js ''rp'', JObj []),
      (js ''user'', JObj [(js ''id'', JStr [])]), (js ''pubKeyCredParams'', JArr [])]),
     (js ''token'', JStr (js ''t'')), (js ''client_share'', JStr (b64enc (map unat [7 :: byte])))]"

definition toy_served :: json where
  "toy_served = JObj [(js ''publicKey'', JObj [(js ''challenge'', JStr [])]), (js ''blobs'', JArr [JStr toy_blob1]),
     (js ''client_share'', JStr toy_share1), (js ''public_key'', JStr []), (js ''server_verifying_share'', JStr []),
     (js ''client_verifying_share'', JStr [])]"

definition answers :: "json \<Rightarrow> server" where
  "answers v q = Some \<lparr>rs_status = 200, rs_content_length = Some (js ''1''), rs_text = stringify v\<rparr>"

definition toy_reg_env :: reg_env where
  "toy_reg_env = \<lparr>re_crypto = toy_webcrypto, re_fetch = answers toy_registered, re_auth = toy_authenticator, re_b64u = (\<lambda>d. []),
     re_hostname = js ''h'', re_showNum = id\<rparr>"

definition toy_random :: reg_random where
  "toy_random = \<lparr>rr_challenge = [], rr_masterKey = replicate 32 9, rr_nonce = replicate 12 0, rr_shareNonce = replicate 12 0\<rparr>"

definition toy_unlock_env :: unlock_env where
  "toy_unlock_env = \<lparr>ue_crypto = toy_webcrypto, ue_fetch = answers toy_served, ue_auth = toy_authenticator, ue_showNum = id\<rparr>"

definition toy_register_page :: register_page where
  "toy_register_page = \<lparr>rp_error = None, rp_loading = False, rp_navigate = None, rp_credential = None, rp_blob = None, rp_answer = None, rp_share = None\<rparr>"

lemma toy_prf: "prf_consistent toy_authenticator (\<lambda>c s. [5])"
  by (auto simp: prf_consistent_def toy_authenticator_def toy_credential_def split: option.splits if_splits)

lemma fetchApi_answers:
  assumes "br_window b" and "ls_available (br_storage b)" and "wfJson v"
  shows "fetchApi (answers v) e opts b = (Inr v, b)"
  using assms by (simp add: fetchApi_def answers_def getToken_def getItem_def readResponse_def rs_ok_def jsonE_def jsonParse_stringify)

lemma toy_wf: "wfJson toy_registered" "wfJson toy_served"
  by (simp_all add: toy_registered_def toy_served_def)

lemma decode_empty: "decodeBase64 [] = Inr []" "decodeBase64URL [] = Inr []"
proof -
  show "decodeBase64 [] = Inr []" using decodeBase64_b64enc [of "[]"] by simp
  then show "decodeBase64URL [] = Inr []" by (simp add: decodeBase64URL_def decodeBase64_def padLoop_eq replaceUnit_def)
qed

lemma toy_options:
  "creationOptions (Some (the (jfield (js ''publicKey'') toy_registered))) = Inr \<lparr>co_challenge = [], co_rp = Some (JObj []), co_userId = [],
     co_userName = None, co_displayName = None, co_params = [], co_timeout = None, co_exclude = None, co_selection = None, co_attestation = None,
     co_prf = \<lparr>prf_eval = Some getPrfSalt, prf_evalByCredential = None\<rparr>\<rparr>"
  by (simp add: creationOptions_def toy_registered_def memberE_def jfield_def base64urlToBuffer_def decode_empty mapArray_def mapArrayOpt_def)

lemma toy_member: "memberE ''publicKey'' (Some toy_registered) = Inr (jfield (js ''publicKey'') toy_registered)"
  "jfield (js ''publicKey'') toy_registered \<noteq> None"
  by (simp_all add: memberE_def toy_registered_def jfield_def)

lemma toy_registerCredential:
  "registerCredential toy_authenticator (js ''h'') [] (jfield (js ''publicKey'') toy_registered) = Inr (toy_credential, [5])"
proof -
  obtain pk where pk: "jfield (js ''publicKey'') toy_registered = Some pk" using toy_member(2) by auto
  have rp: "rpIdOf (js ''h'') (Some (JObj [])) = Inr (Some (JStr (js ''h'')))" by (simp add: rpIdOf_def memberE_def jfield_def)
  show ?thesis using toy_options
    by (simp add: pk rp registerCredential_def toy_authenticator_def prfRequest_def toy_credential_def)
qed

lemma toy_wrap: "wrapMasterKey toy_webcrypto (replicate 12 0) (deriveMasterKeyFromPrf toy_webcrypto [5]) (replicate 32 9) = Inr toy_blob1"
proof -
  have "deriveMasterKeyFromPrf toy_webcrypto [5] = replicate 32 5" by (simp add: toy_webcrypto_def deriveMasterKeyFromPrf_def)
  then show ?thesis by (simp add: wrapMasterKey_eq toy_blob1_def toy_webcrypto_def)
qed

lemma toy_encryptShare: "encryptShare toy_webcrypto (replicate 12 0) (replicate 32 9) [7] = Inr toy_share1"
  by (simp add: encryptShare_eq toy_share1_def toy_webcrypto_def)

lemma toy_registerAccount:
  "registerAccount toy_reg_env toy_random (js ''e'') toy_registered = Inr (toy_credential, toy_blob1, toy_registered)"
  using toy_member(1) toy_registerCredential toy_wrap toy_wf(1)
  by (simp add: registerAccount_def toy_reg_env_def toy_random_def regWa_def regCrypto_def regApi_def registerFinish_def answers_def rs_ok_def jsonE_def
      jsonParse_stringify stringify_nonempty)

definition toy_signed_in :: browser where
  "toy_signed_in = fresh_browser\<lparr>br_storage := empty_storage\<lparr>ls_items := Map.empty(js ''token'' \<mapsto> js ''t'',
     js ''user'' \<mapsto> stringify (signedInUser (js ''e'') (Some (JStr (js ''t'')))))\<rparr>\<rparr>"

lemma toy_usable: "usable empty_storage" "br_window toy_signed_in" "ls_available (br_storage toy_signed_in)"
    "br_window fresh_browser" "ls_available (br_storage fresh_browser)" "br_storage fresh_browser = empty_storage" "ls_items empty_storage = Map.empty"
  by (simp_all add: usable_def empty_storage_def toy_signed_in_def fresh_browser_def)

lemma toy_members: "truthyMember ''token'' toy_registered = Some (JStr (js ''t''))"
    "truthyMember ''client_share'' toy_registered = Some (JStr (b64enc (map unat [7 :: byte])))" "toy_registered \<noteq> JNull"
proof -
  have "b64enc (map unat [7 :: byte]) \<noteq> []" using decodeBase64_b64enc [of "[7]"] decode_empty(1) by auto
  then show "truthyMember ''client_share'' toy_registered = Some (JStr (b64enc (map unat [7 :: byte])))"
    by (simp add: truthyMember_def toy_registered_def jfield_def)
qed (simp_all add: truthyMember_def toy_registered_def jfield_def)

lemma toy_uploadShare: "uploadShare toy_reg_env toy_random toy_registered toy_signed_in = (Inr (Some toy_share1), toy_signed_in)"
  using toy_encryptShare fetchApi_answers [OF toy_usable(2,3) toy_wf(1)] decodeBase64_b64enc [of "[7]"]
  by (simp add: uploadShare_def toy_members(2) toy_reg_env_def toy_random_def regCrypto_def updateSSHCAClientShare_def voidResult_def del: decodeBase64_b64enc)

lemma toy_handleRegister:
  "handleRegister toy_reg_env toy_random (js ''e'') (toy_register_page, signedOut, fresh_browser) =
     (\<lparr>rp_error = None, rp_loading = False, rp_navigate = Some (js ''/dashboard''), rp_credential = Some toy_credential,
       rp_blob = Some toy_blob1, rp_answer = Some toy_registered, rp_share = Some toy_share1\<rparr>,
      \<lparr>au_user = Some (signedInUser (js ''e'') (Some (JStr (js ''t'')))), au_token = Some (JStr (js ''t''))\<rparr>, toy_signed_in)"
proof -
  have "login id (Some (JStr (js ''t''))) (signedInUser (js ''e'') (Some (JStr (js ''t'')))) (signedOut, br_storage fresh_browser) =
      (Inr (), \<lparr>au_user = Some (signedInUser (js ''e'') (Some (JStr (js ''t'')))), au_token = Some (JStr (js ''t''))\<rparr>, br_storage toy_signed_in)"
    using toy_usable(1,6,7) by (simp add: login_eq storedText_def toy_signed_in_def)
  moreover have "registerBegin (re_fetch toy_reg_env) (js ''e'') fresh_browser = (Inr toy_registered, fresh_browser)"
    using fetchApi_answers [OF toy_usable(4,5) toy_wf(1)] by (simp add: registerBegin_def toy_reg_env_def)
  moreover have "fresh_browser\<lparr>br_storage := br_storage toy_signed_in\<rparr> = toy_signed_in" by (simp add: toy_signed_in_def)
  moreover have "re_showNum toy_reg_env = id" "wn_supported (re_auth toy_reg_env)" by (simp_all add: toy_reg_env_def toy_authenticator_def)
  ultimately show ?thesis
    using toy_registerAccount toy_members toy_uploadShare by (simp add: handleRegister_def Let_def toy_register_page_def)
qed

lemma toy_cid: "encodeBase64URL [1] = Inr [65, 81]"
  using encodeBase64_eq [of "[1]"] unfolding encodeBase64_def
  by (simp add: encodeBase64URL_def stripTrailingPad_def replaceUnit_def b64char_def)

lemma toy_query: "\<exists>q. masterKeyQuery (Some [65, 81]) = Some q"
  by (simp add: masterKeyQuery_def encodeURIComponent_def encodePoint_def uriUnreserved_def isHighSurrogate_def isLowSurrogate_def)

lemma toy_servesAccount:
  "servesAccount toy_unlock_env toy_signed_in (signedInUser (js ''e'') (Some (JStr (js ''t'')))) (replicate 32 9) [1] toy_blob1 toy_share1"
proof -
  let ?v = "toy_served"
  note f = fetchApi_answers [OF toy_usable(2,3) toy_wf(2)]
  obtain q where q: "masterKeyQuery (Some [65, 81]) = Some q" using toy_query by blast
  define ro where "ro = \<lparr>ro_challenge = [], ro_timeout = None, ro_rpId = None, ro_userVerification = None, ro_allow = None,
      ro_prf = \<lparr>prf_eval = Some getPrfSalt, prf_evalByCredential = None\<rparr>\<rparr>"
  have o: "unlockOptions toy_served = Inr ro"
    by (simp add: unlockOptions_def toy_served_def memberE_def jfield_def base64urlToBuffer_def decode_empty mapArrayOpt_def buildPrfGetExtension_def prfE_def ro_def)
  have a: "wn_get toy_authenticator ro = Inr (Some toy_credential)" "cr_rawId toy_credential = [1]" "cr_prfFirst toy_credential = Some [5]"
    by (simp_all add: toy_authenticator_def toy_credential_def ro_def)
  have m: "mk_blobs (masterKeyAnswer toy_served) = JArr [JStr toy_blob1]" "jfield (js ''client_share'') toy_served = Some (JStr toy_share1)"
      "configText id ''public_key'' toy_served = []" "configText id ''server_verifying_share'' toy_served = []"
      "configText id ''client_verifying_share'' toy_served = []"
    by (simp_all add: masterKeyAnswer_def toy_served_def jfield_def configText_def)
  have d: "length (deriveMasterKeyFromPrf toy_webcrypto [5]) = 32" "length (replicate 12 (0 :: byte)) = 12"
    by (simp_all add: toy_webcrypto_def deriveMasterKeyFromPrf_def)
  have w: "\<exists>dk. length dk = 32 \<and> (\<exists>rnd. length rnd = 12 \<and> wrapMasterKey toy_webcrypto rnd dk (replicate 32 9) = Inr toy_blob1)"
    using toy_wrap d by blast
  show ?thesis
    unfolding servesAccount_def
    by (rule exI [of _ toy_served], rule exI [of _ ro], rule exI [of _ toy_credential], rule exI [of _ "[5]"], rule exI [of _ "[65, 81]"],
        rule exI [of _ "masterKeyAnswer toy_served"], rule exI [of _ "[toy_blob1]"], rule exI [of _ toy_served])
      (use o toy_cid q f w a m decode_empty in \<open>simp add: loginBeginFor_def getMasterKey_def getSSHCAConfig_def toy_unlock_env_def\<close>)
qed

definition toy_dialog :: unlock_dialog where
  "toy_dialog = \<lparr>ud_show = True, ud_authenticating = False, ud_error = None, ud_href = None\<rparr>"

end
