(* ===== verification/Themes.thy ===== *)
theory Themes
  imports Api Sessions
begin

text \<open>
  The themes (\<open>web/src/lib/themes.ts\<close>) and the provider of the active one (\<open>web/src/contexts/ThemeContext.tsx\<close>). The tables
  are the source's; the document root is the record \<open>root_style\<close>: its custom properties, its \<open>data-theme\<close>, its colour
  scheme and the \<open>theme-color\<close> of the page. An object literal also has the members it inherits from
  \<open>Object.prototype\<close>, which the operator \<open>in\<close> finds.
\<close>

subsection \<open>themes.ts\<close>

record theme_def =
  td_id :: jsstring
  td_label :: jsstring
  td_swatch :: "jsstring list"
  td_themeColor :: jsstring
  td_colorScheme :: jsstring
  td_cssVars :: "(jsstring \<times> jsstring) list"
  td_terminal :: "(jsstring \<times> jsstring) list"

definition DEFAULT_THEME_ID :: jsstring where
  "DEFAULT_THEME_ID = js ''dark-blue''"

definition dark_blue :: theme_def where
  "dark_blue =
     \<lparr>td_id = js ''dark-blue'', td_label = js ''Dark Blue'', td_swatch = [js ''#0b1120'', js ''#3b82f6'', js ''#f8fafc''],
      td_themeColor = js ''#0f172a'', td_colorScheme = js ''dark'',
      td_cssVars = [(js ''--background'', js ''222.2 84% 4.9%''), (js ''--foreground'', js ''210 40% 98%''),
      (js ''--card'', js ''222.2 84% 4.9%''), (js ''--card-foreground'', js ''210 40% 98%''),
      (js ''--popover'', js ''222.2 84% 4.9%''), (js ''--popover-foreground'', js ''210 40% 98%''),
      (js ''--primary'', js ''217.2 91.2% 59.8%''), (js ''--primary-foreground'', js ''222.2 47.4% 11.2%''),
      (js ''--secondary'', js ''217.2 32.6% 17.5%''), (js ''--secondary-foreground'', js ''210 40% 98%''),
      (js ''--muted'', js ''217.2 32.6% 17.5%''), (js ''--muted-foreground'', js ''215 20.2% 65.1%''),
      (js ''--accent'', js ''217.2 32.6% 17.5%''), (js ''--accent-foreground'', js ''210 40% 98%''),
      (js ''--destructive'', js ''0 62.8% 30.6%''), (js ''--destructive-foreground'', js ''210 40% 98%''),
      (js ''--border'', js ''217.2 32.6% 17.5%''), (js ''--input'', js ''217.2 32.6% 17.5%''),
      (js ''--ring'', js ''224.3 76.3% 48%'')],
      td_terminal = [(js ''background'', js ''#1a1a1a''), (js ''foreground'', js ''#ffffff''),
      (js ''cursor'', js ''#ffffff'')]\<rparr>"

definition one_dark :: theme_def where
  "one_dark =
     \<lparr>td_id = js ''one-dark'', td_label = js ''One Dark'', td_swatch = [js ''#282c34'', js ''#61afef'', js ''#abb2bf''],
      td_themeColor = js ''#282c34'', td_colorScheme = js ''dark'',
      td_cssVars = [(js ''--background'', js ''220 13% 18%''), (js ''--foreground'', js ''219 14% 71%''),
      (js ''--card'', js ''220 13% 18%''), (js ''--card-foreground'', js ''219 14% 71%''),
      (js ''--popover'', js ''220 13% 18%''), (js ''--popover-foreground'', js ''219 14% 71%''),
      (js ''--primary'', js ''207 82% 66%''), (js ''--primary-foreground'', js ''220 13% 18%''),
      (js ''--secondary'', js ''220 13% 26%''), (js ''--secondary-foreground'', js ''219 14% 71%''),
      (js ''--muted'', js ''220 13% 26%''), (js ''--muted-foreground'', js ''220 9% 60%''),
      (js ''--accent'', js ''220 13% 26%''), (js ''--accent-foreground'', js ''219 14% 71%''),
      (js ''--destructive'', js ''355 65% 55%''), (js ''--destructive-foreground'', js ''0 0% 98%''),
      (js ''--border'', js ''220 13% 26%''), (js ''--input'', js ''220 13% 26%''),
      (js ''--ring'', js ''207 82% 66%'')],
      td_terminal = [(js ''background'', js ''#282c34''), (js ''foreground'', js ''#abb2bf''),
      (js ''cursor'', js ''#528bff''), (js ''cursorAccent'', js ''#282c34''),
      (js ''selectionBackground'', js ''#3e4451''), (js ''black'', js ''#282c34''),
      (js ''red'', js ''#e06c75''), (js ''green'', js ''#98c379''),
      (js ''yellow'', js ''#d19a66''), (js ''blue'', js ''#61afef''),
      (js ''magenta'', js ''#c678dd''), (js ''cyan'', js ''#56b6c2''),
      (js ''white'', js ''#abb2bf''), (js ''brightBlack'', js ''#5c6370''),
      (js ''brightRed'', js ''#e06c75''), (js ''brightGreen'', js ''#98c379''),
      (js ''brightYellow'', js ''#e5c07b''), (js ''brightBlue'', js ''#61afef''),
      (js ''brightMagenta'', js ''#c678dd''), (js ''brightCyan'', js ''#56b6c2''),
      (js ''brightWhite'', js ''#ffffff'')]\<rparr>"

definition scifi_rts :: theme_def where
  "scifi_rts =
     \<lparr>td_id = js ''scifi-rts'', td_label = js ''SciFi RTS'', td_swatch = [js ''#050a14'', js ''#3cb4ff'', js ''#eaf4ff''],
      td_themeColor = js ''#050a14'', td_colorScheme = js ''dark'',
      td_cssVars = [(js ''--background'', js ''220 60% 4.9%''), (js ''--foreground'', js ''211.4 100% 95.9%''),
      (js ''--card'', js ''219.5 65.5% 11.4%''), (js ''--card-foreground'', js ''211.4 100% 95.9%''),
      (js ''--popover'', js ''219.5 65.5% 11.4%''), (js ''--popover-foreground'', js ''211.4 100% 95.9%''),
      (js ''--primary'', js ''203.1 100% 61.8%''), (js ''--primary-foreground'', js ''213.3 77.1% 6.9%''),
      (js ''--secondary'', js ''217.4 62.9% 19%''), (js ''--secondary-foreground'', js ''214.3 94.6% 92.7%''),
      (js ''--muted'', js ''217.4 62.9% 19%''), (js ''--muted-foreground'', js ''213 36.1% 67.5%''),
      (js ''--accent'', js ''218.6 64.6% 25.5%''), (js ''--accent-foreground'', js ''0 0% 100%''),
      (js ''--destructive'', js ''356.6 65% 42.5%''), (js ''--destructive-foreground'', js ''0 0% 100%''),
      (js ''--border'', js ''215.3 67.3% 31.2%''), (js ''--input'', js ''210.9 72.7% 55.5%''),
      (js ''--ring'', js ''200.2 100% 68%''), (js ''--radius'', js ''0.25rem''),
      (js ''--glow'', js ''203.1 100% 61.8%''), (js ''--cta'', js ''32.6 100% 61.4%''),
      (js ''--cta-foreground'', js ''39.5 100% 92%''), (js ''--cta-top'', js ''28.7 82.5% 26.9%''),
      (js ''--cta-bottom'', js ''26.9 82.7% 15.9%''), (js ''--button-top'', js ''215.3 72.9% 26.1%''),
      (js ''--button-bottom'', js ''218.9 73% 14.5%''), (js ''--success'', js ''139.8 76.9% 74.5%''),
      (js ''--success-surface'', js ''151.3 63.9% 14.1%''), (js ''--success-edge'', js ''144.8 50.4% 49.8%''),
      (js ''--warning'', js ''42.1 100% 77.1%''), (js ''--warning-surface'', js ''40.9 80.5% 16.1%''),
      (js ''--warning-edge'', js ''42.6 77.9% 47.8%'')],
      td_terminal = [(js ''background'', js ''#111d2f''), (js ''foreground'', js ''#9db0c8''),
      (js ''cursor'', js ''#e3b468''), (js ''cursorAccent'', js ''#111d2f''),
      (js ''selectionBackground'', js ''#213a5e''), (js ''black'', js ''#172740''),
      (js ''red'', js ''#e0808b''), (js ''green'', js ''#8fcf9f''),
      (js ''yellow'', js ''#e3c581''), (js ''blue'', js ''#7aaae0''),
      (js ''magenta'', js ''#b99ee0''), (js ''cyan'', js ''#86cfe0''),
      (js ''white'', js ''#9db0c8''), (js ''brightBlack'', js ''#8699b3''),
      (js ''brightRed'', js ''#ea9ea7''), (js ''brightGreen'', js ''#acdfb8''),
      (js ''brightYellow'', js ''#ecd8a2''), (js ''brightBlue'', js ''#9dc3ea''),
      (js ''brightMagenta'', js ''#cdb8ea''), (js ''brightCyan'', js ''#a6dcea''),
      (js ''brightWhite'', js ''#b9c8dc'')]\<rparr>"

definition THEMES :: "(jsstring \<times> theme_def) list" where
  "THEMES = [(js ''dark-blue'', dark_blue), (js ''one-dark'', one_dark), (js ''scifi-rts'', scifi_rts)]"

definition THEME_LIST :: "theme_def list" where
  "THEME_LIST = map snd THEMES"

definition inherited :: "jsstring list" where
  "inherited = map js [''constructor'', ''__defineGetter__'', ''__defineSetter__'', ''hasOwnProperty'', ''__lookupGetter__'',
     ''__lookupSetter__'', ''isPrototypeOf'', ''propertyIsEnumerable'', ''toString'', ''valueOf'', ''__proto__'', ''toLocaleString'']"

definition isThemeId :: "jsstring option \<Rightarrow> bool" where
  "isThemeId v = (case v of None \<Rightarrow> False | Some s \<Rightarrow> s \<noteq> [] \<and> (s \<in> set (map fst THEMES) \<or> s \<in> set inherited))"

record root_style =
  rs_vars :: "jsstring \<rightharpoonup> jsstring"
  rs_dataset :: "jsstring option"
  rs_colorScheme :: "jsstring option"
  rs_themeColor :: "jsstring option"

text \<open>\<open>THEMES[id] ?? THEMES[DEFAULT_THEME_ID]\<close>; \<open>None\<close> is an inherited member, which has no \<open>cssVars\<close>: a \<open>TypeError\<close>.\<close>

definition themeOf :: "jsstring \<Rightarrow> theme_def option" where
  "themeOf i =
     (case map_of THEMES i of
        Some t \<Rightarrow> Some t
      | None \<Rightarrow> if i \<in> set inherited then None else map_of THEMES DEFAULT_THEME_ID)"

definition dropVars :: "theme_def \<Rightarrow> (jsstring \<rightharpoonup> jsstring) \<Rightarrow> jsstring \<rightharpoonup> jsstring" where
  "dropVars t vars =
     fold (\<lambda>theme. fold (\<lambda>(k, v) m. if k \<in> fst ` set (td_cssVars t) then m else m(k := None)) (td_cssVars theme)) THEME_LIST vars"

definition setVars :: "theme_def \<Rightarrow> (jsstring \<rightharpoonup> jsstring) \<Rightarrow> jsstring \<rightharpoonup> jsstring" where
  "setVars t vars = fold (\<lambda>(k, v) m. m(k \<mapsto> v)) (td_cssVars t) vars"

definition applyTheme :: "jsstring \<Rightarrow> root_style \<Rightarrow> root_style option" where
  "applyTheme i r =
     map_option (\<lambda>t. \<lparr>rs_vars = setVars t (dropVars t (rs_vars r)), rs_dataset = Some (td_id t), rs_colorScheme = Some (td_colorScheme t),
                       rs_themeColor = Some (td_themeColor t)\<rparr>) (themeOf i)"

subsection \<open>ThemeContext\<close>

definition STORAGE_KEY :: jsstring where "STORAGE_KEY = js ''theme''"

record theme_context =
  tc_id :: jsstring
  tc_loading :: bool        \<comment> \<open>the answer of \<open>getSettings\<close> is awaited\<close>

text \<open>\<open>None\<close> is an exception of \<open>localStorage\<close>.\<close>

definition initialThemeId :: "storage \<Rightarrow> jsstring option" where
  "initialThemeId st =
     map_option (\<lambda>saved. if isThemeId saved then the saved else DEFAULT_THEME_ID) (getItem STORAGE_KEY st)"

definition mountTheme :: "storage \<Rightarrow> theme_context option" where
  "mountTheme st =
     (case (initialThemeId st, getItem (js ''token'') st) of
        (Some i, Some t) \<Rightarrow> Some \<lparr>tc_id = i, tc_loading = truthy t\<rparr>
      | _ \<Rightarrow> None)"

text \<open>The answer of \<open>getSettings\<close>; \<open>None\<close> when it failed or has no theme that is a string.\<close>

definition settingsLoaded :: "jsstring option \<Rightarrow> theme_context \<times> storage \<Rightarrow> theme_context \<times> storage" where
  "settingsLoaded theme cs =
     (case cs of (c, st) \<Rightarrow>
        if \<not> tc_loading c then (c, st)
        else if \<not> isThemeId theme then (c\<lparr>tc_loading := False\<rparr>, st)
        else (c\<lparr>tc_loading := False, tc_id := the theme\<rparr>, tryStorage (setItem STORAGE_KEY (the theme) st) st))"

text \<open>\<open>setTheme\<close>: the new state, storage, and the theme sent to the server (\<open>None\<close> when storage threw before that).\<close>

definition setTheme :: "jsstring \<Rightarrow> theme_context \<times> storage \<Rightarrow> theme_context \<times> storage \<times> jsstring option" where
  "setTheme i cs =
     (case cs of (c, st) \<Rightarrow>
        (case setItem STORAGE_KEY i st of
           Some st' \<Rightarrow> (c\<lparr>tc_id := i\<rparr>, st', Some i)
         | None \<Rightarrow> (c\<lparr>tc_id := i\<rparr>, st, None)))"

subsection \<open>What a theme leaves on the page\<close>

definition themeVars :: "jsstring set" where
  "themeVars = (\<Union>t\<in>set THEME_LIST. fst ` set (td_cssVars t))"

lemma fold_clear: "fold (\<lambda>(k, v) m. if k \<in> K then m else m(k := None)) kvs m x =
    (if x \<in> fst ` set kvs \<and> x \<notin> K then None else m x)"
  by (induction kvs arbitrary: m) (auto split: if_splits)

lemma fold_themes: "fold (\<lambda>t. fold (\<lambda>(k, v) m. if k \<in> K then m else m(k := None)) (td_cssVars t)) ts m x =
    (if x \<in> (\<Union>t\<in>set ts. fst ` set (td_cssVars t)) \<and> x \<notin> K then None else m x)"
  by (induction ts arbitrary: m) (auto simp: fold_clear)

lemma dropVars_eq: "dropVars t vars x = (if x \<in> themeVars \<and> x \<notin> fst ` set (td_cssVars t) then None else vars x)"
  by (simp add: dropVars_def fold_themes themeVars_def)

lemma fold_set: "distinct (map fst kvs) \<Longrightarrow> fold (\<lambda>(k, v) m. m(k \<mapsto> v)) kvs m x = (case map_of kvs x of Some v \<Rightarrow> Some v | None \<Rightarrow> m x)"
proof (induction kvs arbitrary: m)
  case (Cons kv kvs)
  obtain k v where kv: "kv = (k, v)" by (cases kv)
  have "map_of kvs k = None" using Cons.prems by (simp add: kv map_of_eq_None_iff)
  then show ?case using Cons by (auto simp: kv split: option.split)
qed simp

lemma theme_keys_distinct: "t \<in> set THEME_LIST \<Longrightarrow> distinct (map fst (td_cssVars t))"
  by (auto simp: THEME_LIST_def THEMES_def dark_blue_def one_dark_def scifi_rts_def)

lemma themeOf_mem: "themeOf i = Some t \<Longrightarrow> t \<in> set THEME_LIST"
  by (auto simp: themeOf_def THEME_LIST_def split: option.splits if_splits dest!: map_of_SomeD intro!: image_eqI [of _ snd])

lemma applied_vars:
  assumes "themeOf i = Some t"
  shows "setVars t (dropVars t vars) x = (if x \<in> themeVars then map_of (td_cssVars t) x else vars x)"
proof -
  have d: "distinct (map fst (td_cssVars t))" and m: "t \<in> set THEME_LIST"
    using assms theme_keys_distinct themeOf_mem by blast+
  have "x \<notin> themeVars \<Longrightarrow> map_of (td_cssVars t) x = None"
    using m by (auto simp: themeVars_def map_of_eq_None_iff)
  moreover have "map_of (td_cssVars t) x = None \<longleftrightarrow> x \<notin> fst ` set (td_cssVars t)" by (rule map_of_eq_None_iff)
  ultimately show ?thesis by (auto simp: setVars_def fold_set [OF d] dropVars_eq split: option.splits)
qed

text \<open>A sequence of themes.\<close>

fun applyThemes :: "jsstring list \<Rightarrow> root_style \<Rightarrow> root_style option" where
  "applyThemes [] r = Some r"
| "applyThemes (i # is) r = (case applyTheme i r of None \<Rightarrow> None | Some r1 \<Rightarrow> applyThemes is r1)"

lemma applyThemes_other: "applyThemes is r = Some r' \<Longrightarrow> x \<notin> themeVars \<Longrightarrow> rs_vars r' x = rs_vars r x"
proof (induction "is" r rule: applyThemes.induct)
  case (2 i "is" r)
  then obtain r1 t where "applyTheme i r = Some r1" "applyThemes is r1 = Some r'" "themeOf i = Some t" "rs_vars r1 = setVars t (dropVars t (rs_vars r))"
    by (auto simp: applyTheme_def split: option.splits)
  then show ?case using 2 by (simp add: applied_vars)
qed simp

subsection \<open>Properties\<close>

text \<open>Switching themes leaves nothing behind. After any sequence of themes the page is exactly as if the last one
  had been applied alone: each variable that some theme sets has the value of the last theme, or is unset
  when that theme does not set it, every other property of the root is untouched, and the \<open>data-theme\<close>, the
  colour scheme and the title bar colour are the last theme's.\<close>

theorem applyTheme_history_free:
  assumes "themeOf i = Some t" and "applyThemes is r = Some r'"
  shows "\<exists>r''. applyTheme i r' = Some r'' \<and> applyTheme i r = Some r'' \<and>
    rs_vars r'' = (\<lambda>x. if x \<in> themeVars then map_of (td_cssVars t) x else rs_vars r x) \<and>
    rs_dataset r'' = Some (td_id t) \<and> rs_colorScheme r'' = Some (td_colorScheme t) \<and> rs_themeColor r'' = Some (td_themeColor t)"
proof -
  have "setVars t (dropVars t (rs_vars r')) = setVars t (dropVars t (rs_vars r))"
    "setVars t (dropVars t (rs_vars r)) = (\<lambda>x. if x \<in> themeVars then map_of (td_cssVars t) x else rs_vars r x)"
    using applyThemes_other [OF assms(2)] applied_vars [OF assms(1)] by (auto simp: fun_eq_iff)
  then show ?thesis using assms(1) by (simp add: applyTheme_def)
qed

text \<open>A chosen theme survives a reload.\<close>

theorem theme_survives_reload:
  assumes "usable st" and "isThemeId (Some i)"
  shows "case setTheme i (c, st) of (c', st', sent) \<Rightarrow> tc_id c' = i \<and> initialThemeId st' = Some i \<and> sent = Some i"
  using assms by (simp add: setTheme_def setItem_def usable_def initialThemeId_def getItem_def)

text \<open>A choice made while the settings are loading is overridden by the older setting of the server, also in storage.\<close>

theorem late_settings_override_choice:
  assumes "usable st" and "tc_loading c" and "isThemeId (Some old)"
  shows "case setTheme i (c, st) of (c', st', sent) \<Rightarrow>
    (case settingsLoaded (Some old) (c', st') of (c'', st'') \<Rightarrow> sent = Some i \<and> tc_id c'' = old \<and> initialThemeId st'' = Some old)"
  using assms by (simp add: setTheme_def setItem_def usable_def settingsLoaded_def tryStorage_def initialThemeId_def getItem_def)

text \<open>A stored theme named like an inherited member passes the check and then makes \<open>applyTheme\<close> throw.\<close>

theorem inherited_theme_throws:
  assumes "ls_items st STORAGE_KEY = Some (js ''constructor'')" and "ls_available st"
  shows "initialThemeId st = Some (js ''constructor'') \<and> applyTheme (js ''constructor'') r = None"
  using assms by (simp add: initialThemeId_def getItem_def isThemeId_def inherited_def applyTheme_def themeOf_def THEMES_def)

theorem applyTheme_history_free_witness:
  "\<exists>r''. applyTheme (js ''one-dark'') (the (applyTheme (js ''scifi-rts'') \<lparr>rs_vars = Map.empty, rs_dataset = None, rs_colorScheme = None, rs_themeColor = None\<rparr>)) = Some r'' \<and>
     rs_vars r'' (js ''--radius'') = None"
proof -
  define r where "r = \<lparr>rs_vars = Map.empty, rs_dataset = None, rs_colorScheme = None, rs_themeColor = None :: jsstring option\<rparr>"
  have o: "themeOf (js ''one-dark'') = Some one_dark" "themeOf (js ''scifi-rts'') = Some scifi_rts"
    by (simp_all add: themeOf_def THEMES_def)
  obtain r' where r': "applyTheme (js ''scifi-rts'') r = Some r'" using o(2) by (auto simp: applyTheme_def)
  have k: "map_of (td_cssVars one_dark) (js ''--radius'') = None" by (simp add: one_dark_def)
  obtain r'' where "applyTheme (js ''one-dark'') r' = Some r''"
      "rs_vars r'' = (\<lambda>x. if x \<in> themeVars then map_of (td_cssVars one_dark) x else rs_vars r x)"
    using applyTheme_history_free [OF o(1), of "[js ''scifi-rts'']" r r'] r' by auto
  then show ?thesis unfolding r_def [symmetric] using r' by (simp add: k r_def)
qed

end
