(* ===== verification/NewSession.thy ===== *)
theory NewSession
  imports Terminal
begin

text \<open>
  Starting a session: the dialog (\<open>web/src/components/NewSessionButton.tsx\<close>), the creator that runs
  \<open>devsesh start NAME\<close> in a terminal and waits for the session to appear in the update feed
  (\<open>web/src/components/SessionCreator.tsx\<close>), and the page that shows it (\<open>web/src/pages/NewSessionPage.tsx\<close>).
\<close>

subsection \<open>The dialog\<close>

datatype dialog_error = HostsFailed | NameRequired | HostRequired

record new_dialog =
  nd_hosts :: "host list option"
  nd_hostId :: "int option"        \<comment> \<open>\<open>None\<close> is the empty string\<close>
  nd_name :: jsstring
  nd_error :: "dialog_error option"

definition openDialog :: "int option \<Rightarrow> new_dialog" where
  "openDialog defaultHostId = \<lparr>nd_hosts = None, nd_hostId = defaultHostId, nd_name = [], nd_error = None\<rparr>"

text \<open>The hosts arrived, or loading them failed.\<close>

definition hostsLoaded :: "int option \<Rightarrow> host list option \<Rightarrow> new_dialog \<Rightarrow> new_dialog" where
  "hostsLoaded defaultHostId r d =
     (case r of
        None \<Rightarrow> d\<lparr>nd_error := Some HostsFailed\<rparr>
      | Some h \<Rightarrow>
          d\<lparr>nd_hosts := Some h,
            nd_hostId := (if nd_hostId d \<noteq> None then nd_hostId d
                          else case defaultHostId of Some i \<Rightarrow> Some i | None \<Rightarrow> map_option ho_id (js_nth h 0))\<rparr>)"

definition submitDialog :: "new_dialog \<Rightarrow> new_dialog \<times> (host \<times> jsstring) option" where
  "submitDialog d =
     (let trimmed = trim (nd_name d)
      in if trimmed = [] then (d\<lparr>nd_error := Some NameRequired\<rparr>, None)
         else (case Option.bind (nd_hosts d) (find (\<lambda>h. Some (ho_id h) = nd_hostId d)) of
                 None \<Rightarrow> (d\<lparr>nd_error := Some HostRequired\<rparr>, None)
               | Some h \<Rightarrow> (d, Some (h, trimmed))))"

subsection \<open>SessionCreator\<close>

definition CREATE_TIMEOUT_MS :: int where "CREATE_TIMEOUT_MS = 60000"

record creator =
  nc_host :: host
  nc_name :: jsstring
  nc_done :: bool                  \<comment> \<open>\<open>doneRef\<close>\<close>
  nc_timer :: "int option"         \<comment> \<open>due time of the timeout\<close>
  nc_mounted :: bool
  nc_now :: int
  nc_created :: "session list"     \<comment> \<open>calls of \<open>onCreated\<close>\<close>
  nc_errors :: nat                 \<comment> \<open>calls of \<open>onError\<close>\<close>

definition mountCreator :: "host \<Rightarrow> jsstring \<Rightarrow> int \<Rightarrow> creator" where
  "mountCreator h name now =
     \<lparr>nc_host = h, nc_name = name, nc_done = False, nc_timer = Some (now + CREATE_TIMEOUT_MS), nc_mounted = True, nc_now = now,
      nc_created = [], nc_errors = 0\<rparr>"

definition creatorUpdate :: "session_update \<Rightarrow> creator \<Rightarrow> creator" where
  "creatorUpdate u c =
     (if nc_done c then c
      else if matchesNewSession u (ho_id (nc_host c)) (nc_name c)
           then c\<lparr>nc_done := True, nc_created := nc_created c @ [the (su_session u)]\<rparr> else c)"

definition creatorTimeout :: "creator \<Rightarrow> creator" where
  "creatorTimeout c0 =
     (let c = c0\<lparr>nc_timer := None\<rparr>
      in if nc_done c then c else c\<lparr>nc_done := True, nc_errors := Suc (nc_errors c)\<rparr>)"

text \<open>A render with other props; when \<open>onError\<close> is a new function the effect starts a new timeout.\<close>

definition creatorProps :: "host \<Rightarrow> jsstring \<Rightarrow> bool \<Rightarrow> creator \<Rightarrow> creator" where
  "creatorProps h name newOnError c =
     (let c1 = c\<lparr>nc_host := h, nc_name := name\<rparr>
      in if newOnError then c1\<lparr>nc_timer := Some (nc_now c + CREATE_TIMEOUT_MS)\<rparr> else c1)"

definition unmountCreator :: "creator \<Rightarrow> creator" where
  "unmountCreator c = c\<lparr>nc_mounted := False, nc_timer := None\<rparr>"

datatype creator_event = CeUpdate session_update | CeTimeout | CeProps host jsstring bool | CeTime int | CeUnmount

text \<open>Time does not pass a pending timeout.\<close>

fun creatorStep :: "creator_event \<Rightarrow> creator \<Rightarrow> creator option" where
  "creatorStep (CeUpdate u) c = (if nc_mounted c then Some (creatorUpdate u c) else None)"
| "creatorStep CeTimeout c = (case nc_timer c of Some due \<Rightarrow> if due \<le> nc_now c then Some (creatorTimeout c) else None | None \<Rightarrow> None)"
| "creatorStep (CeProps h name newOnError) c = (if nc_mounted c then Some (creatorProps h name newOnError c) else None)"
| "creatorStep (CeTime d) c =
     (if 0 \<le> d \<and> (case nc_timer c of Some due \<Rightarrow> nc_now c + d \<le> due | None \<Rightarrow> True) then Some (c\<lparr>nc_now := nc_now c + d\<rparr>) else None)"
| "creatorStep CeUnmount c = (if nc_mounted c then Some (unmountCreator c) else None)"

inductive cstep :: "creator \<Rightarrow> creator \<Rightarrow> bool" where
  "creatorStep e c = Some c' \<Longrightarrow> cstep c c'"

inductive_cases cstepE: "cstep c c'"

definition creatorInit :: "creator \<Rightarrow> bool" where
  "creatorInit c \<longleftrightarrow> (\<exists>h name now. c = mountCreator h name now)"

definition creatorInv :: "creator \<Rightarrow> bool" where
  "creatorInv c \<longleftrightarrow>
     length (nc_created c) + nc_errors c = (if nc_done c then 1 else 0) \<and>
     (nc_mounted c \<and> \<not> nc_done c \<longrightarrow> nc_timer c \<noteq> None) \<and>
     (\<forall>due. nc_timer c = Some due \<longrightarrow> nc_now c \<le> due \<and> due \<le> nc_now c + 60000) \<and>
     (\<not> nc_mounted c \<longrightarrow> nc_timer c = None)"

lemma creatorStep_inv: "creatorInv c \<Longrightarrow> creatorStep e c = Some c' \<Longrightarrow> creatorInv c'"
  by (cases e) (auto simp: creatorInv_def creatorUpdate_def creatorTimeout_def creatorProps_def unmountCreator_def CREATE_TIMEOUT_MS_def Let_def
      split: if_splits option.splits)

interpretation creator_system: invariant_system creatorInit cstep creatorInv
proof
  fix c assume "creatorInit c"
  then show "creatorInv c" by (auto simp: creatorInit_def mountCreator_def creatorInv_def CREATE_TIMEOUT_MS_def)
next
  fix c c' assume "creatorInv c" "cstep c c'"
  then show "creatorInv c'" by (auto elim!: cstepE intro: creatorStep_inv)
qed

subsection \<open>NewSessionPage\<close>

record new_session_page =
  np_status :: conn_status
  np_error :: jsstring
  np_navigate :: "jsstring option"

text \<open>Without a host and a name in the history state the page goes back to the dashboard and shows nothing.\<close>

definition mountNewSession :: "host option \<Rightarrow> jsstring option \<Rightarrow> new_session_page" where
  "mountNewSession h name =
     \<lparr>np_status = Connecting, np_error = [], np_navigate = (if h = None \<or> \<not> truthy name then Some (js ''/dashboard'') else None)\<rparr>"

definition newSessionCreated :: "session \<Rightarrow> new_session_page \<Rightarrow> new_session_page" where
  "newSessionCreated s p = p\<lparr>np_navigate := Some (js ''/sessions/'' @ se_id s)\<rparr>"

definition newSessionError :: "jsstring \<Rightarrow> new_session_page \<Rightarrow> new_session_page" where
  "newSessionError message p = p\<lparr>np_error := message\<rparr>"

definition headline :: "new_session_page \<Rightarrow> jsstring" where
  "headline p = (if np_error p \<noteq> [] then js ''Error'' else if np_status p = Connected then js ''Starting session'' @ [0x2026] else js ''Connecting'' @ [0x2026])"

subsection \<open>Properties\<close>


text \<open>What the dialog submits is a host of the list and a name without surrounding white space, which the
  terminal's command passes to \<open>devsesh start\<close> as one word.\<close>

theorem submitted_session:
  assumes "submitDialog d = (d', Some (h, name))"
  shows "(\<exists>hs. nd_hosts d = Some hs \<and> h \<in> set hs) \<and> Some (ho_id h) = nd_hostId d \<and> name = trim (nd_name d) \<and> name \<noteq> [] \<and>
    shellWords (startCommand name) = Some [js ''devsesh'', js ''start'', name]"
proof -
  obtain hs where hs: "nd_hosts d = Some hs" "find (\<lambda>h. Some (ho_id h) = nd_hostId d) hs = Some h" "name = trim (nd_name d)" "name \<noteq> []"
    using assms by (auto simp: submitDialog_def Let_def bind_eq_Some_conv split: if_split_asm option.split_asm)
  have "h \<in> set hs \<and> Some (ho_id h) = nd_hostId d" using hs(2) by (auto simp: find_Some_iff)
  then show ?thesis using hs(1,3,4) startCommand_words [of name] by simp
qed

text \<open>The dashboard mounts one creator and does not remount it for a second session: the terminal has consumed its
  restart intent, and attaches to a session that does not exist instead of starting it.\<close>

theorem second_session_attaches:
  assumes "tm_statusRef t = Connected" and "tm_status t = Connected" and "tm_client t" and "\<not> tm_pendingRestart t" and "tm_ready t"
    and "tm_host t = Some h" and "tm_connectDeps t = Some (connectDepsOf t)" and "tm_sessionName t \<noteq> name"
    and "tm_attachDeps t = Some (attachDepsOf t)"
  shows "tm_calls (setProps (Some (Some h)) name t) = tm_calls t @ [WExec (showInt (ho_id h)) (attachCommand name)]"
  using assms
  by (simp add: setProps_def commit_def connectEffect_def connectDepsOf_def attachEffect_def attachDepsOf_def hostKeyOf_def called_def)

definition toy_new_host :: host where
  "toy_new_host = \<lparr>ho_id = 1, ho_label = [], ho_hostname = [], ho_ssh_user = [], ho_ssh_port = 22, ho_ssh_principal = []\<rparr>"


end
