(* ===== verification/SshClient.thy ===== *)
theory SshClient
  imports Terminal
begin

text \<open>
  Loading and sharing of the wasm client (\<open>web/src/lib/ssh-client.ts\<close>). The Go program is one per page: \<open>goInstance\<close> is a
  variable of the module, the functions it exports are on \<open>window\<close>, and there is one callback of each kind, so that
  the instances of \<open>SSHClient\<close> compete for its events. \<open>init\<close> is split at its awaits. \<open>ss_emitted\<close> records every
  \<open>emit\<close> with the instance and the listeners it called.
\<close>

subsection \<open>State\<close>

text \<open>The awaits of \<open>init\<close>: two scripts, the module's bytes, its instantiation, and a pause of 100 ms.\<close>

datatype init_stage = AwaitScript | AwaitScript2 | AwaitFetch | AwaitInstantiate | AwaitPause

record ssh_instance =
  si_ready :: bool                  \<comment> \<open>\<open>wasmReady\<close>\<close>
  si_conn :: conn_status            \<comment> \<open>\<open>status\<close>\<close>
  si_stage :: "init_stage option"
  si_events :: "nat emitter"        \<comment> \<open>listeners, numbered\<close>

record ssh_system =
  ss_go :: bool                     \<comment> \<open>\<open>goInstance\<close> is set\<close>
  ss_exports :: bool                \<comment> \<open>the Go program has put its functions on \<open>window\<close>\<close>
  ss_receiver :: "nat option"       \<comment> \<open>whose callbacks are installed\<close>
  ss_instances :: "ssh_instance list"
  ss_deferred :: "nat list"         \<comment> \<open>outputs waiting in \<open>setTimeout\<close>, by instance\<close>
  ss_emitted :: "(nat \<times> jsstring \<times> nat list) list"

datatype init_result = InitPending | InitDone | InitFailed

definition newInstance :: ssh_instance where
  "newInstance = \<lparr>si_ready = False, si_conn = Disconnected, si_stage = None, si_events = (\<lambda>e. [])\<rparr>"

definition updInstance :: "nat \<Rightarrow> (ssh_instance \<Rightarrow> ssh_instance) \<Rightarrow> ssh_system \<Rightarrow> ssh_system" where
  "updInstance i f s = s\<lparr>ss_instances := (ss_instances s)[i := f (ss_instances s ! i)]\<rparr>"

subsection \<open>init\<close>

text \<open>\<open>setupCallbacks\<close>: without the exports the first call is a \<open>TypeError\<close>.\<close>

definition setupCallbacks :: "nat \<Rightarrow> ssh_system \<Rightarrow> init_result \<times> ssh_system" where
  "setupCallbacks i s = (if ss_exports s then (InitDone, s\<lparr>ss_receiver := Some i\<rparr>) else (InitFailed, s))"

definition setReady :: "nat \<Rightarrow> ssh_system \<Rightarrow> ssh_system" where
  "setReady i s = updInstance i (\<lambda>c. c\<lparr>si_ready := True, si_stage := None\<rparr>) s"

definition initBegin :: "nat \<Rightarrow> ssh_system \<Rightarrow> init_result \<times> ssh_system" where
  "initBegin i s =
     (if ss_go s then setupCallbacks i (setReady i s)
      else (InitPending, updInstance i (\<lambda>c. c\<lparr>si_stage := Some AwaitScript\<rparr>) s))"

text \<open>An await of \<open>init\<close> settles. \<open>goInstance\<close> is assigned after the second script, before anything is fetched; the
  program puts its functions on \<open>window\<close> when it is run, after the instantiation.\<close>

definition initStep :: "bool \<Rightarrow> nat \<Rightarrow> ssh_system \<Rightarrow> init_result \<times> ssh_system" where
  "initStep ok i s =
     (case si_stage (ss_instances s ! i) of
        None \<Rightarrow> (InitDone, s)
      | Some stage \<Rightarrow>
          if \<not> ok then (InitFailed, updInstance i (\<lambda>c. c\<lparr>si_stage := None\<rparr>) s)
          else (case stage of
             AwaitScript \<Rightarrow> (InitPending, updInstance i (\<lambda>c. c\<lparr>si_stage := Some AwaitScript2\<rparr>) s)
           | AwaitScript2 \<Rightarrow> (InitPending, (updInstance i (\<lambda>c. c\<lparr>si_stage := Some AwaitFetch\<rparr>) s)\<lparr>ss_go := True\<rparr>)
           | AwaitFetch \<Rightarrow> (InitPending, updInstance i (\<lambda>c. c\<lparr>si_stage := Some AwaitInstantiate\<rparr>) s)
           | AwaitInstantiate \<Rightarrow> (InitPending, (updInstance i (\<lambda>c. c\<lparr>si_stage := Some AwaitPause\<rparr>) s)\<lparr>ss_exports := True\<rparr>)
           | AwaitPause \<Rightarrow> setupCallbacks i (setReady i s)))"

text \<open>The Go program exited or crashed: only the instance that started it learns of it.\<close>

definition programExited :: "nat \<Rightarrow> ssh_system \<Rightarrow> ssh_system" where
  "programExited i s = updInstance i (\<lambda>c. c\<lparr>si_ready := False\<rparr>) s"

definition detach :: "ssh_system \<Rightarrow> ssh_system" where
  "detach s = (if ss_exports s then s\<lparr>ss_receiver := None\<rparr> else s)"

subsection \<open>Events of the program\<close>

definition emitOn :: "nat \<Rightarrow> jsstring \<Rightarrow> ssh_system \<Rightarrow> ssh_system" where
  "emitOn i event s = s\<lparr>ss_emitted := ss_emitted s @ [(i, event, emitterEmit event (si_events (ss_instances s ! i)))]\<rparr>"

datatype go_event = GoPassword | GoOutput | GoStatus conn_status | GoCertificate | GoCertFailed

fun eventName :: "go_event \<Rightarrow> jsstring" where
  "eventName GoPassword = js ''password-request''"
| "eventName GoOutput = js ''output''"
| "eventName (GoStatus st) = js ''status''"
| "eventName GoCertificate = js ''certificate-request''"
| "eventName GoCertFailed = js ''certificate-auth-failed''"

text \<open>The callbacks. Output is emitted from a \<open>setTimeout\<close>.\<close>

definition goEvent :: "go_event \<Rightarrow> ssh_system \<Rightarrow> ssh_system" where
  "goEvent e s =
     (case ss_receiver s of
        None \<Rightarrow> s
      | Some i \<Rightarrow>
          (case e of
             GoOutput \<Rightarrow> s\<lparr>ss_deferred := ss_deferred s @ [i]\<rparr>
           | GoStatus st \<Rightarrow> emitOn i (eventName e) (updInstance i (\<lambda>c. c\<lparr>si_conn := st\<rparr>) s)
           | _ \<Rightarrow> emitOn i (eventName e) s))"

definition runDeferred :: "ssh_system \<Rightarrow> ssh_system" where
  "runDeferred s =
     (case ss_deferred s of [] \<Rightarrow> s | i # is \<Rightarrow> emitOn i (js ''output'') (s\<lparr>ss_deferred := is\<rparr>))"

subsection \<open>Calls\<close>

text \<open>\<open>connect\<close> with its guards, and the calls that also keep \<open>status\<close>.\<close>

definition connectI :: "nat \<Rightarrow> browser \<Rightarrow> jsstring \<Rightarrow> int \<Rightarrow> jsstring \<Rightarrow> ssh_system \<Rightarrow> (ssh_error + wasm_call) \<times> ssh_system" where
  "connectI i b hostKey hostId user s =
     (case sshConnectCall (si_ready (ss_instances s ! i)) b hostKey hostId user of
        Inl e \<Rightarrow> (Inl e, s)
      | Inr c \<Rightarrow> (Inr c, updInstance i (\<lambda>c. c\<lparr>si_conn := Connecting\<rparr>) s))"

definition disconnectI :: "nat \<Rightarrow> ssh_system \<Rightarrow> ssh_system" where
  "disconnectI i s = (if ss_exports s then updInstance i (\<lambda>c. c\<lparr>si_conn := Disconnected\<rparr>) s else s)"

definition onI :: "nat \<Rightarrow> jsstring \<Rightarrow> nat \<Rightarrow> ssh_system \<Rightarrow> ssh_system" where
  "onI i event callback s = updInstance i (\<lambda>c. c\<lparr>si_events := emitterOn event callback (si_events c)\<rparr>) s"

subsection \<open>Runs\<close>

datatype ssh_event =
    SsNew | SsInit nat | SsInitStep bool nat | SsExited nat | SsDetach | SsGo go_event | SsDeferred
  | SsDisconnect nat | SsOn nat jsstring nat

text \<open>The program calls its callbacks once it runs.\<close>

fun sshEvent :: "ssh_event \<Rightarrow> ssh_system \<Rightarrow> ssh_system" where
  "sshEvent SsNew s = s\<lparr>ss_instances := ss_instances s @ [newInstance]\<rparr>"
| "sshEvent (SsInit i) s = (if i < length (ss_instances s) then snd (initBegin i s) else s)"
| "sshEvent (SsInitStep ok i) s = (if i < length (ss_instances s) then snd (initStep ok i s) else s)"
| "sshEvent (SsExited i) s = (if i < length (ss_instances s) then programExited i s else s)"
| "sshEvent SsDetach s = detach s"
| "sshEvent (SsGo e) s = (if ss_exports s then goEvent e s else s)"
| "sshEvent SsDeferred s = runDeferred s"
| "sshEvent (SsDisconnect i) s = (if i < length (ss_instances s) then disconnectI i s else s)"
| "sshEvent (SsOn i event callback) s = (if i < length (ss_instances s) then onI i event callback s else s)"

definition emptySystem :: ssh_system where
  "emptySystem = \<lparr>ss_go = False, ss_exports = False, ss_receiver = None, ss_instances = [], ss_deferred = [], ss_emitted = []\<rparr>"

inductive sshStep :: "ssh_system \<Rightarrow> ssh_system \<Rightarrow> bool" where
  "sshStep s (sshEvent e s)"

inductive_cases sshStepE: "sshStep s t"

text \<open>The receiver exists and the exports are there; the instance that is being loaded past the second script
  has set \<open>goInstance\<close>.\<close>

definition sshInv :: "ssh_system \<Rightarrow> bool" where
  "sshInv s \<longleftrightarrow>
     (\<forall>i. ss_receiver s = Some i \<longrightarrow> i < length (ss_instances s) \<and> ss_exports s) \<and>
     (ss_exports s \<longrightarrow> ss_go s) \<and>
     (\<forall>i < length (ss_instances s). si_stage (ss_instances s ! i) \<in> {Some AwaitFetch, Some AwaitInstantiate, Some AwaitPause} \<longrightarrow> ss_go s) \<and>
     (\<forall>i < length (ss_instances s). si_stage (ss_instances s ! i) = Some AwaitPause \<longrightarrow> ss_exports s) \<and>
     (\<forall>i \<in> set (ss_deferred s). i < length (ss_instances s))"

lemma updInstance_fields [simp]:
  "ss_go (updInstance i f s) = ss_go s" "ss_exports (updInstance i f s) = ss_exports s" "ss_receiver (updInstance i f s) = ss_receiver s"
  "ss_deferred (updInstance i f s) = ss_deferred s" "ss_emitted (updInstance i f s) = ss_emitted s"
  "length (ss_instances (updInstance i f s)) = length (ss_instances s)"
  "j < length (ss_instances s) \<Longrightarrow> ss_instances (updInstance i f s) ! j = (if i = j then f (ss_instances s ! j) else ss_instances s ! j)"
  by (simp_all add: updInstance_def nth_list_update)

lemma sshInv_step:
  assumes "sshInv s" shows "sshInv (sshEvent e s)"
proof (cases e)
  case SsNew
  then show ?thesis using assms by (auto simp: sshInv_def newInstance_def nth_append less_Suc_eq)
next
  case (SsInit i)
  then show ?thesis using assms by (auto simp: sshInv_def initBegin_def setupCallbacks_def setReady_def)
next
  case (SsInitStep ok i)
  then show ?thesis using assms
    by (cases "si_stage (ss_instances s ! i)")
      (auto simp: sshInv_def initStep_def setupCallbacks_def setReady_def split: init_stage.splits)
next
  case (SsGo g)
  then show ?thesis using assms
    by (cases g) (auto simp: sshInv_def goEvent_def emitOn_def split: option.splits)
next
  case SsDeferred
  then show ?thesis using assms by (auto simp: sshInv_def runDeferred_def emitOn_def split: list.splits)
qed (use assms in \<open>auto simp: sshInv_def programExited_def detach_def disconnectI_def onI_def\<close>)

interpretation ssh_module: invariant_system "\<lambda>s. s = emptySystem" sshStep sshInv
proof
  fix s :: ssh_system assume "s = emptySystem"
  then show "sshInv s" by (simp add: sshInv_def emptySystem_def)
next
  fix s t assume "sshInv s" "sshStep s t"
  then show "sshInv t" by (auto elim!: sshStepE intro: sshInv_step)
qed

fun runSsh :: "ssh_event list \<Rightarrow> ssh_system \<Rightarrow> ssh_system" where
  "runSsh [] s = s"
| "runSsh (e # es) s = runSsh es (sshEvent e s)"

text \<open>Events that may install callbacks.\<close>

fun mayInstall :: "ssh_event \<Rightarrow> bool" where
  "mayInstall (SsInit i) = True"
| "mayInstall (SsInitStep ok i) = True"
| "mayInstall e = False"

definition notOutput :: "nat \<times> jsstring \<times> nat list \<Rightarrow> bool" where
  "notOutput x \<longleftrightarrow> fst (snd x) \<noteq> js ''output''"

lemma silent_step:
  assumes "ss_receiver s = None" and "\<not> mayInstall e"
  shows "ss_receiver (sshEvent e s) = None" "filter notOutput (ss_emitted (sshEvent e s)) = filter notOutput (ss_emitted s)"
    "\<exists>k. ss_deferred (sshEvent e s) = drop k (ss_deferred s)"
proof -
  have id: "\<exists>k. ss_deferred s = drop k (ss_deferred s)" by (rule exI [of _ 0]) simp
  show "ss_receiver (sshEvent e s) = None" "filter notOutput (ss_emitted (sshEvent e s)) = filter notOutput (ss_emitted s)"
    using assms
    by (cases e; auto simp: goEvent_def runDeferred_def emitOn_def notOutput_def programExited_def detach_def disconnectI_def onI_def split: list.split)+
  show "\<exists>k. ss_deferred (sshEvent e s) = drop k (ss_deferred s)"
    using assms id
    by (cases e; auto simp: goEvent_def runDeferred_def emitOn_def programExited_def detach_def disconnectI_def onI_def split: list.split intro: exI [of _ 1])
qed

lemma silent_run:
  assumes "ss_receiver s = None" and "list_all (\<lambda>e. \<not> mayInstall e) es"
  shows "ss_receiver (runSsh es s) = None \<and> filter notOutput (ss_emitted (runSsh es s)) = filter notOutput (ss_emitted s) \<and>
    (\<exists>k. ss_deferred (runSsh es s) = drop k (ss_deferred s))"
  using assms
proof (induction es s rule: runSsh.induct)
  case (2 e es s)
  from 2 silent_step [of s e] obtain k where k: "ss_deferred (sshEvent e s) = drop k (ss_deferred s)" by auto
  from 2 silent_step [of s e] show ?case by (auto simp: k add.commute)
qed (auto intro: exI [of _ 0])

subsection \<open>Properties\<close>


text \<open>\<open>goInstance\<close> is set before the module is fetched: when that fails once, every later \<open>init\<close> takes the shortcut and
  fails, although it marks its instance ready.\<close>

theorem failed_load_is_permanent:
  assumes "ss_go s" and "\<not> ss_exports s" and "i < length (ss_instances s)"
  shows "fst (initBegin i s) = InitFailed \<and> si_ready (ss_instances (snd (initBegin i s)) ! i) \<and>
    ss_go (snd (initBegin i s)) \<and> \<not> ss_exports (snd (initBegin i s))"
  using assms by (simp add: initBegin_def setupCallbacks_def setReady_def)

definition toy_loaded :: ssh_system where
  "toy_loaded = runSsh [SsNew, SsInit 0, SsInitStep True 0, SsInitStep True 0, SsInitStep True 0, SsInitStep True 0, SsInitStep True 0, SsGo (GoStatus Connected)] emptySystem"

lemma runSsh_reach: "reach P sshStep s \<Longrightarrow> reach P sshStep (runSsh es s)"
  by (induction es s rule: runSsh.induct) (auto intro: reach_step sshStep.intros)


end
