(* ===== verification/KeyPanel.thy ===== *)
theory KeyPanel
  imports Complex_Main QuickKeysStore
begin

text \<open>
  The quick-key overlay (\<open>web/src/components/QuickKeysOverlay.tsx\<close>) and the pills of the session's top bar
  (\<open>web/src/components/SessionTopBar.tsx\<close>). The builder tab makes a spec step by step and hands it to the store
  (theory \<open>QuickKeysStore\<close>), the send tab reads a stored spec back, the manage tab moves keys, and the top bar shows
  the pinned keys that fit. \<open>specOfJson\<close> is how \<open>encodeSpec\<close> sees a parsed value: \<open>None\<close> when it is not a list of steps.
\<close>

subsection \<open>Specs as JSON\<close>

text \<open>The object literals of \<open>addStep\<close>.\<close>

fun stepJson :: "quick_key_step \<Rightarrow> json" where
  "stepJson (Combo ctrl alt shift key) =
     JObj [(js ''type'', JStr (js ''combo'')), (js ''ctrl'', JBool ctrl), (js ''alt'', JBool alt), (js ''shift'', JBool shift), (js ''key'', JStr key)]"
| "stepJson (Literal txt enter) =
     JObj [(js ''type'', JStr (js ''literal'')), (js ''text'', JStr txt), (js ''enter'', JBool enter)]"

definition specJson :: "quick_key_step list \<Rightarrow> json" where
  "specJson steps = JArr (map stepJson steps)"

definition boolField :: "string \<Rightarrow> json \<Rightarrow> bool option" where
  "boolField k v = (case jfield (js k) v of Some (JBool b) \<Rightarrow> Some b | _ \<Rightarrow> None)"

definition strField :: "string \<Rightarrow> json \<Rightarrow> jsstring option" where
  "strField k v = (case jfield (js k) v of Some (JStr s) \<Rightarrow> Some s | _ \<Rightarrow> None)"

definition stepOfJson :: "json \<Rightarrow> quick_key_step option" where
  "stepOfJson v =
     (if strField ''type'' v = Some (js ''literal'') then
        (case (strField ''text'' v, boolField ''enter'' v) of (Some t, Some e) \<Rightarrow> Some (Literal t e) | _ \<Rightarrow> None)
      else
        (case (boolField ''ctrl'' v, boolField ''alt'' v, boolField ''shift'' v, strField ''key'' v) of
           (Some c, Some a, Some s, Some k) \<Rightarrow> Some (Combo c a s k)
         | _ \<Rightarrow> None))"

fun stepsOfJson :: "json list \<Rightarrow> quick_key_step list option" where
  "stepsOfJson [] = Some []"
| "stepsOfJson (v # vs) =
     (case (stepOfJson v, stepsOfJson vs) of (Some s, Some ss) \<Rightarrow> Some (s # ss) | _ \<Rightarrow> None)"

definition specOfJson :: "json \<Rightarrow> quick_key_step list option" where
  "specOfJson v = (case v of JArr vs \<Rightarrow> stepsOfJson vs | _ \<Rightarrow> None)"

subsection \<open>Builder tab\<close>

definition BASE_KEYS :: "jsstring list" where
  "BASE_KEYS =
     map (\<lambda>n. [word_of_nat n]) [97..<123] @ map (\<lambda>n. [word_of_nat n]) [48..<58] @
     [js ''escape'', js ''tab'', js ''up'', js ''down'', js ''left'', js ''right'', js ''home'', js ''end'', js ''page up'', js ''page down''] @
     map (\<lambda>n. js ''f'' @ showNat n) [1..<13]"

datatype edit_mode = EditCombo | EditLiteral

record builder =
  bu_name :: jsstring
  bu_displayToken :: jsstring
  bu_steps :: "quick_key_step list"
  bu_pin :: bool
  bu_saving :: bool
  bu_editMode :: edit_mode
  bu_ctrl :: bool
  bu_alt :: bool
  bu_shift :: bool
  bu_baseKey :: jsstring
  bu_literalText :: jsstring
  bu_literalEnter :: bool

definition newBuilder :: builder where
  "newBuilder = \<lparr>bu_name = [], bu_displayToken = [], bu_steps = [], bu_pin = False, bu_saving = False, bu_editMode = EditCombo,
     bu_ctrl = False, bu_alt = False, bu_shift = False, bu_baseKey = js ''c'', bu_literalText = [], bu_literalEnter = False\<rparr>"

text \<open>The token input keeps 20 code units.\<close>

definition typeToken :: "jsstring \<Rightarrow> jsstring" where
  "typeToken s = take 20 s"

definition addStep :: "builder \<Rightarrow> builder" where
  "addStep b = b\<lparr>bu_steps := bu_steps b @
     [if bu_editMode b = EditCombo then Combo (bu_ctrl b) (bu_alt b) (bu_shift b) (bu_baseKey b)
      else Literal (bu_literalText b) (bu_literalEnter b)]\<rparr>"

definition removeStep :: "nat \<Rightarrow> builder \<Rightarrow> builder" where
  "removeStep n b = b\<lparr>bu_steps := map snd (filter (\<lambda>(i, s). i \<noteq> n) (enumerate 0 (bu_steps b)))\<rparr>"

text \<open>\<open>handleSave\<close> up to its request: the key handed to \<open>onCreate\<close>, or nothing when a field is missing.\<close>

definition saveBegin :: "builder \<Rightarrow> (new_key \<times> builder) option" where
  "saveBegin b =
     (if trim (bu_name b) = [] \<or> trim (bu_displayToken b) = [] \<or> bu_steps b = [] then None
      else Some (\<lparr>nk_name = trim (bu_name b), nk_display_token = trim (bu_displayToken b), nk_spec = specJson (bu_steps b), nk_pinned = bu_pin b\<rparr>,
                 b\<lparr>bu_saving := True\<rparr>))"

text \<open>The request settles; the flag says that the overlay goes to the manage tab.\<close>

definition saveDone :: "bool \<Rightarrow> builder \<Rightarrow> builder \<times> bool" where
  "saveDone ok b =
     (if ok then (b\<lparr>bu_name := [], bu_displayToken := [], bu_steps := [], bu_saving := False\<rparr>, True)
      else (b\<lparr>bu_saving := False\<rparr>, False))"

definition preview :: "(jsstring \<Rightarrow> jsstring) \<Rightarrow> builder \<Rightarrow> jsstring option" where
  "preview lc b = (if bu_steps b \<noteq> [] then previewSpec lc (bu_steps b) else Some [])"

definition describeStep :: "quick_key_step \<Rightarrow> jsstring" where
  "describeStep step =
     (case step of
        Literal txt enter \<Rightarrow> [34] @ txt @ [34] @ (if enter then js '' + Enter'' else [])
      | Combo ctrl alt shift key \<Rightarrow>
          (let mods = (if ctrl then [js ''Ctrl''] else []) @ (if alt then [js ''Alt''] else []) @ (if shift then [js ''Shift''] else [])
           in (if mods \<noteq> [] then join (js ''+'') mods @ js ''+'' else []) @ key))"

subsection \<open>Send and manage tabs\<close>

definition sendKey :: "quick_key \<Rightarrow> json" where
  "sendKey k = parseSpec (qk_spec k)"

text \<open>\<open>moveItem\<close>: the ids passed to \<open>onReorder\<close>, if the target is in the list.\<close>

definition moveItem :: "quick_key list \<Rightarrow> nat \<Rightarrow> int \<Rightarrow> int list option" where
  "moveItem ks fromIndex direction =
     (let toIndex = int fromIndex + direction
      in if toIndex < 0 \<or> toIndex \<ge> int (length ks) then None
         else let ids = map qk_id ks; tmp = ids ! fromIndex
              in Some ((ids[fromIndex := ids ! nat toIndex])[nat toIndex := tmp]))"

record manage_tab =
  mt_editingId :: "int option"
  mt_editName :: jsstring
  mt_editToken :: jsstring

definition startEdit :: "quick_key \<Rightarrow> manage_tab \<Rightarrow> manage_tab" where
  "startEdit k t = t\<lparr>mt_editingId := Some (qk_id k), mt_editName := qk_name k, mt_editToken := qk_display_token k\<rparr>"

text \<open>\<open>saveEdit\<close>: the fields of the update, and the tab when the update has settled. A failed one is not caught and
  leaves the editor open.\<close>

definition saveEdit :: "manage_tab \<Rightarrow> key_fields" where
  "saveEdit t = \<lparr>kf_name = Some (mt_editName t), kf_display_token = Some (mt_editToken t), kf_spec = None, kf_pinned = None, kf_sort_order = None\<rparr>"

definition saveEditDone :: "bool \<Rightarrow> manage_tab \<Rightarrow> manage_tab" where
  "saveEditDone ok t = (if ok then t\<lparr>mt_editingId := None\<rparr> else t)"

subsection \<open>Pills of the top bar\<close>

text \<open>\<open>measureOverflow\<close>: \<open>rights\<close> are the right edges of the hidden pills; without the elements nothing changes.\<close>

definition measureOverflow :: "rat option \<Rightarrow> rat list \<Rightarrow> nat \<Rightarrow> nat" where
  "measureOverflow availRight rights visibleCount =
     (case availRight of None \<Rightarrow> visibleCount | Some r \<Rightarrow> length (takeWhile (\<lambda>x. x \<le> r + 1 / 2) rights))"

definition visiblePills :: "nat \<Rightarrow> 'a list \<Rightarrow> 'a list" where
  "visiblePills visibleCount pinned = take visibleCount pinned"

definition overflowCount :: "nat \<Rightarrow> 'a list \<Rightarrow> nat option" where
  "overflowCount visibleCount pinned = (if length pinned > visibleCount then Some (length pinned - visibleCount) else None)"

text \<open>\<open>formatBytes\<close>; \<open>toFixed(1)\<close> rounds to the nearest tenth, a tie upwards, and the quotients are exact doubles.\<close>

definition tenths :: "nat \<Rightarrow> nat \<Rightarrow> nat" where
  "tenths n unit = (20 * n + unit) div (2 * unit)"

definition toFixed1 :: "nat \<Rightarrow> jsstring" where
  "toFixed1 t = showNat (t div 10) @ js ''.'' @ showNat (t mod 10)"

definition formatBytes :: "nat \<Rightarrow> jsstring" where
  "formatBytes n =
     (if n < 1024 then showNat n @ js '' B''
      else if n < 1024 * 1024 then toFixed1 (tenths n 1024) @ js '' KB''
      else toFixed1 (tenths n (1024 * 1024)) @ js '' MB'')"

subsection \<open>Runs of the builder\<close>

datatype builder_event =
    BuName jsstring | BuToken jsstring | BuMode edit_mode | BuMods bool bool bool | BuKey nat | BuText jsstring | BuEnter bool | BuPin bool
  | BuAdd | BuRemove nat | BuSaved bool

text \<open>The inputs of the tab; the key is chosen from the list, by its position.\<close>

fun builderEvent :: "builder_event \<Rightarrow> builder \<Rightarrow> builder" where
  "builderEvent (BuName s) b = b\<lparr>bu_name := s\<rparr>"
| "builderEvent (BuToken s) b = b\<lparr>bu_displayToken := typeToken s\<rparr>"
| "builderEvent (BuMode m) b = b\<lparr>bu_editMode := m\<rparr>"
| "builderEvent (BuMods c a s) b = b\<lparr>bu_ctrl := c, bu_alt := a, bu_shift := s\<rparr>"
| "builderEvent (BuKey n) b = (if n < length BASE_KEYS then b\<lparr>bu_baseKey := BASE_KEYS ! n\<rparr> else b)"
| "builderEvent (BuText s) b = b\<lparr>bu_literalText := s\<rparr>"
| "builderEvent (BuEnter e) b = b\<lparr>bu_literalEnter := e\<rparr>"
| "builderEvent (BuPin p) b = b\<lparr>bu_pin := p\<rparr>"
| "builderEvent BuAdd b = addStep b"
| "builderEvent (BuRemove n) b = removeStep n b"
| "builderEvent (BuSaved ok) b = (case saveBegin b of None \<Rightarrow> b | Some (n, b') \<Rightarrow> fst (saveDone ok b'))"

inductive builderStep :: "builder \<Rightarrow> builder \<Rightarrow> bool" where
  "builderStep b (builderEvent e b)"

inductive_cases builderStepE: "builderStep b c"

fun stepOffered :: "quick_key_step \<Rightarrow> bool" where
  "stepOffered (Combo c a s k) = (k \<in> set BASE_KEYS)"
| "stepOffered (Literal t e) = True"

definition builderInv :: "builder \<Rightarrow> bool" where
  "builderInv b \<longleftrightarrow> length (bu_displayToken b) \<le> 20 \<and> bu_baseKey b \<in> set BASE_KEYS \<and> list_all stepOffered (bu_steps b)"

lemma BASE_KEYS_c: "js ''c'' \<in> set BASE_KEYS"
proof -
  have "js ''c'' = [word_of_nat 99]" by (simp add: js_def)
  then show ?thesis by (simp add: BASE_KEYS_def)
qed

lemma removeStep_subset: "set (bu_steps (removeStep n b)) \<subseteq> set (bu_steps b)"
proof -
  have "set (map snd (filter P (enumerate m xs))) \<subseteq> set xs" for P m and xs :: "'x list"
    by (induction xs arbitrary: m) (auto split: if_splits)
  then show ?thesis by (simp add: removeStep_def)
qed

lemma builderInv_step:
  assumes "builderInv b" shows "builderInv (builderEvent e b)"
proof (cases e)
  case (BuRemove n)
  have "bu_displayToken (removeStep n b) = bu_displayToken b" "bu_baseKey (removeStep n b) = bu_baseKey b" by (simp_all add: removeStep_def)
  then show ?thesis using assms removeStep_subset [of n b] BuRemove by (auto simp: builderInv_def list_all_iff)
qed (use assms in \<open>auto simp: builderInv_def typeToken_def addStep_def saveBegin_def saveDone_def\<close>)

interpretation key_builder: invariant_system "\<lambda>b. b = newBuilder" builderStep builderInv
proof
  fix b :: builder assume "b = newBuilder"
  then show "builderInv b" by (simp add: builderInv_def newBuilder_def BASE_KEYS_c)
next
  fix b c assume "builderInv b" "builderStep b c"
  then show "builderInv c" by (auto elim!: builderStepE intro: builderInv_step)
qed

lemma textEncode_nonempty: "s \<noteq> [] \<Longrightarrow> textEncode s \<noteq> []"
  using length_textEncode [of s] by auto

lemma encodeCombo_nonempty:
  assumes "lc k \<noteq> []" shows "encodeCombo lc c a s k \<noteq> []"
proof -
  have "encodeCsi num final md \<noteq> []" for num final md by (simp add: encodeCsi_def split: csi_num.split)
  moreover have "asciiUpper (lc k) \<noteq> []" using assms by (simp add: asciiUpper_def)
  ultimately show ?thesis
    using assms by (auto simp: encodeCombo_def Let_def prefixEsc_def textEncode_nonempty split: option.split)
qed

lemma BASE_KEYS_nonempty: "[] \<notin> set BASE_KEYS"
proof -
  have "list_all (\<lambda>k. k \<noteq> []) BASE_KEYS" by (simp add: BASE_KEYS_def list_all_iff)
  then show ?thesis by (auto simp: list_all_iff)
qed

lemma stepOfJson_stepJson: "stepOfJson (stepJson s) = Some s"
  by (cases s) (simp_all add: stepOfJson_def strField_def boolField_def jfield_def)

lemma specOfJson_specJson: "specOfJson (specJson steps) = Some steps"
proof -
  have "stepsOfJson (map stepJson steps) = Some steps" by (induction steps) (simp_all add: stepOfJson_stepJson)
  then show ?thesis by (simp add: specOfJson_def specJson_def)
qed

lemma wf_specJson: "wfJson (specJson steps)"
proof -
  have "wfJson (stepJson s)" for s by (cases s) simp_all
  then show ?thesis by (simp add: specJson_def list_all_iff)
qed

subsection \<open>Moving keys\<close>

lemma moveItem_swap:
  "Suc i < length ks \<Longrightarrow> moveItem ks i 1 = Some ((map qk_id ks)[i := qk_id (ks ! Suc i), Suc i := qk_id (ks ! i)])"
  "Suc i < length ks \<Longrightarrow> moveItem ks (Suc i) (- 1) = Some ((map qk_id ks)[Suc i := qk_id (ks ! i), i := qk_id (ks ! Suc i)])"
  by (simp_all add: moveItem_def Let_def nat_add_distrib)

lemma reordered_numbers:
  assumes "list_all (\<lambda>i. keyMap ks i \<noteq> None) ids"
  shows "map qk_sort_order (reordered ks ids) = map int [0..<length ids]"
proof -
  have "map qk_sort_order (reordered ks ids) = map snd (map (\<lambda>k. (qk_id k, qk_sort_order k)) (reordered ks ids))" by simp
  also have "\<dots> = map snd (map (\<lambda>(n, i). (i, int n)) (enumerate 0 ids))"
    unfolding reordered_entries using map_filter_enumerate_all [OF assms, of 0] by simp
  also have "\<dots> = map int (map fst (enumerate 0 ids))" by (simp add: case_prod_unfold comp_def del: map_fst_enumerate)
  finally show ?thesis by (simp only: map_fst_enumerate) simp
qed

lemma reorderBegin_all:
  assumes "mset ids = mset (map qk_id ks)" and "distinct (map qk_id ks)"
  shows "map qk_id (reorderBegin ids ks) = ids" "map qk_sort_order (reorderBegin ids ks) = map int [0..<length ids]"
proof -
  have set: "set ids = qk_id ` set ks" using mset_eq_setD [OF assms(1)] by simp
  have d: "distinct ids" using assms distinct_mset_eq by metis
  have b: "reorderBegin ids ks = reordered ks ids" by (auto simp: reorderBegin_def set filter_empty_conv)
  show "map qk_id (reorderBegin ids ks) = ids" using d set by (simp add: b reordered_ids filter_sub_id)
  show "map qk_sort_order (reorderBegin ids ks) = map int [0..<length ids]"
    unfolding b by (rule reordered_numbers) (auto simp: list_all_iff keyMap_None set)
qed

lemma pinnedKeys_sorted:
  assumes "sorted (map qk_sort_order ks)"
  shows "pinnedKeys ks = map (\<lambda>k. (qk_display_token k, parseSpec (qk_spec k))) (filter qk_pinned ks)"
  using sorted_sort_id sorted_filter [OF assms] by (simp add: pinnedKeys_def sort_key_id_if_sorted)

subsection \<open>Properties\<close>

text \<open>C35: what the builder previews is what the saved key sends. After any use of the builder, a key it saves has a
  trimmed name and a trimmed token of 1 to 20 code units, and its stored spec reads back, through the JSON text, as the
  steps on screen: pressing the key encodes to the previewed bytes. Every combination it can hold is one of the keys
  offered and sends at least one byte.\<close>

theorem built_key_sends_preview:
  assumes "reach (\<lambda>b. b = newBuilder) builderStep b" and "saveBegin b = Some (n, b')" and "list_all (\<lambda>k. lc k = k) BASE_KEYS"
  shows "(\<exists>steps. specOfJson (sendKey (optimisticKey n now isoNow len)) = Some steps \<and> previewSpec lc steps = preview lc b \<and>
      (\<forall>c a s k. Combo c a s k \<in> set steps \<longrightarrow> k \<in> set BASE_KEYS \<and> encodeStep lc (Combo c a s k) \<noteq> [])) \<and>
    nk_name n \<noteq> [] \<and> trim (nk_name n) = nk_name n \<and>
    nk_display_token n \<noteq> [] \<and> trim (nk_display_token n) = nk_display_token n \<and> length (nk_display_token n) \<le> 20"
proof -
  have inv: "builderInv b" by (rule key_builder.reachable_inv [OF assms(1)])
  from assms(2) have n: "nk_spec n = specJson (bu_steps b)" "nk_name n = trim (bu_name b)" "nk_display_token n = trim (bu_displayToken b)"
    "trim (bu_name b) \<noteq> []" "trim (bu_displayToken b) \<noteq> []" "bu_steps b \<noteq> []" by (auto simp: saveBegin_def split: if_splits)
  have spec: "specOfJson (sendKey (optimisticKey n now isoNow len)) = Some (bu_steps b)"
    using created_spec [of n] wf_specJson by (simp add: sendKey_def n(1) specOfJson_specJson)
  have combos: "k \<in> set BASE_KEYS \<and> encodeStep lc (Combo c a s k) \<noteq> []" if "Combo c a s k \<in> set (bu_steps b)" for c a s k
  proof -
    have k: "k \<in> set BASE_KEYS" using inv that by (auto simp: builderInv_def list_all_iff)
    then have "lc k \<noteq> []" using assms(3) BASE_KEYS_nonempty by (auto simp: list_all_iff)
    then show ?thesis using k encodeCombo_nonempty by simp
  qed
  have "length (trim (bu_displayToken b)) \<le> 20" using inv length_trim_le [of "bu_displayToken b"] by (simp add: builderInv_def)
  then show ?thesis using spec combos n by (auto simp: preview_def)
qed

definition toy_builder :: builder where
  "toy_builder = fold builderEvent [BuName (js '' Detach ''), BuToken (js ''^A d''), BuMods True False False, BuKey 0, BuAdd, BuMods False False False, BuKey 3, BuAdd] newBuilder"

lemma builder_run_reach: "reach P builderStep b \<Longrightarrow> reach P builderStep (fold builderEvent es b)"
  by (induction es arbitrary: b) (auto intro: reach_step builderStep.intros)

theorem built_key_sends_preview_witness:
  "specOfJson (sendKey (optimisticKey (fst (the (saveBegin toy_builder))) 1 [] 0)) =
     Some [Combo True False False (js ''a''), Combo False False False (js ''d'')] \<and>
   nk_name (fst (the (saveBegin toy_builder))) = js ''Detach''"
proof -
  have r: "reach (\<lambda>b. b = newBuilder) builderStep toy_builder" unfolding toy_builder_def by (rule builder_run_reach) (rule reach_init, simp)
  have steps: "bu_steps toy_builder = [Combo True False False (js ''a''), Combo False False False (js ''d'')]" by code_simp
  have save: "bu_steps toy_builder \<noteq> [] \<and> trim (bu_name toy_builder) = js ''Detach'' \<and> trim (bu_displayToken toy_builder) \<noteq> []" by code_simp
  then obtain n b' where n: "saveBegin toy_builder = Some (n, b')" "nk_name n = js ''Detach''" "nk_spec n = specJson (bu_steps toy_builder)"
    by (auto simp: saveBegin_def)
  have lc: "list_all (\<lambda>k. asciiLower k = k) BASE_KEYS" by code_simp
  obtain s where "specOfJson (sendKey (optimisticKey n 1 [] 0)) = Some s" using built_key_sends_preview [OF r n(1) lc] by blast
  then show ?thesis using n created_spec [of n] wf_specJson steps by (simp add: sendKey_def specOfJson_specJson)
qed

text \<open>Moving a key down swaps it with its neighbour and nothing else, moving it back restores the order, and the
  pinned pills of the top bar follow the list of the manage tab.\<close>

theorem manage_move:
  assumes "distinct (map qk_id ks)" and "Suc i < length ks" and "moveItem ks i 1 = Some ids"
  shows "map qk_id (reorderBegin ids ks) = (map qk_id ks)[i := qk_id (ks ! Suc i), Suc i := qk_id (ks ! i)] \<and>
    moveItem (reorderBegin ids ks) (Suc i) (- 1) = Some (map qk_id ks) \<and>
    pinnedKeys (reorderBegin ids ks) = map (\<lambda>k. (qk_display_token k, parseSpec (qk_spec k))) (filter qk_pinned (reorderBegin ids ks))"
proof -
  have ids: "ids = (map qk_id ks)[i := qk_id (ks ! Suc i), Suc i := qk_id (ks ! i)]" using assms(3) moveItem_swap(1) [OF assms(2)] by simp
  have "mset ids = mset (map qk_id ks)"
    unfolding ids using assms(2) mset_swap [of i "map qk_id ks" "Suc i"] by (simp add: list_update_swap)
  note r = reorderBegin_all [OF this assms(1)]
  let ?ks' = "reorderBegin ids ks"
  have len: "length ?ks' = length ks" using arg_cong [OF r(1), of length] by (simp add: ids)
  then have i: "Suc i < length ?ks'" using assms(2) by simp
  have nth: "qk_id (?ks' ! j) = ids ! j" if "j < length ks" for j using that r(1) len by (metis nth_map)
  have "moveItem ?ks' (Suc i) (- 1) = Some (map qk_id ks)"
    unfolding moveItem_swap(2) [OF i] r(1) using assms(2) nth
    by (auto simp: ids nth_list_update intro!: nth_equalityI)
  moreover have "sorted (map qk_sort_order ?ks')" by (simp add: r(2) sorted_map)
  ultimately show ?thesis using r(1) pinnedKeys_sorted ids by blast
qed

text \<open>A failed save keeps everything that was typed.\<close>

lemma failed_save_keeps_input: "saveBegin b = Some (n, b') \<Longrightarrow> saveDone False b' = (b\<lparr>bu_saving := False\<rparr>, False)"
  by (auto simp: saveBegin_def saveDone_def split: if_splits)

text \<open>With edges in order the pills shown are exactly those that fit, and the \<open>+N\<close> counts the others.\<close>

lemma pills_shown:
  assumes "sorted rights" and "length rights = length pinned"
  shows "let c = measureOverflow (Some r) rights v in
    c = length (filter (\<lambda>x. x \<le> r + 1 / 2) rights) \<and> length (visiblePills c pinned) + (case overflowCount c pinned of Some n \<Rightarrow> n | None \<Rightarrow> 0) = length pinned"
proof -
  have "takeWhile (\<lambda>x. x \<le> r + 1 / 2) rights = filter (\<lambda>x. x \<le> r + 1 / 2) rights"
    using assms(1) by (induction rights) (auto intro!: filter_False [symmetric])
  moreover have "length (takeWhile (\<lambda>x. x \<le> r + 1 / 2) rights) \<le> length pinned" using assms(2) length_takeWhile_le by metis
  ultimately show ?thesis by (simp add: measureOverflow_def visiblePills_def overflowCount_def)
qed

text \<open>The shown size is off by at most half a tenth of its unit.\<close>

lemma tenths_close: "0 < unit \<Longrightarrow> \<bar>2 * int unit * int (tenths n unit) - 20 * int n\<bar> \<le> int unit"
proof -
  assume u: "0 < unit"
  define q r where "q = tenths n unit" and "r = (20 * n + unit) mod (2 * unit)"
  have "20 * n + unit = 2 * unit * q + r" unfolding q_def r_def tenths_def by (rule mult_div_mod_eq [symmetric])
  moreover have "r < 2 * unit" unfolding r_def using u by simp
  ultimately have "20 * int n + int unit = 2 * int unit * int q + int r" "int r < 2 * int unit" by (metis of_nat_add of_nat_mult of_nat_numeral, simp)
  then show ?thesis unfolding q_def [symmetric] by linarith
qed

end
