(* ===== verification/Hosts.thy ===== *)
theory Hosts
  imports Api Sessions
begin

text \<open>
  Hosts, pairing and passkeys: \<open>web/src/components/HostForm.tsx\<close>, \<open>web/src/pages/HostsPage.tsx\<close>,
  \<open>web/src/pages/PairPage.tsx\<close> and \<open>web/src/pages/PasskeyManagementPage.tsx\<close>. The pages keep what the server
  answered as JSON, because they cast it without a check. The locale \<open>form_flow\<close> is the contract of a form: a request is
  sent only for valid input, and a failure keeps the input and shows its reason.
\<close>

subsection \<open>Host form\<close>

text \<open>What an error line shows: a text of the page or the message of an exception.\<close>

datatype page_error = PageText jsstring | PageApi api_error

record host_form =
  hf_label :: jsstring
  hf_hostname :: jsstring
  hf_sshUser :: jsstring
  hf_sshPort :: int
  hf_sshPrincipal :: jsstring
  hf_loading :: bool
  hf_error :: "page_error option"

text \<open>The initial state, from the host that is edited.\<close>

definition newHostForm :: "host option \<Rightarrow> host_form" where
  "newHostForm h =
     (case h of
        None \<Rightarrow> \<lparr>hf_label = [], hf_hostname = [], hf_sshUser = [], hf_sshPort = 22, hf_sshPrincipal = [], hf_loading = False, hf_error = None\<rparr>
      | Some h \<Rightarrow> \<lparr>hf_label = ho_label h, hf_hostname = ho_hostname h, hf_sshUser = ho_ssh_user h,
           hf_sshPort = (if ho_ssh_port h = 0 then 22 else ho_ssh_port h), hf_sshPrincipal = ho_ssh_principal h,
           hf_loading = False, hf_error = None\<rparr>)"

text \<open>\<open>parseInt\<close>: white space, a sign, a prefix \<open>0x\<close>, then as many digits as there are; \<open>None\<close> is \<open>NaN\<close>. Values past \<open>2^53\<close>, which
  a double rounds, are kept exact.\<close>

definition hexPrefix :: "jsstring \<Rightarrow> bool" where
  "hexPrefix s \<longleftrightarrow> take 2 s = js ''0x'' \<or> take 2 s = js ''0X''"

definition lowerHexVal :: "code_unit \<Rightarrow> nat option" where
  "lowerHexVal u = hexVal (asciiLowerUnit u)"

definition parseDigits :: "jsstring \<Rightarrow> nat option" where
  "parseDigits s =
     (if hexPrefix s then
        (let ds = takeWhile (\<lambda>u. lowerHexVal u \<noteq> None) (drop 2 s)
         in if ds = [] then None else Some (foldl (\<lambda>v u. v * 16 + the (lowerHexVal u)) 0 ds))
      else (let ds = takeWhile isDigit s in if ds = [] then None else Some (decimalValue ds)))"

definition parseIntJs :: "jsstring \<Rightarrow> int option" where
  "parseIntJs s =
     (case dropWhile isWhiteSpace s of
        [] \<Rightarrow> None
      | u # r \<Rightarrow>
          if u = 45 then map_option (\<lambda>n. - int n) (parseDigits r)
          else if u = 43 then map_option int (parseDigits r)
          else map_option int (parseDigits (u # r)))"

definition typePort :: "jsstring \<Rightarrow> int" where
  "typePort s = (case parseIntJs s of None \<Rightarrow> 22 | Some n \<Rightarrow> if n = 0 then 22 else n)"

definition nonBlank :: "jsstring \<Rightarrow> json option" where
  "nonBlank s = (if s = [] then None else Some (JStr s))"

text \<open>The object handed to \<open>onSubmit\<close>, as its JSON text has it.\<close>

definition hostBody :: "host_form \<Rightarrow> json" where
  "hostBody f =
     JObj ([(js ''label'', JStr (trim (hf_label f))), (js ''hostname'', JStr (trim (hf_hostname f)))] @
       optMember ''ssh_user'' (nonBlank (trim (hf_sshUser f))) @
       optMember ''ssh_port'' (if hf_sshPort f = 0 then None else Some (JNum (showInt (hf_sshPort f)))) @
       optMember ''ssh_principal'' (nonBlank (trim (hf_sshPrincipal f))))"

definition hostInvalid :: "host_form \<Rightarrow> jsstring option" where
  "hostInvalid f =
     (if trim (hf_label f) = [] then Some (js ''Label is required'')
      else if trim (hf_hostname f) = [] then Some (js ''Hostname is required'')
      else None)"

text \<open>\<open>handleSubmit\<close> up to its await, and after it.\<close>

definition formBegin :: "host_form \<Rightarrow> json option \<times> host_form" where
  "formBegin f =
     (case hostInvalid f of
        Some m \<Rightarrow> (None, f\<lparr>hf_error := Some (PageText m), hf_loading := False\<rparr>)
      | None \<Rightarrow> (Some (hostBody f), f\<lparr>hf_error := None, hf_loading := True\<rparr>))"

definition formDone :: "api_error + unit \<Rightarrow> host_form \<Rightarrow> host_form" where
  "formDone r f = (case r of Inl e \<Rightarrow> f\<lparr>hf_error := Some (PageApi e), hf_loading := False\<rparr> | Inr u \<Rightarrow> f\<lparr>hf_loading := False\<rparr>)"

subsection \<open>Hosts page\<close>

record hosts_page =
  hx_hosts :: json
  hx_isLoading :: bool
  hx_error :: "page_error option"
  hx_isCreating :: bool
  hx_editingHost :: "host option"

definition newHostsPage :: hosts_page where
  "newHostsPage = \<lparr>hx_hosts = JArr [], hx_isLoading = True, hx_error = None, hx_isCreating = False, hx_editingHost = None\<rparr>"

definition loadHosts :: "hosts_page \<Rightarrow> hosts_page" where
  "loadHosts p = p\<lparr>hx_isLoading := True\<rparr>"

definition pageHostsLoaded :: "api_error + json \<Rightarrow> hosts_page \<Rightarrow> hosts_page" where
  "pageHostsLoaded r p =
     (case r of
        Inl e \<Rightarrow> p\<lparr>hx_error := Some (PageApi e), hx_isLoading := False\<rparr>
      | Inr data \<Rightarrow> p\<lparr>hx_hosts := data, hx_error := None, hx_isLoading := False\<rparr>)"

text \<open>The handlers: the promise's outcome, the page when it settles (a reload has begun, it is not awaited) and the
  browser.\<close>

definition handleCreate :: "server \<Rightarrow> json \<Rightarrow> hosts_page \<times> browser \<Rightarrow> (api_error + unit) \<times> hosts_page \<times> browser" where
  "handleCreate fetch h s =
     (case s of (p, b) \<Rightarrow>
        (case createHost fetch h b of
           (Inl e, b') \<Rightarrow> (Inl e, p, b')
         | (Inr v, b') \<Rightarrow> (Inr (), loadHosts (p\<lparr>hx_isCreating := False\<rparr>), b')))"

definition hostUpdate :: "server \<Rightarrow> json \<Rightarrow> hosts_page \<times> browser \<Rightarrow> (api_error + unit) \<times> hosts_page \<times> browser" where
  "hostUpdate fetch h s =
     (case s of (p, b) \<Rightarrow>
        (case hx_editingHost p of
           None \<Rightarrow> (Inr (), p, b)
         | Some editing \<Rightarrow>
             (case updateHost fetch (ho_id editing) h b of
                (Inl e, b') \<Rightarrow> (Inl e, p, b')
              | (Inr v, b') \<Rightarrow> (Inr (), loadHosts (p\<lparr>hx_editingHost := None\<rparr>), b'))))"

definition handleDelete :: "server \<Rightarrow> int \<Rightarrow> hosts_page \<times> browser \<Rightarrow> (api_error + unit) \<times> hosts_page \<times> browser" where
  "handleDelete fetch i s =
     (case s of (p, b) \<Rightarrow>
        (case deleteHost fetch i b of
           (Inl e, b') \<Rightarrow> (Inl e, p, b')
         | (Inr v, b') \<Rightarrow> (Inr (), loadHosts p, b')))"

text \<open>A form of the page is submitted: the one that creates or the one that edits.\<close>

datatype form_kind = CreateForm | EditForm

fun formSend :: "form_kind \<Rightarrow> server \<Rightarrow> json \<Rightarrow> hosts_page \<times> browser \<Rightarrow> (api_error + unit) \<times> hosts_page \<times> browser" where
  "formSend CreateForm = handleCreate"
| "formSend EditForm = hostUpdate"

fun formOpen :: "form_kind \<Rightarrow> hosts_page \<Rightarrow> bool" where
  "formOpen CreateForm p = hx_isCreating p"
| "formOpen EditForm p = (hx_editingHost p \<noteq> None)"

definition submitHostForm :: "form_kind \<Rightarrow> server \<Rightarrow> host_form \<times> hosts_page \<times> browser \<Rightarrow> host_form \<times> hosts_page \<times> browser" where
  "submitHostForm kind fetch s =
     (case s of (f, p, b) \<Rightarrow>
        (case formBegin f of
           (None, f') \<Rightarrow> (f', p, b)
         | (Some body, f') \<Rightarrow> (case formSend kind fetch body (p, b) of (r, p', b') \<Rightarrow> (formDone r f', p', b'))))"

subsection \<open>Pairing page\<close>

record pair_page =
  pp_code :: jsstring
  pp_error :: "page_error option"
  pp_success :: bool
  pp_loading :: bool
  pp_hosts :: json
  pp_selectedHostId :: "int option"
  pp_showNewHost :: bool
  pp_newHostLabel :: jsstring
  pp_newHostHostname :: jsstring

definition newPairPage :: pair_page where
  "newPairPage = \<lparr>pp_code = [], pp_error = None, pp_success = False, pp_loading = False, pp_hosts = JArr [], pp_selectedHostId = None,
     pp_showNewHost = False, pp_newHostLabel = [], pp_newHostHostname = []\<rparr>"

definition pairHostsLoaded :: "api_error + json \<Rightarrow> pair_page \<Rightarrow> pair_page" where
  "pairHostsLoaded r p = (case r of Inl e \<Rightarrow> p | Inr data \<Rightarrow> p\<lparr>pp_hosts := data\<rparr>)"

text \<open>The code input; \<open>uc\<close> is \<open>toUpperCase\<close>.\<close>

definition typeCode :: "(jsstring \<Rightarrow> jsstring) \<Rightarrow> jsstring \<Rightarrow> pair_page \<Rightarrow> pair_page" where
  "typeCode uc s p = p\<lparr>pp_code := uc s\<rparr>"

definition canPair :: "pair_page \<Rightarrow> bool" where
  "canPair p \<longleftrightarrow> length (pp_code p) = 6 \<and> (pp_selectedHostId p \<noteq> None \<or> pp_showNewHost p)"

text \<open>The arguments of \<open>pairExchange\<close>, or the text of the error. An id 0 is falsy.\<close>

definition pairRequest :: "pair_page \<Rightarrow> jsstring + int option \<times> json option" where
  "pairRequest p =
     (if pp_showNewHost p then
        (if trim (pp_newHostLabel p) = [] \<or> trim (pp_newHostHostname p) = [] then Inl (js ''Label and hostname are required'')
         else Inr (None, Some (JObj [(js ''label'', JStr (trim (pp_newHostLabel p))), (js ''hostname'', JStr (trim (pp_newHostHostname p)))])))
      else
        (case pp_selectedHostId p of
           Some i \<Rightarrow> if i = 0 then Inl (js ''Please select or create a host'') else Inr (Some i, None)
         | None \<Rightarrow> Inl (js ''Please select or create a host'')))"

text \<open>\<open>handlePair\<close>; a success goes to the dashboard after 1.5 s.\<close>

definition handlePair :: "server \<Rightarrow> pair_page \<times> browser \<Rightarrow> pair_page \<times> browser" where
  "handlePair fetch s =
     (case s of (p, b) \<Rightarrow>
        (case pairRequest p of
           Inl m \<Rightarrow> (p\<lparr>pp_error := Some (PageText m), pp_loading := False\<rparr>, b)
         | Inr (hostId, newHost) \<Rightarrow>
             (case pairExchange fetch (pp_code p) hostId newHost b of
                (Inl e, b') \<Rightarrow> (p\<lparr>pp_error := Some (PageApi e), pp_loading := False\<rparr>, b')
              | (Inr v, b') \<Rightarrow> (p\<lparr>pp_error := None, pp_success := True, pp_loading := False\<rparr>, b'))))"

subsection \<open>Passkey page\<close>

record passkey_page =
  pk_passkeys :: json
  pk_loading :: bool
  pk_adding :: bool
  pk_deletingId :: "jsstring option"
  pk_error :: "page_error option"
  pk_supported :: bool

text \<open>\<open>loadPasskeys\<close> catches every failure.\<close>

definition loadPasskeys :: "server \<Rightarrow> passkey_page \<times> browser \<Rightarrow> passkey_page \<times> browser" where
  "loadPasskeys fetch s =
     (case s of (p, b) \<Rightarrow>
        (case listPasskeys fetch b of
           (Inl e, b') \<Rightarrow> (p\<lparr>pk_loading := False\<rparr>, b')
         | (Inr data, b') \<Rightarrow> (p\<lparr>pk_passkeys := data, pk_loading := False\<rparr>, b')))"

definition mountPasskeys :: "server \<Rightarrow> bool \<Rightarrow> browser \<Rightarrow> passkey_page \<times> browser" where
  "mountPasskeys fetch supported b =
     loadPasskeys fetch (\<lparr>pk_passkeys = JArr [], pk_loading = True, pk_adding = False, pk_deletingId = None, pk_error = None, pk_supported = supported\<rparr>, b)"

text \<open>\<open>startRegistration\<close> of the WebAuthn library is the parameter \<open>register\<close>; \<open>Inl\<close> is the message of its exception.\<close>

definition handleAddPasskey :: "server \<Rightarrow> bool \<Rightarrow> (json option \<Rightarrow> jsstring + json) \<Rightarrow> passkey_page \<times> browser \<Rightarrow> passkey_page \<times> browser" where
  "handleAddPasskey fetch supported register s =
     (case s of (p, b) \<Rightarrow>
        if \<not> supported then
          (p\<lparr>pk_error := Some (PageText (js ''WebAuthn is not supported. Please use HTTPS or localhost.'')), pk_adding := False\<rparr>, b)
        else
          (let failed = (\<lambda>e b'. (p\<lparr>pk_error := Some e, pk_adding := False\<rparr>, b'))
           in case addPasskeyBegin fetch b of
                (Inl e, b') \<Rightarrow> failed (PageApi e) b'
              | (Inr response, b') \<Rightarrow>
                  (case register (jfield (js ''publicKey'') response) of
                     Inl m \<Rightarrow> failed (PageText m) b'
                   | Inr credential \<Rightarrow>
                       (case addPasskeyFinish fetch credential b' of
                          Inl e \<Rightarrow> failed (PageApi e) b'
                        | Inr u \<Rightarrow> loadPasskeys fetch (p\<lparr>pk_error := None, pk_adding := False\<rparr>, b')))))"

text \<open>The \<open>Delete\<close> button of a row, disabled for the last passkey, and the confirmation.\<close>

definition askDelete :: "jsstring \<Rightarrow> passkey_page \<Rightarrow> passkey_page" where
  "askDelete i p =
     (case pk_passkeys p of JArr ks \<Rightarrow> if length ks \<le> 1 then p else p\<lparr>pk_deletingId := Some i\<rparr> | _ \<Rightarrow> p)"

definition handleDeletePasskey :: "server \<Rightarrow> passkey_page \<times> browser \<Rightarrow> passkey_page \<times> browser" where
  "handleDeletePasskey fetch s =
     (case s of (p, b) \<Rightarrow>
        (case pk_deletingId p of
           None \<Rightarrow> (p, b)
         | Some i \<Rightarrow>
             if i = [] then (p, b)
             else (case deletePasskey fetch i b of
                (Inl e, b') \<Rightarrow> (p\<lparr>pk_error := Some (PageApi e), pk_deletingId := None\<rparr>, b')
              | (Inr v, b') \<Rightarrow> loadPasskeys fetch (p\<lparr>pk_deletingId := None\<rparr>, b'))))"

subsection \<open>The contract of a form\<close>

locale form_flow =
  fixes invalid :: "'f \<Rightarrow> jsstring option"
    and submit :: "server \<Rightarrow> 'f \<times> 's \<Rightarrow> 'f \<times> 's"
    and shown :: "'f \<Rightarrow> page_error option"
    and inputs :: "'f \<Rightarrow> 'i"
  assumes rejected: "invalid f = Some m \<Longrightarrow> snd (submit fetch (f, s)) = s \<and> shown (fst (submit fetch (f, s))) = Some (PageText m)"
    and kept: "inputs (fst (submit fetch (f, s))) = inputs f"
    and invalid_inputs: "inputs f = inputs g \<Longrightarrow> invalid f = invalid g"
begin

lemma retries_keep_inputs: "inputs (fst (fold submit fetches (f, s))) = inputs f"
proof (induction fetches arbitrary: f s)
  case (Cons fetch fetches)
  show ?case using Cons.IH [of "fst (submit fetch (f, s))" "snd (submit fetch (f, s))"] kept [of fetch f s] by simp
qed simp

lemma invalid_sends_nothing: "invalid f = Some m \<Longrightarrow> snd (fold submit fetches (f, s)) = s"
proof (induction fetches arbitrary: f s)
  case (Cons fetch fetches)
  have "invalid (fst (submit fetch (f, s))) = Some m" using Cons.prems invalid_inputs [OF kept] by simp
  from Cons.IH [OF this, of s] rejected [OF Cons.prems, of fetch s] show ?case
    by (cases "submit fetch (f, s)") simp
qed simp

end

definition hostInputs :: "host_form \<Rightarrow> jsstring \<times> jsstring \<times> jsstring \<times> int \<times> jsstring" where
  "hostInputs f = (hf_label f, hf_hostname f, hf_sshUser f, hf_sshPort f, hf_sshPrincipal f)"

definition pairInvalid :: "pair_page \<Rightarrow> jsstring option" where
  "pairInvalid p = (case pairRequest p of Inl m \<Rightarrow> Some m | Inr r \<Rightarrow> None)"

definition pairInputs :: "pair_page \<Rightarrow> jsstring \<times> int option \<times> bool \<times> jsstring \<times> jsstring" where
  "pairInputs p = (pp_code p, pp_selectedHostId p, pp_showNewHost p, pp_newHostLabel p, pp_newHostHostname p)"

lemma formDone_fields [simp]:
  "hostInputs (formDone r f) = hostInputs f" "\<not> hf_loading (formDone r f)"
  "hf_error (formDone r f) = (case r of Inl e \<Rightarrow> Some (PageApi e) | Inr u \<Rightarrow> hf_error f)"
  by (auto simp: formDone_def hostInputs_def split: sum.split)

lemma formSend_outcome:
  assumes "formSend kind fetch body (p, b) = (r, p', b')" and "formOpen kind p"
  shows "case r of Inl e \<Rightarrow> p' = p | Inr u \<Rightarrow> \<not> formOpen kind p' \<and> hx_isLoading p' \<and> hx_hosts p' = hx_hosts p"
  using assms
  by (cases kind) (auto simp: handleCreate_def hostUpdate_def loadHosts_def split: prod.splits sum.splits option.splits)

lemma submitHostForm_invalid:
  "hostInvalid f = Some m \<Longrightarrow> submitHostForm kind fetch (f, p, b) = (f\<lparr>hf_error := Some (PageText m), hf_loading := False\<rparr>, p, b)"
  by (simp add: submitHostForm_def formBegin_def)

lemma submitHostForm_valid:
  "hostInvalid f = None \<Longrightarrow> formSend kind fetch (hostBody f) (p, b) = (r, p', b') \<Longrightarrow>
     submitHostForm kind fetch (f, p, b) = (formDone r (f\<lparr>hf_error := None, hf_loading := True\<rparr>), p', b')"
  by (simp add: submitHostForm_def formBegin_def)

interpretation host_form: form_flow hostInvalid "submitHostForm kind" hf_error hostInputs for kind
proof
  fix f m fetch and s :: "hosts_page \<times> browser"
  show "snd (submitHostForm kind fetch (f, s)) = s \<and> hf_error (fst (submitHostForm kind fetch (f, s))) = Some (PageText m)" if "hostInvalid f = Some m"
    using submitHostForm_invalid [OF that] by (cases s) simp
  show "hostInputs (fst (submitHostForm kind fetch (f, s))) = hostInputs f"
    by (cases "hostInvalid f"; cases s; cases "formSend kind fetch (hostBody f) s")
      (simp_all add: submitHostForm_invalid submitHostForm_valid, simp_all add: hostInputs_def)
  show "hostInvalid f = hostInvalid g" if "hostInputs f = hostInputs g" for g
    using that by (simp add: hostInvalid_def hostInputs_def)
qed

interpretation pair_form: form_flow pairInvalid handlePair pp_error pairInputs
proof
  fix p m fetch and b :: browser
  show "snd (handlePair fetch (p, b)) = b \<and> pp_error (fst (handlePair fetch (p, b))) = Some (PageText m)" if "pairInvalid p = Some m"
    using that by (auto simp: pairInvalid_def handlePair_def split: sum.splits)
  show "pairInputs (fst (handlePair fetch (p, b))) = pairInputs p"
    by (auto simp: handlePair_def pairInputs_def split: sum.splits prod.splits)
  show "pairInvalid p = pairInvalid q" if "pairInputs p = pairInputs q" for q
    using that by (simp add: pairInvalid_def pairRequest_def pairInputs_def)
qed

lemma wf_hostBody: "wfJson (hostBody f)"
  using validNumber_showInt by (auto simp: hostBody_def optMember_def nonBlank_def)

lemma parseIntJs_showInt: "parseIntJs (showInt i) = Some i"
proof -
  have digits: "parseDigits (showNat n) = Some n" for n
  proof -
    have "takeWhile isDigit (showNat n) = showNat n" using showNat_digits(2) [of n] by (simp add: list_all_iff takeWhile_eq_all_conv)
    moreover have "\<not> hexPrefix (showNat n)"
    proof
      assume "hexPrefix (showNat n)"
      then obtain u r where "showNat n = 48 # u # r" by (cases "showNat n"; cases "tl (showNat n)") (auto simp: hexPrefix_def js_def)
      then show False using showNat_digits(3) [of n] by simp
    qed
    ultimately show ?thesis using showNat_digits(1) [of n] by (simp add: parseDigits_def decimalValue_showNat del: takeWhile_eq_all_conv)
  qed
  have space: "dropWhile isWhiteSpace (u # r) = u # r" if "isDigit u \<or> u = 45" for u r
    using that by (auto simp: isDigit_def isWhiteSpace_def word_le_nat_alt)
  show ?thesis
  proof (cases "i < 0")
    case True
    then show ?thesis using space [of 45] digits by (simp add: parseIntJs_def showInt_def)
  next
    case False
    obtain u r where s: "showNat (nat i) = u # r" using showNat_digits(1) by (cases "showNat (nat i)") auto
    then have "isDigit u" using showNat_digits(2) [of "nat i"] by simp
    then show ?thesis using False s space [of u r] digits [of "nat i"] digit_not_sign [of u] by (simp add: parseIntJs_def showInt_def)
  qed
qed

subsection \<open>Properties\<close>

text \<open>C39: submitting a host form has one of three outcomes, and none loses what was typed, however often it is retried
  against whatever servers. With a blank label or hostname nothing is sent and nothing but the error line changes;
  when the request fails the form stays open with the reason, on an unchanged page; otherwise the form is closed and the
  list is being reloaded. The body that is sent reads back at the other end as the trimmed, non-empty values.\<close>

theorem host_form_outcome:
  assumes "formOpen kind p"
  shows "(case submitHostForm kind fetch (f, p, b) of (f', p', b') \<Rightarrow>
      \<not> hf_loading f' \<and>
      (case hostInvalid f of
         Some m \<Rightarrow> p' = p \<and> b' = b \<and> hf_error f' = Some (PageText m)
       | None \<Rightarrow>
           (\<exists>e. hf_error f' = Some (PageApi e) \<and> p' = p) \<or>
           (hf_error f' = None \<and> \<not> formOpen kind p' \<and> hx_isLoading p' \<and> hx_hosts p' = hx_hosts p))) \<and>
    hostInputs (fst (fold (submitHostForm kind) fetches (f, p, b))) = hostInputs f \<and>
    (hostInvalid f = None \<longrightarrow> (\<exists>body label hostname. jsonParse (stringify (hostBody f)) = Some body \<and>
       jfield (js ''label'') body = Some (JStr label) \<and> label \<noteq> [] \<and> jfield (js ''hostname'') body = Some (JStr hostname) \<and> hostname \<noteq> []))"
proof -
  have fields: "jfield (js ''label'') (hostBody f) = Some (JStr (trim (hf_label f)))" "jfield (js ''hostname'') (hostBody f) = Some (JStr (trim (hf_hostname f)))"
    by (simp_all add: hostBody_def jfield_def optMember_def nonBlank_def map_add_def)
  have first: "case submitHostForm kind fetch (f, p, b) of (f', p', b') \<Rightarrow>
      \<not> hf_loading f' \<and>
      (case hostInvalid f of
         Some m \<Rightarrow> p' = p \<and> b' = b \<and> hf_error f' = Some (PageText m)
       | None \<Rightarrow>
           (\<exists>e. hf_error f' = Some (PageApi e) \<and> p' = p) \<or>
           (hf_error f' = None \<and> \<not> formOpen kind p' \<and> hx_isLoading p' \<and> hx_hosts p' = hx_hosts p))"
  proof (cases "hostInvalid f")
    case None
    obtain r p' b' where s: "formSend kind fetch (hostBody f) (p, b) = (r, p', b')" by (rule prod_cases3)
    show ?thesis using submitHostForm_valid [OF None s] formSend_outcome [OF s assms] by (cases r) (simp_all add: None)
  qed (simp add: submitHostForm_invalid)
  have "hostInvalid f = None \<Longrightarrow> trim (hf_label f) \<noteq> [] \<and> trim (hf_hostname f) \<noteq> []" by (auto simp: hostInvalid_def split: if_splits)
  then show ?thesis using first host_form.retries_keep_inputs fields jsonParse_stringify [OF wf_hostBody] by blast
qed

definition toy_hosts_page :: hosts_page where
  "toy_hosts_page = newHostsPage\<lparr>hx_isLoading := False, hx_isCreating := True\<rparr>"

definition toy_host_form :: host_form where
  "toy_host_form = (newHostForm None)\<lparr>hf_label := js '' box'', hf_hostname := js ''h''\<rparr>"

definition toy_plain_browser :: browser where
  "toy_plain_browser = \<lparr>br_window = True, br_storage = empty_storage, br_protocol = js ''https:'', br_host = js ''x'', br_href = None\<rparr>"

theorem host_form_outcome_witness:
  "formOpen CreateForm toy_hosts_page \<and> hostInvalid toy_host_form = None \<and>
   (case submitHostForm CreateForm (\<lambda>q. None) (toy_host_form, toy_hosts_page, toy_plain_browser) of (f', p', b') \<Rightarrow>
      hf_error f' = Some (PageApi NetworkError) \<and> p' = toy_hosts_page) \<and>
   hostInputs (fst (submitHostForm CreateForm (\<lambda>q. None) (toy_host_form, toy_hosts_page, toy_plain_browser))) = (js '' box'', js ''h'', [], 22, [])"
proof -
  have "trim (js '' box'') = js ''box''" "trim (js ''h'') = js ''h''" by code_simp+
  then have v: "hostInvalid toy_host_form = None" by (simp add: hostInvalid_def toy_host_form_def)
  have o: "formOpen CreateForm toy_hosts_page" by (simp add: toy_hosts_page_def)
  have i: "hostInputs toy_host_form = (js '' box'', js ''h'', [], 22, [])" by (simp add: hostInputs_def toy_host_form_def newHostForm_def)
  have "formSend CreateForm (\<lambda>q. None) (hostBody toy_host_form) (toy_hosts_page, toy_plain_browser) = (Inl NetworkError, toy_hosts_page, toy_plain_browser)"
    by (simp add: handleCreate_def createHost_def fetchApi_def getToken_def toy_plain_browser_def getItem_def empty_storage_def)
  from submitHostForm_valid [OF v this] host_form_outcome [OF o, where fetch = "\<lambda>q. None" and f = toy_host_form and b = toy_plain_browser and fetches = "[\<lambda>q. None]"] v o i
  show ?thesis by simp
qed

text \<open>The pairing page: an incomplete form sends nothing however often it is submitted, and a code that can be submitted
  for a host of the server (whose ids are not 0) is never answered with the request to choose one.\<close>

theorem pair_incomplete_sends_nothing:
  "pairInvalid p = Some m \<Longrightarrow> snd (fold handlePair fetches (p, b)) = b"
  by (rule pair_form.invalid_sends_nothing)

lemma pair_ready:
  "canPair p \<Longrightarrow> pp_selectedHostId p \<noteq> Some 0 \<Longrightarrow> pairInvalid p \<noteq> Some (js ''Please select or create a host'')"
  by (auto simp: canPair_def pairInvalid_def pairRequest_def split: if_splits option.splits)

text \<open>A port that was shown is read back; a field that is emptied is not sent, so an update cannot clear it, and the
  server keeps the old value of what it does not find in the body.\<close>

lemma typePort_shown: "i \<noteq> 0 \<Longrightarrow> typePort (showInt i) = i"
  by (simp add: typePort_def parseIntJs_showInt)

theorem cleared_user_not_sent:
  "trim (hf_sshUser f) = [] \<Longrightarrow> jfield (js ''ssh_user'') (hostBody f) = None"
  by (auto simp: hostBody_def jfield_def optMember_def nonBlank_def)

text \<open>A deletion that fails leaves the page as it is, without an error: nothing awaits the promise.\<close>

theorem failed_delete_is_silent:
  "handleDelete fetch i (p, b) = (Inl e, p', b') \<Longrightarrow> p' = p"
  by (auto simp: handleDelete_def split: prod.splits sum.splits)

text \<open>The passkey page never asks for the deletion of the only passkey it shows, and a failed addition or deletion
  leaves its list as it was.\<close>

lemma askDelete_guard: "pk_passkeys p = JArr ks \<Longrightarrow> length ks \<le> 1 \<Longrightarrow> askDelete i p = p"
  by (simp add: askDelete_def)

lemma failed_passkey_actions:
  "pk_error (fst (handleDeletePasskey fetch (p, b))) \<noteq> pk_error p \<Longrightarrow> pk_passkeys (fst (handleDeletePasskey fetch (p, b))) = pk_passkeys p"
  "pk_error (fst (handleAddPasskey fetch supported register (p, b))) \<noteq> None \<Longrightarrow> pk_passkeys (fst (handleAddPasskey fetch supported register (p, b))) = pk_passkeys p"
  "\<not> pk_adding (fst (handleAddPasskey fetch supported register (p, b)))"
  by (auto simp: handleDeletePasskey_def handleAddPasskey_def loadPasskeys_def Let_def split: option.splits sum.splits prod.splits if_splits)

end
