(* ===== verification/Widgets.thy ===== *)
theory Widgets
  imports Dashboard Api MasterKey
begin

text \<open>
  The smaller components: the dialogs of the terminal (\<open>components/WebAuthnDialog.tsx\<close>, \<open>components/PasswordDialog.tsx\<close>), the
  CA key card (\<open>components/CAPublicKeyDownload.tsx\<close>), the worker badge (\<open>components/WorkerStatusIndicator.tsx\<close>), and what
  the dashboard and the details panel print about a session (\<open>pages/DashboardPage.tsx\<close>,
  \<open>components/SessionDetailPanel.tsx\<close>).
\<close>

subsection \<open>Unlock dialog\<close>

text \<open>The refs of the dialog, and how often it called \<open>onCancel\<close>.\<close>

record auth_dialog =
  ad_localError :: "jsstring option"
  ad_inProgress :: bool
  ad_succeeded :: bool
  ad_cancels :: nat

definition newAuthDialog :: auth_dialog where
  "newAuthDialog = \<lparr>ad_localError = None, ad_inProgress = False, ad_succeeded = False, ad_cancels = 0\<rparr>"

definition handleAuthenticate :: "auth_dialog \<Rightarrow> auth_dialog" where
  "handleAuthenticate d = d\<lparr>ad_localError := None, ad_inProgress := True, ad_succeeded := False\<rparr>"

text \<open>The promise of \<open>onAuthenticate\<close> settles; \<open>Inl\<close> is the message of an exception.\<close>

definition authenticateDone :: "jsstring + unit \<Rightarrow> auth_dialog \<Rightarrow> auth_dialog" where
  "authenticateDone r d =
     (case r of
        Inr u \<Rightarrow> d\<lparr>ad_succeeded := True, ad_inProgress := False\<rparr>
      | Inl m \<Rightarrow> d\<lparr>ad_localError := Some m, ad_inProgress := False\<rparr>)"

definition handleOpenChange :: "bool \<Rightarrow> auth_dialog \<Rightarrow> auth_dialog" where
  "handleOpenChange opened d =
     (if \<not> opened \<and> ad_inProgress d then d
      else if \<not> opened \<and> ad_succeeded d then d\<lparr>ad_succeeded := False\<rparr>
      else if \<not> opened then d\<lparr>ad_cancels := Suc (ad_cancels d)\<rparr>
      else d)"

definition displayError :: "jsstring option \<Rightarrow> auth_dialog \<Rightarrow> jsstring option" where
  "displayError err d = (if truthy err then err else ad_localError d)"

subsection \<open>Password dialog\<close>

record password_dialog =
  pd_password :: jsstring
  pd_error :: jsstring

text \<open>The password given to \<open>onSubmit\<close>, if any: as typed, not trimmed.\<close>

definition submitPassword :: "password_dialog \<Rightarrow> jsstring option \<times> password_dialog" where
  "submitPassword d =
     (if trim (pd_password d) = [] then (None, d\<lparr>pd_error := js ''Password is required''\<rparr>)
      else (Some (pd_password d), \<lparr>pd_password = [], pd_error = []\<rparr>))"

definition cancelPassword :: "password_dialog \<Rightarrow> password_dialog" where
  "cancelPassword d = \<lparr>pd_password = [], pd_error = []\<rparr>"

subsection \<open>CA key card\<close>

text \<open>\<open>s.split(' ')\<close>.\<close>

fun splitSpace :: "jsstring \<Rightarrow> jsstring list" where
  "splitSpace [] = [[]]"
| "splitSpace (u # s) =
     (if u = 32 then [] # splitSpace s
      else (case splitSpace s of w # ws \<Rightarrow> (u # w) # ws | [] \<Rightarrow> [[u]]))"

text \<open>The component's own \<open>computeFingerprint\<close>, from the text of the key; \<open>sha256\<close> is the hash of the noble library.\<close>

definition keyFingerprint :: "(bytes \<Rightarrow> bytes) \<Rightarrow> jsstring \<Rightarrow> base64_error + jsstring" where
  "keyFingerprint sha256 openSSHKey =
     (let parts = splitSpace openSSHKey
      in if length parts < 2 then Inr (js ''Invalid key format'')
         else bindE (atob (parts ! 1)) (\<lambda>wireFormat.
              bindE (btoa (fromCharCodes (sha256 (storeCodes wireFormat 0 (newUint8Array (length wireFormat)))))) (\<lambda>base64Hash.
                Inr (js ''SHA256:'' @ stripTrailingPad base64Hash))))"

fun jsIncludes :: "jsstring \<Rightarrow> jsstring \<Rightarrow> bool" where
  "jsIncludes pat [] = (pat = [])"
| "jsIncludes pat (u # s) = (take (length pat) (u # s) = pat \<or> jsIncludes pat s)"

datatype key_error = KeyApi api_error | KeyType | KeyDecode

text \<open>\<open>err.message\<close>: what \<open>fetchApi\<close> throws for a response is its text; the texts of the platform's exceptions are a
  parameter.\<close>

definition keyMessage :: "(key_error \<Rightarrow> jsstring) \<Rightarrow> key_error \<Rightarrow> jsstring" where
  "keyMessage platform e =
     (case e of KeyApi (HttpError m) \<Rightarrow> m | KeyApi Unauthorized \<Rightarrow> js ''Unauthorized'' | _ \<Rightarrow> platform e)"

definition notConfigured :: jsstring where
  "notConfigured = js ''SSH CA not configured. Register with a passkey that supports PRF.''"

record ca_card =
  ca_publicKey :: jsstring
  ca_fingerprint :: jsstring
  ca_error :: jsstring
  ca_isLoading :: bool

definition newCard :: ca_card where
  "newCard = \<lparr>ca_publicKey = [], ca_fingerprint = [], ca_error = [], ca_isLoading = True\<rparr>"

definition cardError :: "(key_error \<Rightarrow> jsstring) \<Rightarrow> key_error \<Rightarrow> jsstring" where
  "cardError platform e = (if jsIncludes (js ''404'') (keyMessage platform e) then notConfigured else keyMessage platform e)"

text \<open>\<open>loadPublicKey\<close> after its request. The key is stored before its fingerprint is computed.\<close>

definition loadPublicKey :: "(key_error \<Rightarrow> jsstring) \<Rightarrow> (bytes \<Rightarrow> bytes) \<Rightarrow> api_error + json \<Rightarrow> ca_card \<Rightarrow> ca_card" where
  "loadPublicKey platform sha256 r c =
     (case r of
        Inl e \<Rightarrow> c\<lparr>ca_error := cardError platform (KeyApi e), ca_isLoading := False\<rparr>
      | Inr response \<Rightarrow>
          (case jfield (js ''public_key'') response of
             Some (JStr k) \<Rightarrow>
               (case keyFingerprint sha256 k of
                  Inl e \<Rightarrow> c\<lparr>ca_publicKey := k, ca_error := cardError platform KeyDecode, ca_isLoading := False\<rparr>
                | Inr fp \<Rightarrow> c\<lparr>ca_publicKey := k, ca_fingerprint := fp, ca_isLoading := False\<rparr>)
           | _ \<Rightarrow> c\<lparr>ca_error := cardError platform KeyType, ca_isLoading := False\<rparr>))"

text \<open>\<open>handleDownload\<close>: the content of the file.\<close>

definition handleDownload :: "ca_card \<Rightarrow> jsstring option" where
  "handleDownload c = (if ca_publicKey c = [] then None else Some (ca_publicKey c))"

text \<open>The dashboard's own download: a file or an alert.\<close>

datatype download = SavedFile jsstring | AlertText jsstring

definition handleDownloadCAKey :: "(key_error \<Rightarrow> jsstring) \<Rightarrow> (json option \<Rightarrow> jsstring) \<Rightarrow> api_error + json \<Rightarrow> download" where
  "handleDownloadCAKey platform blobText r =
     (let failed = (\<lambda>e. AlertText (if jsIncludes (js ''404'') (keyMessage platform e) then notConfigured else js ''Failed to download CA key''))
      in case r of
           Inl e \<Rightarrow> failed (KeyApi e)
         | Inr response \<Rightarrow> if response = JNull then failed KeyType else SavedFile (blobText (jfield (js ''public_key'') response)))"

subsection \<open>What the pages print\<close>

text \<open>\<open>formatTime\<close> of the worker badge.\<close>

definition badgeTime :: "nat \<Rightarrow> jsstring" where
  "badgeTime seconds =
     (let secs = showNat (seconds mod 60)
      in showNat (seconds div 60) @ js '':'' @ (if length secs < 2 then js ''0'' @ secs else secs))"

text \<open>\<open>formatRelativeTime\<close>: \<open>getTime\<close> reads a date (\<open>None\<close> is \<open>NaN\<close>), \<open>formatDate\<close> prints it in the user's locale.\<close>

definition formatRelativeTime :: "(jsstring \<Rightarrow> int option) \<Rightarrow> (jsstring \<Rightarrow> jsstring) \<Rightarrow> int \<Rightarrow> jsstring option \<Rightarrow> jsstring" where
  "formatRelativeTime getTime formatDate now dateStr =
     (if \<not> truthy dateStr then js ''Never''
      else (case getTime (the dateStr) of
         None \<Rightarrow> formatDate (the dateStr)
       | Some t \<Rightarrow>
           (let diffMins = (now - t) div 60000
            in if diffMins < 1 then js ''Just now''
               else if diffMins < 60 then showInt diffMins @ js ''m ago''
               else let diffHours = diffMins div 60
                    in if diffHours < 24 then showInt diffHours @ js ''h ago'' else formatDate (the dateStr))))"

text \<open>\<open>Object.keys\<close>: each name once, array indices first and in order.\<close>

definition isIndexKey :: "jsstring \<Rightarrow> bool" where
  "isIndexKey k \<longleftrightarrow> k \<noteq> [] \<and> list_all isDigit k \<and> showNat (decimalValue k) = k \<and> decimalValue k < 2 ^ 32 - 1"

fun firsts :: "'a list \<Rightarrow> 'a list" where
  "firsts [] = []"
| "firsts (x # xs) = x # filter (\<lambda>y. y \<noteq> x) (firsts xs)"

definition objectKeys :: "json \<Rightarrow> jsstring list option" where
  "objectKeys v =
     (case v of
        JNull \<Rightarrow> None
      | JObj ms \<Rightarrow>
          (let ks = firsts (map fst ms)
           in Some (sort_key decimalValue (filter isIndexKey ks) @ filter (\<lambda>k. \<not> isIndexKey k) ks))
      | JArr xs \<Rightarrow> Some (map showNat [0..<length xs])
      | JStr s \<Rightarrow> Some (map showNat [0..<length s])
      | _ \<Rightarrow> Some [])"

text \<open>\<open>parsed[k]\<close> for one of its own keys.\<close>

definition ownValue :: "json \<Rightarrow> jsstring \<Rightarrow> json" where
  "ownValue v k =
     (case v of
        JArr xs \<Rightarrow> xs ! decimalValue k
      | JStr s \<Rightarrow> JStr [s ! decimalValue k]
      | _ \<Rightarrow> (case jfield k v of Some x \<Rightarrow> x | None \<Rightarrow> JNull))"

definition hiddenKeys :: "jsstring list" where
  "hiddenKeys = [js ''session_id'', js ''name'', js ''start_time'', js ''status'']"

definition parseMetadata :: "(jsstring \<Rightarrow> jsstring) \<Rightarrow> jsstring option \<Rightarrow> jsstring" where
  "parseMetadata showNum metadata =
     (if \<not> truthy metadata then js ''-''
      else (case Option.bind (jsonParse (the metadata)) (\<lambda>parsed. map_option (Pair parsed) (objectKeys parsed)) of
         None \<Rightarrow> js ''-''
       | Some (parsed, ks) \<Rightarrow>
           (let txt = join (js '', '') (map (\<lambda>k. k @ js '': '' @ toStringJ showNum (ownValue parsed k)) (filter (\<lambda>k. k \<notin> set hiddenKeys) ks))
            in if txt = [] then js ''-'' else txt)))"

text \<open>\<open>handleDeleteStale\<close> after its request: the alert, and whether the list is reloaded.\<close>

definition handleDeleteStale :: "(jsstring \<Rightarrow> jsstring) \<Rightarrow> api_error + json \<Rightarrow> (jsstring \<times> bool) option" where
  "handleDeleteStale showNum r =
     (case r of
        Inl e \<Rightarrow> None
      | Inr result \<Rightarrow>
          if result = JNull then None
          else Some (js ''Deleted '' @ (case jfield (js ''deleted'') result of Some v \<Rightarrow> toStringJ showNum v | None \<Rightarrow> js ''undefined'') @ js '' stale session(s)'', True))"

text \<open>The two tabs of the details panel and the count beside an active filter.\<close>

datatype panel_tab = TabSessions | TabDetails

definition filterSummary :: "'t list \<Rightarrow> nat option \<Rightarrow> 's list \<Rightarrow> jsstring option" where
  "filterSummary selectedTags totalCount shown =
     (if selectedTags \<noteq> [] then
        Some (showNat (length shown) @ js '' of '' @ showNat (case totalCount of Some n \<Rightarrow> n | None \<Rightarrow> length shown))
      else None)"

definition sessionLabel :: "session \<Rightarrow> jsstring" where
  "sessionLabel s = (if se_name s \<noteq> [] then se_name s else se_id s)"

definition hostLabel :: "session \<Rightarrow> jsstring" where
  "hostLabel s =
     (case se_host s of
        None \<Rightarrow> js ''-''
      | Some h \<Rightarrow> if ho_label h \<noteq> [] then ho_label h else if ho_hostname h \<noteq> [] then ho_hostname h else js ''-'')"

subsection \<open>Laws\<close>

lemma splitSpace_word: "32 \<notin> set w \<Longrightarrow> splitSpace (w @ 32 # s) = w # splitSpace s"
  by (induction w) simp_all

lemma splitSpace_nonempty: "splitSpace s \<noteq> []"
  by (induction s) (auto split: list.split)

lemma b64char_not_space: "n < 64 \<Longrightarrow> b64char n \<noteq> 32"
proof -
  have "list_all (\<lambda>n. b64char n \<noteq> 32) [0..<64]" by code_simp
  then show "n < 64 \<Longrightarrow> ?thesis" by (simp add: list_all_iff)
qed

lemma b64enc_not_space: "32 \<notin> set (b64enc (map unat (bs :: bytes)))"
proof -
  have "\<forall>n\<in>set (sextets (map unat bs)). n < 64" by (intro sextets_lt) simp
  then show ?thesis using b64char_not_space by (auto simp: b64enc_sextets)
qed

lemma storeCodes_all: "storeCodes b 0 (newUint8Array (length b)) = charCodes b"
  by (simp add: storeCodes_eq charCodes_def)

lemma atob_charCodes: "\<exists>s. atob (b64enc (map unat bs)) = Inr s \<and> charCodes s = (bs :: bytes)"
  using decodeBase64_b64enc [of bs] by (auto simp: decodeBase64_def bindE_def split: sum.splits)

lemma firsts_spec: "distinct (firsts xs) \<and> set (firsts xs) = set xs"
  by (induction xs) auto

lemma objectKeys_object:
  assumes "objectKeys (JObj ms) = Some ks"
  shows "distinct ks \<and> set ks = fst ` set ms"
proof -
  have "ks = sort_key decimalValue (filter isIndexKey (firsts (map fst ms))) @ filter (\<lambda>k. \<not> isIndexKey k) (firsts (map fst ms))"
    using assms by (simp add: objectKeys_def Let_def)
  moreover have "distinct (firsts (map fst ms))" "set (firsts (map fst ms)) = set (map fst ms)" using firsts_spec [of "map fst ms"] by simp_all
  ultimately show ?thesis by (simp only: distinct_append distinct_sort distinct_filter set_append linorder_class.set_sort set_filter set_map) blast
qed

text \<open>A close is ignored while the authentication runs, and every other close without a success is one cancel.\<close>

lemma close_while_authenticating:
  "handleOpenChange False (handleAuthenticate d) = handleAuthenticate d"
  "\<not> ad_inProgress d \<Longrightarrow> \<not> ad_succeeded d \<Longrightarrow> ad_cancels (handleOpenChange False d) = Suc (ad_cancels d)"
  by (simp_all add: handleOpenChange_def handleAuthenticate_def)

text \<open>The unlock flow of the terminal handles its errors itself and its promise always resolves: for the dialog a
  failed unlock is a success, and the next close is swallowed.\<close>

theorem failed_unlock_swallows_close:
  "ad_cancels (handleOpenChange False (authenticateDone (Inr ()) (handleAuthenticate d))) = ad_cancels d"
  by (simp add: handleOpenChange_def handleAuthenticate_def authenticateDone_def)

text \<open>The message for an account without a CA tests for the text \<open>404\<close>, which the body of the server's answer
  does not contain.\<close>

definition noCA :: http_response where
  "noCA = \<lparr>rs_status = 404, rs_content_length = Some (js ''17''), rs_text = js ''SSH CA not found'' @ [10]\<rparr>"

theorem missing_CA_not_recognised:
  "handleDownloadCAKey platform blobText (readResponse noCA) = AlertText (js ''Failed to download CA key'') \<and>
   ca_error (loadPublicKey platform sha256 (readResponse noCA) newCard) \<noteq> notConfigured"
proof -
  have r: "readResponse noCA = Inl (HttpError (js ''SSH CA not found'' @ [10]))" by (simp add: readResponse_def noCA_def rs_ok_def)
  have i: "jsIncludes (js ''404'') (js ''SSH CA not found'' @ [10]) = False" by code_simp
  have n: "js ''SSH CA not found'' @ [10] \<noteq> notConfigured" by code_simp
  show ?thesis using i n by (simp add: r handleDownloadCAKey_def loadPublicKey_def cardError_def keyMessage_def del: js_append)
qed

lemma badgeTime_digits: "length (badgeTime n) = length (showNat (n div 60)) + 3"
proof -
  have "length (showNat (n mod 60)) = 1 \<or> length (showNat (n mod 60)) = 2"
    by (cases "n mod 60 < 10") (simp_all add: showNat_def natDigits.simps)
  then show ?thesis by (auto simp: badgeTime_def Let_def)
qed

subsection \<open>Properties\<close>

text \<open>The two computations of a CA fingerprint agree. \<open>computeFingerprint\<close> of \<open>lib/crypto/ssh.ts\<close> works on the raw key
  with WebCrypto, the card's on the OpenSSH text with another library; for every key, printed with any comment, and
  hash functions that are the same function, both succeed with the same text.\<close>

theorem fingerprints_agree:
  assumes "\<And>bs. sha256 bs = digest_sha256 w bs"
  shows "\<exists>s fp. formatOpenSSHKey pk comment = Inr s \<and> keyFingerprint sha256 s = Inr fp \<and> computeFingerprint w pk = Inr fp"
proof -
  obtain wire where wire: "formatOpenSSHWire pk = Inr wire" using formatOpenSSHWire_eq by blast
  let ?b = "b64enc (map unat wire)" and ?h = "b64enc (map unat (digest_sha256 w wire))"
  have key: "formatOpenSSHKey pk comment = Inr (js ''ssh-ed25519'' @ 32 # ?b @ 32 # comment)"
    by (simp add: formatOpenSSHKey_def wire btoa_bytes js_def)
  have "splitSpace (js ''ssh-ed25519'' @ 32 # ?b @ 32 # comment) = js ''ssh-ed25519'' # ?b # splitSpace comment"
    using b64enc_not_space by (simp add: splitSpace_word js_def)
  moreover obtain s where "atob ?b = Inr s" "charCodes s = wire" using atob_charCodes by blast
  ultimately have "keyFingerprint sha256 (js ''ssh-ed25519'' @ 32 # ?b @ 32 # comment) = Inr (js ''SHA256:'' @ stripTrailingPad ?h)"
    by (simp add: keyFingerprint_def storeCodes_all assms btoa_bytes)
  moreover have "computeFingerprint w pk = Inr (js ''SHA256:'' @ stripTrailingPad ?h)"
    by (simp add: computeFingerprint_def wire btoa_bytes)
  ultimately show ?thesis using key by blast
qed

theorem fingerprints_agree_witness:
  "\<exists>s fp. formatOpenSSHKey [1, 2, 3] (js ''devsesh-ca'') = Inr s \<and> keyFingerprint (digest_sha256 toy_webcrypto) s = Inr fp \<and>
     computeFingerprint toy_webcrypto [1, 2, 3] = Inr fp"
  by (rule fingerprints_agree) (rule refl)

end
