(* ===== verification/EnrollUnlock.thy ===== *)
theory EnrollUnlock
  imports Enrollment Unlock
begin

text \<open>
  The WebAuthn part of \<open>completeRegistration\<close> in \<open>web/src/pages/RegisterPasskeyPage.tsx\<close>: the request to a passkey that the new
  device already has, the creation of a new one with the PRF extension, and the upload of the wrapped master key. Theory
  \<open>Enrollment\<close> takes the outcome of these as arguments; here they are computed, so that an enrollment can be
  followed by the unlock of theory \<open>Unlock\<close> on the same device.
\<close>

subsection \<open>Ceremonies\<close>

text \<open>The request to an existing passkey names no credential.\<close>

definition existingRequest :: "bytes \<Rightarrow> json option \<Rightarrow> request_options" where
  "existingRequest challenge rpId =
     \<lparr>ro_challenge = challenge, ro_timeout = None, ro_rpId = rpId, ro_userVerification = Some (JStr (js ''required'')), ro_allow = None,
      ro_prf = \<lparr>prf_eval = Some getPrfSalt, prf_evalByCredential = None\<rparr>\<rparr>"

text \<open>Every exception, and an answer without a PRF output, falls through to the creation.\<close>

definition existingCeremony :: "authenticator \<Rightarrow> jsstring \<Rightarrow> bytes \<Rightarrow> json option \<Rightarrow> (credential \<times> bytes) option" where
  "existingCeremony wn hostname challenge options =
     (case bindE (memberE ''rp'' options) (\<lambda>rp. bindE (rpIdOf hostname rp) (\<lambda>rpId. wn_get wn (existingRequest challenge rpId))) of
        Inr (Some assertion) \<Rightarrow> map_option (Pair assertion) (cr_prfFirst assertion)
      | _ \<Rightarrow> None)"

text \<open>The creation: the PRF output comes from the creation itself when the authenticator gives one, otherwise from a
  request to the new credential.\<close>

definition createCeremony :: "authenticator \<Rightarrow> jsstring \<Rightarrow> bytes \<Rightarrow> json option \<Rightarrow> wa_error + (credential \<times> bytes)" where
  "createCeremony wn hostname challenge options =
     bindE (creationOptions options) (\<lambda>publicKeyOptions.
     bindE (wn_create wn publicKeyOptions) (\<lambda>r.
       case r of
         None \<Rightarrow> Inl WaCancelled
       | Some cred \<Rightarrow>
           (case cr_prfFirst cred of
              Some out \<Rightarrow> Inr (cred, out)
            | None \<Rightarrow>
                if cr_prfEnabled cred then
                  bindE (rpIdOf hostname (co_rp publicKeyOptions)) (\<lambda>rpId.
                  bindE (prfE (buildPrfGetExtension [cr_rawId cred] getPrfSalt)) (\<lambda>prf.
                  bindE (wn_get wn (prfRequest challenge rpId (cr_rawId cred) prf)) (\<lambda>a.
                    case a of
                      None \<Rightarrow> Inl WaPrfGetFailed
                    | Some assertion \<Rightarrow>
                        (case cr_prfFirst assertion of Some out \<Rightarrow> Inr (cred, out) | None \<Rightarrow> Inl WaPrfRequired))))
                else Inl WaPrfRequired)))"

subsection \<open>Uploads\<close>

record device =
  dv_auth :: authenticator
  dv_fetch :: server
  dv_b64u :: "bytes \<Rightarrow> jsstring"
  dv_hostname :: jsstring

text \<open>The random bytes of the tap: a challenge and two nonces for either ceremony.\<close>

record tap_random =
  tr_challenge1 :: bytes
  tr_nonce1 :: bytes
  tr_confNonce1 :: bytes
  tr_challenge2 :: bytes
  tr_nonce2 :: bytes
  tr_confNonce2 :: bytes

definition blobFor :: "enroll_env \<Rightarrow> bytes \<Rightarrow> bytes \<Rightarrow> bytes \<Rightarrow> crypto_error + jsstring" where
  "blobFor env nonce masterKey prfOut = wrapMasterKey (en_crypto env) nonce (deriveMasterKeyFromPrf (en_crypto env) prfOut) masterKey"

definition existingUpload :: "enroll_env \<Rightarrow> device \<Rightarrow> tap_random \<Rightarrow> json option \<Rightarrow> bytes \<Rightarrow> browser \<Rightarrow> (credential \<times> bytes \<times> (api_error + unit)) option \<times> browser" where
  "existingUpload env dv rnd options masterKey b =
     (case existingCeremony (dv_auth dv) (dv_hostname dv) (tr_challenge1 rnd) options of
        None \<Rightarrow> (None, b)
      | Some (assertion, prfOut) \<Rightarrow>
          (case blobFor env (tr_nonce1 rnd) masterKey prfOut of
             Inl e \<Rightarrow> (Some (assertion, prfOut, Inr ()), b)
           | Inr blob \<Rightarrow>
               (case addMasterKeyBlob (dv_fetch dv) (dv_b64u dv (cr_rawId assertion)) blob b of
                  (r, b') \<Rightarrow> (Some (assertion, prfOut, r), b'))))"

definition createdUpload ::
  "enroll_env \<Rightarrow> device \<Rightarrow> tap_random \<Rightarrow> json option \<Rightarrow> jsstring \<Rightarrow> bytes \<Rightarrow> browser \<Rightarrow> (credential option \<times> bytes option \<times> (api_error + unit)) option \<times> browser" where
  "createdUpload env dv rnd options code masterKey b =
     (case createCeremony (dv_auth dv) (dv_hostname dv) (tr_challenge2 rnd) options of
        Inl WaPrfRequired \<Rightarrow> (Some (None, None, Inr ()), b)
      | Inl e \<Rightarrow> (None, b)
      | Inr (cred, prfOut) \<Rightarrow>
          (case blobFor env (tr_nonce2 rnd) masterKey prfOut of
             Inl e \<Rightarrow> (Some (Some cred, Some prfOut, Inr ()), b)
           | Inr blob \<Rightarrow>
               (case voidResult (enrollmentComplete (dv_fetch dv) code (credentialJSON (dv_b64u dv) cred) blob b) of
                  (r, b') \<Rightarrow> (Some (Some cred, Some prfOut, r), b'))))"

text \<open>The tap: the machine afterwards, the credential whose blob is stored, and the browser.\<close>

definition registerDevice ::
  "enroll_env \<Rightarrow> device \<Rightarrow> tap_random \<Rightarrow> json option \<Rightarrow> jsstring \<Rightarrow> machine_b \<times> browser \<Rightarrow> machine_b \<times> (credential \<times> jsstring) option \<times> browser" where
  "registerDevice env dv rnd options code mb =
     (case mb of (m, b) \<Rightarrow>
        (case mb_masterKey m of
           None \<Rightarrow> (fst (completeRegistration env (tr_nonce1 rnd) (tr_confNonce1 rnd) None None m), None, b)
         | Some masterKey \<Rightarrow>
             (case existingUpload env dv rnd options masterKey b of (existing, b1) \<Rightarrow>
                (case completeRegistration env (tr_nonce1 rnd) (tr_confNonce1 rnd) (map_option snd existing) None m of
                   (m', Some blob) \<Rightarrow> (m', map_option (\<lambda>x. (fst x, blob)) existing, b1)
                 | (m', None) \<Rightarrow>
                     (case createdUpload env dv rnd options code masterKey b1 of (created, b2) \<Rightarrow>
                        (case completeRegistration env (tr_nonce2 rnd) (tr_confNonce2 rnd) None (map_option snd created) m of
                           (m'', Some blob) \<Rightarrow> (m'', Option.bind created (\<lambda>x. map_option (\<lambda>c. (c, blob)) (fst x)), b2)
                         | (m'', None) \<Rightarrow> (m'', None, b2)))))))"

subsection \<open>What the ceremonies yield\<close>

text \<open>The promise of the PRF extension for the output given at the creation.\<close>

definition prf_created :: "authenticator \<Rightarrow> (bytes \<Rightarrow> bytes \<Rightarrow> bytes) \<Rightarrow> bool" where
  "prf_created wn prf \<longleftrightarrow>
     (\<forall>co c s out. wn_create wn co = Inr (Some c) \<longrightarrow> prf_eval (co_prf co) = Some s \<longrightarrow> cr_prfFirst c = Some out \<longrightarrow> out = prf (cr_rawId c) s)"

lemma existingCeremony_prf:
  assumes "existingCeremony wn hostname challenge options = Some (a, out)" and "prf_consistent wn prf"
  shows "out = prf (cr_rawId a) getPrfSalt"
proof -
  obtain rpId where g: "wn_get wn (existingRequest challenge rpId) = Inr (Some a)" "cr_prfFirst a = Some out"
    using assms(1) by (auto simp: existingCeremony_def bindE_def split: sum.splits option.splits)
  have "prfSaltFor (ro_prf (existingRequest challenge rpId)) (cr_rawId a) = Some getPrfSalt" by (simp add: prfSaltFor_def existingRequest_def)
  then show ?thesis using g assms(2) unfolding prf_consistent_def by blast
qed

lemma creationOptions_salt: "creationOptions options = Inr co \<Longrightarrow> prf_eval (co_prf co) = Some getPrfSalt"
  by (auto simp: creationOptions_def bindE_Inr_iff)

lemma prfRequest_prf:
  assumes "wn_get wn (prfRequest challenge rpId rawId x) = Inr (Some a)" and "cr_prfFirst a = Some out" and "prf_consistent wn prf"
    and "buildPrfGetExtension [rawId] getPrfSalt = Inr x"
  shows "out = prf rawId getPrfSalt"
proof -
  have raw: "cr_rawId a = rawId" using assms(1,3) unfolding prf_consistent_def by (fastforce simp: prfRequest_def)
  moreover have "prfSaltFor x (cr_rawId a) = Some getPrfSalt" using buildPrf_salt [OF assms(4)] raw by simp
  ultimately show ?thesis using assms(1-3) unfolding prf_consistent_def by (fastforce simp: prfRequest_def)
qed

lemma createCeremony_prf:
  assumes "createCeremony wn hostname challenge options = Inr (cred, out)" and "prf_consistent wn prf" and "prf_created wn prf"
  shows "out = prf (cr_rawId cred) getPrfSalt"
proof -
  obtain co where co: "creationOptions options = Inr co" "wn_create wn co = Inr (Some cred)"
    using assms(1) by (auto simp: createCeremony_def bindE_Inr_iff case_option_Inr_iff split: option.splits if_splits)
  show ?thesis
  proof (cases "cr_prfFirst cred")
    case (Some first)
    then have "out = first" using assms(1) co by (simp add: createCeremony_def)
    then show ?thesis using Some co assms(3) creationOptions_salt [OF co(1)] unfolding prf_created_def by blast
  next
    case None
    then obtain rpId x a where "buildPrfGetExtension [cr_rawId cred] getPrfSalt = Inr x"
        "wn_get wn (prfRequest challenge rpId (cr_rawId cred) x) = Inr (Some a)" "cr_prfFirst a = Some out"
      using assms(1) co by (auto simp: createCeremony_def bindE_Inr_iff case_option_Inr_iff split: if_splits)
    then show ?thesis using prfRequest_prf assms(2) by blast
  qed
qed

text \<open>The blob of a tap that stored one is the master key, wrapped for the PRF of the credential it is stored for.\<close>

lemma completeRegistration_blob:
  assumes "completeRegistration env rnd1 rnd2 existing created m = (m', Some blob)" and "mb_masterKey m = Some mk"
  shows "\<exists>out. wrapMasterKey (en_crypto env) rnd1 (deriveMasterKeyFromPrf (en_crypto env) out) mk = Inr blob \<and> mb_status m' = BSuccess \<and>
    (existing = Some (out, Inr ()) \<or> created = Some (Some out, Inr ()))"
proof -
  obtain key where k: "mb_sessionKey m = Some key" "mb_options m" using assms by (auto simp: completeRegistration_def split: option.splits bool.splits)
  have s: "mb_status (finishB t c x) = BSuccess" for t c x by (simp add: finishB_def Let_def)
  show ?thesis
  proof (cases "\<exists>conf. tryExistingB env rnd1 rnd2 existing mk key = Inr (Some (blob, conf))")
    case True
    then show ?thesis
      using assms k s by (auto simp: tryExistingB_def bindE_Inr_iff liftC_def liftA_def completeRegistration_def Let_def split: option.splits sum.splits)
  next
    case False
    then obtain conf where "createB env rnd1 rnd2 created mk key = Inr (blob, conf)" "mb_status m' = BSuccess"
      using assms k s by (auto simp: completeRegistration_def Let_def split: sum.splits option.splits prod.splits)
    then show ?thesis by (auto simp: createB_def bindE_Inr_iff liftC_def liftA_def split: option.splits sum.splits)
  qed
qed


lemma registerDevice_blob:
  assumes "registerDevice env dv rnd options code (m, b) = (m', Some (cred, blob), b')" and "mb_masterKey m = Some mk"
    and "prf_consistent (dv_auth dv) prf" and "prf_created (dv_auth dv) prf"
  obtains nonce where "nonce = tr_nonce1 rnd \<or> nonce = tr_nonce2 rnd"
    "wrapMasterKey (en_crypto env) nonce (deriveMasterKeyFromPrf (en_crypto env) (prf (cr_rawId cred) getPrfSalt)) mk = Inr blob" "mb_status m' = BSuccess"
proof -
  obtain existing b1 where e: "existingUpload env dv rnd options mk b = (existing, b1)" by fastforce
  obtain m1 first where c: "completeRegistration env (tr_nonce1 rnd) (tr_confNonce1 rnd) (map_option snd existing) None m = (m1, first)" by fastforce
  show ?thesis
  proof (cases first)
    case (Some x)
    then have x: "x = blob" "m1 = m'" "\<exists>r. existing = Some (cred, r)" using assms(1,2) e c by (auto simp: registerDevice_def)
    obtain out where out: "wrapMasterKey (en_crypto env) (tr_nonce1 rnd) (deriveMasterKeyFromPrf (en_crypto env) out) mk = Inr blob" "mb_status m' = BSuccess"
        "map_option snd existing = Some (out, Inr ())"
      using completeRegistration_blob [OF c [unfolded Some] assms(2)] x by auto
    then have "existingCeremony (dv_auth dv) (dv_hostname dv) (tr_challenge1 rnd) options = Some (cred, out)"
      using e x(3) by (auto simp: existingUpload_def split: option.splits sum.splits prod.splits)
    from existingCeremony_prf [OF this assms(3)] out show ?thesis by (auto intro: that)
  next
    case None
    obtain created b2 where cu: "createdUpload env dv rnd options code mk b1 = (created, b2)" by fastforce
    obtain m2 second where c2: "completeRegistration env (tr_nonce2 rnd) (tr_confNonce2 rnd) None (map_option snd created) m = (m2, second)" by fastforce
    have x: "second = Some blob" "m2 = m'" "\<exists>r. created = Some (Some cred, r)"
      using assms(1,2) e c None cu c2 by (auto simp: registerDevice_def split: option.splits Option.bind_splits)
    obtain out where out: "wrapMasterKey (en_crypto env) (tr_nonce2 rnd) (deriveMasterKeyFromPrf (en_crypto env) out) mk = Inr blob" "mb_status m' = BSuccess"
        "map_option snd created = Some (Some out, Inr ())"
      using completeRegistration_blob [OF c2 [unfolded x(1)] assms(2)] x by auto
    then have "createCeremony (dv_auth dv) (dv_hostname dv) (tr_challenge2 rnd) options = Inr (cred, out)"
      using cu x(3) by (auto simp: createdUpload_def split: sum.splits prod.splits wa_error.splits)
    from createCeremony_prf [OF this assms(3,4)] out show ?thesis by (auto intro: that)
  qed
qed

subsection \<open>Enrollment, then unlock\<close>


definition toy_device :: device where
  "toy_device = \<lparr>dv_auth = toy_authenticator, dv_fetch = answers toy_served, dv_b64u = (\<lambda>d. []), dv_hostname = js ''h''\<rparr>"

definition toy_tap :: tap_random where
  "toy_tap = \<lparr>tr_challenge1 = [], tr_nonce1 = replicate 12 0, tr_confNonce1 = replicate 12 3, tr_challenge2 = [], tr_nonce2 = replicate 12 0, tr_confNonce2 = replicate 12 3\<rparr>"

definition toy_ready :: machine_b where
  "toy_ready = relayB toy_env (relayA toy_env [9] (replicate 12 1) (Inr [toy_blob1]) (beginB toy_env [3] toy_code 0) (beginA toy_env [5] (js ''t'') (shownCode toy_code)))
     (beginB toy_env [3] toy_code 0)"


end
