(* ===== verification/View.thy ===== *)
theory View
  imports JsText
begin

text \<open>
  What the components render, as trees: an element with its text, its controls and their handlers, in the order of the
  JSX and under its conditions. Styling is left out, and an element that only groups others is a \<open>VBox\<close>. A handler is
  an event of the page (\<open>'a\<close>). \<open>offered\<close> says which events the user can cause at a tree: a disabled control causes none,
  and a form is submitted only through a submit button that is enabled. The locale \<open>single_flight\<close> is the contract of a
  page that waits for a request: its controls do not start a second one.
\<close>

datatype 'a view =
    VText jsstring
  | VBox "'a view list"
  | VButton jsstring bool 'a                                       \<comment> \<open>label, \<open>disabled\<close>, \<open>onClick\<close>\<close>
  | VClick 'a "'a view list"                                       \<comment> \<open>a button around other elements\<close>
  | VInput jsstring jsstring bool "jsstring \<Rightarrow> 'a"                \<comment> \<open>label, \<open>value\<close>, \<open>disabled\<close>, \<open>onChange\<close>\<close>
  | VCheck jsstring bool 'a                                        \<comment> \<open>label, \<open>checked\<close>, \<open>onChange\<close>\<close>
  | VSelect jsstring bool "(jsstring \<times> jsstring) list" "jsstring \<Rightarrow> 'a" \<comment> \<open>\<open>value\<close>, \<open>disabled\<close>, options with their texts, \<open>onChange\<close>\<close>
  | VForm 'a "'a view list"                                        \<comment> \<open>\<open>onSubmit\<close>\<close>
  | VSubmit jsstring bool                                          \<comment> \<open>the submit button of the form around it\<close>
  | VLink jsstring "'a view list"                                  \<comment> \<open>where it leads\<close>
  | VKey jsstring 'a                                               \<comment> \<open>a key that is listened to\<close>

text \<open>\<open>{condition && element}\<close>.\<close>

definition onlyIf :: "bool \<Rightarrow> 'a view \<Rightarrow> 'a view list" where
  "onlyIf c v = (if c then [v] else [])"

text \<open>A line with the text of an error, if there is one; \<open>msg\<close> is the text.\<close>

definition errorLine :: "('e \<Rightarrow> jsstring) \<Rightarrow> 'e option \<Rightarrow> 'a view list" where
  "errorLine msg e = (case e of None \<Rightarrow> [] | Some x \<Rightarrow> onlyIf (msg x \<noteq> []) (VText (msg x)))"

subsection \<open>What a tree offers and shows\<close>

fun canSubmit :: "'a view \<Rightarrow> bool" where
  "canSubmit (VSubmit l d) = (\<not> d)"
| "canSubmit (VBox vs) = list_ex canSubmit vs"
| "canSubmit (VClick a vs) = list_ex canSubmit vs"
| "canSubmit (VLink h vs) = list_ex canSubmit vs"
| "canSubmit v = False"

fun clicks :: "'a view \<Rightarrow> 'a list" where
  "clicks (VBox vs) = concat (map clicks vs)"
| "clicks (VButton l d a) = (if d then [] else [a])"
| "clicks (VClick a vs) = a # concat (map clicks vs)"
| "clicks (VCheck l c a) = [a]"
| "clicks (VSelect x d opts f) = (if d then [] else map (\<lambda>p. f (fst p)) opts)"
| "clicks (VForm a vs) = (if list_ex canSubmit vs then [a] else []) @ concat (map clicks vs)"
| "clicks (VLink h vs) = concat (map clicks vs)"
| "clicks (VKey k a) = [a]"
| "clicks v = []"

fun typings :: "'a view \<Rightarrow> (jsstring \<Rightarrow> 'a) list" where
  "typings (VBox vs) = concat (map typings vs)"
| "typings (VClick a vs) = concat (map typings vs)"
| "typings (VInput l x d f) = (if d then [] else [f])"
| "typings (VForm a vs) = concat (map typings vs)"
| "typings (VLink h vs) = concat (map typings vs)"
| "typings v = []"

fun texts :: "'a view \<Rightarrow> jsstring list" where
  "texts (VText s) = [s]"
| "texts (VBox vs) = concat (map texts vs)"
| "texts (VButton l d a) = [l]"
| "texts (VClick a vs) = concat (map texts vs)"
| "texts (VInput l x d f) = [l, x]"
| "texts (VCheck l c a) = [l]"
| "texts (VSelect x d opts f) = map snd opts"
| "texts (VForm a vs) = concat (map texts vs)"
| "texts (VSubmit l d) = [l]"
| "texts (VLink h vs) = concat (map texts vs)"
| "texts (VKey k a) = []"

fun links :: "'a view \<Rightarrow> jsstring list" where
  "links (VBox vs) = concat (map links vs)"
| "links (VClick a vs) = concat (map links vs)"
| "links (VForm a vs) = concat (map links vs)"
| "links (VLink h vs) = h # concat (map links vs)"
| "links v = []"

definition offered :: "'a view \<Rightarrow> 'a \<Rightarrow> bool" where
  "offered v a \<longleftrightarrow> a \<in> set (clicks v) \<or> (\<exists>f\<in>set (typings v). \<exists>s. a = f s)"

text \<open>The user causes one event after another, each offered by the page it is caused on; with the calls made on the way.\<close>

fun follow :: "('s \<Rightarrow> 'a view) \<Rightarrow> ('a \<Rightarrow> 's \<Rightarrow> 's \<times> 'c list) \<Rightarrow> 'a list \<Rightarrow> 's \<Rightarrow> ('s \<times> 'c list) option" where
  "follow view act [] s = Some (s, [])"
| "follow view act (e # es) s =
     (if offered (view s) e then (case act e s of (s', cs) \<Rightarrow> map_option (map_prod id (\<lambda>ds. cs @ ds)) (follow view act es s')) else None)"

text \<open>A tree whose events are those of another component, seen from the page around it.\<close>

fun mapEvents :: "('a \<Rightarrow> 'b) \<Rightarrow> 'a view \<Rightarrow> 'b view" where
  "mapEvents g (VText s) = VText s"
| "mapEvents g (VBox vs) = VBox (map (mapEvents g) vs)"
| "mapEvents g (VButton l d a) = VButton l d (g a)"
| "mapEvents g (VClick a vs) = VClick (g a) (map (mapEvents g) vs)"
| "mapEvents g (VInput l x d f) = VInput l x d (\<lambda>s. g (f s))"
| "mapEvents g (VCheck l c a) = VCheck l c (g a)"
| "mapEvents g (VSelect x d opts f) = VSelect x d opts (\<lambda>s. g (f s))"
| "mapEvents g (VForm a vs) = VForm (g a) (map (mapEvents g) vs)"
| "mapEvents g (VSubmit l d) = VSubmit l d"
| "mapEvents g (VLink h vs) = VLink h (map (mapEvents g) vs)"
| "mapEvents g (VKey k a) = VKey k (g a)"

subsection \<open>Laws\<close>

lemma offered_VBox: "offered (VBox vs) a \<longleftrightarrow> (\<exists>v\<in>set vs. offered v a)"
  by (auto simp: offered_def)

lemma onlyIf_simps [simp]: "onlyIf True v = [v]" "onlyIf False v = []"
  by (simp_all add: onlyIf_def)

lemma onlyIf_collect [simp]:
  "concat (map clicks (onlyIf c v)) = (if c then clicks v else [])"
  "concat (map typings (onlyIf c v)) = (if c then typings v else [])"
  "concat (map texts (onlyIf c v)) = (if c then texts v else [])"
  "concat (map links (onlyIf c v)) = (if c then links v else [])"
  "list_ex canSubmit (onlyIf c v) = (c \<and> canSubmit v)"
  by (simp_all add: onlyIf_def)

lemma canSubmit_errorLine [simp]:
  "list_ex canSubmit (errorLine msg e) = False" "concat (map clicks (errorLine msg e)) = []" "concat (map typings (errorLine msg e)) = []"
  by (cases e; simp add: errorLine_def onlyIf_def)+

lemma canSubmit_mapEvents: "canSubmit (mapEvents g v) = canSubmit v"
  by (induction v) (auto simp: list_ex_iff)

lemma clicks_mapEvents: "clicks (mapEvents g v) = map g (clicks v)"
proof (induction v)
  case (VForm a vs)
  have "list_ex canSubmit (map (mapEvents g) vs) = list_ex canSubmit vs"
    by (simp add: list_ex_iff canSubmit_mapEvents)
  then show ?case using VForm by (simp add: map_concat o_def cong: map_cong)
qed (simp_all add: map_concat o_def cong: map_cong)

lemma typings_mapEvents: "typings (mapEvents g v) = map (\<lambda>f s. g (f s)) (typings v)"
  by (induction v) (simp_all add: map_concat o_def cong: map_cong)

lemma texts_mapEvents: "texts (mapEvents g v) = texts v"
  by (induction v) (simp_all add: o_def cong: map_cong)

lemma links_mapEvents: "links (mapEvents g v) = links v"
  by (induction v) (simp_all add: o_def cong: map_cong)

lemma offered_mapEvents: "offered (mapEvents g v) b \<longleftrightarrow> (\<exists>a. offered v a \<and> b = g a)"
  by (auto simp: offered_def clicks_mapEvents typings_mapEvents)

lemmas collect_mapEvents [simp] = clicks_mapEvents typings_mapEvents texts_mapEvents links_mapEvents canSubmit_mapEvents

subsection \<open>One request at a time\<close>

text \<open>A page with the number of its requests that are under way: the user causes what is offered, a request is answered,
  and the rest of the program changes the page.\<close>

inductive flight ::
  "('s \<Rightarrow> 'a view) \<Rightarrow> ('a \<Rightarrow> 's \<Rightarrow> 's) \<Rightarrow> ('a \<Rightarrow> 's \<Rightarrow> bool) \<Rightarrow> ('r \<Rightarrow> 's \<Rightarrow> 's) \<Rightarrow> ('e \<Rightarrow> 's \<Rightarrow> 's) \<Rightarrow> 's \<times> nat \<Rightarrow> 's \<times> nat \<Rightarrow> bool"
  for view handle starts settle env where
  user: "offered (view s) a \<Longrightarrow>
    flight view handle starts settle env (s, n) (handle a s, if starts a s then Suc n else n)"
| answer: "flight view handle starts settle env (s, Suc n) (settle r s, n)"
| other: "flight view handle starts settle env (s, n) (env e s, n)"

inductive_cases flightE: "flight view handle starts settle env (s, n) (s', n')"

definition flightInv :: "('s \<Rightarrow> bool) \<Rightarrow> 's \<times> nat \<Rightarrow> bool" where
  "flightInv busy p \<longleftrightarrow> snd p = (if busy (fst p) then 1 else 0)"

locale single_flight =
  fixes view :: "'s \<Rightarrow> 'a view"
    and handle :: "'a \<Rightarrow> 's \<Rightarrow> 's"
    and starts :: "'a \<Rightarrow> 's \<Rightarrow> bool"
    and settle :: "'r \<Rightarrow> 's \<Rightarrow> 's"
    and env :: "'e \<Rightarrow> 's \<Rightarrow> 's"
    and busy :: "'s \<Rightarrow> bool"
  assumes starts_busy: "starts a s \<Longrightarrow> busy (handle a s)"
    and blocked: "busy s \<Longrightarrow> offered (view s) a \<Longrightarrow> \<not> starts a s"
    and others_keep: "offered (view s) a \<Longrightarrow> \<not> starts a s \<Longrightarrow> busy (handle a s) = busy s"
    and settled: "\<not> busy (settle r s)"
    and env_keeps: "busy (env e s) = busy s"
begin

lemma flight_step:
  assumes "flightInv busy (s, n)" and "flight view handle starts settle env (s, n) (s', n')"
  shows "flightInv busy (s', n')"
  using assms(2)
proof (elim flightE)
  fix a
  assume "s' = handle a s" "n' = (if starts a s then Suc n else n)" "offered (view s) a"
  then show ?thesis using assms(1) starts_busy [of a s] blocked [of s a] others_keep [of s a]
    by (auto simp: flightInv_def split: if_splits)
next
  fix r
  assume "s' = settle r s" "n = Suc n'"
  then show ?thesis using assms(1) settled by (auto simp: flightInv_def split: if_splits)
next
  fix e
  assume "s' = env e s" "n' = n"
  then show ?thesis using assms(1) env_keeps by (auto simp: flightInv_def)
qed

end

sublocale single_flight \<subseteq> in_flight: invariant_system "\<lambda>p. \<not> busy (fst p) \<and> snd p = 0" "flight view handle starts settle env" "flightInv busy"
proof
  show "flightInv busy p" if "\<not> busy (fst p) \<and> snd p = 0" for p
    using that by (simp add: flightInv_def)
  show "flightInv busy q" if "flightInv busy p" "flight view handle starts settle env p q" for p q
    using that flight_step by (cases p; cases q) blast
qed

context single_flight
begin

text \<open>The page shows itself busy exactly while its one request is under way.\<close>

lemma at_most_one:
  assumes "reach (\<lambda>p. \<not> busy (fst p) \<and> snd p = 0) (flight view handle starts settle env) (s, n)"
  shows "n \<le> 1 \<and> (busy s \<longleftrightarrow> n = 1)"
  using in_flight.reachable_inv [OF assms] by (auto simp: flightInv_def)

end

end
