(* ===== verification/FormViews.thy ===== *)
theory FormViews
  imports View Hosts Auth
begin

text \<open>
  What the pages with forms render and which requests the user can cause there: \<open>pages/PairPage.tsx\<close>,
  \<open>components/HostForm.tsx\<close>, \<open>pages/HostsPage.tsx\<close>, \<open>pages/PasskeyManagementPage.tsx\<close> and \<open>pages/LoginPage.tsx\<close>. Each page is a tree
  over its events and a handler for them; a submission is split at its request, and the parts together are the handlers
  of \<open>Hosts\<close> and \<open>Auth\<close>. The pages interpret the locale \<open>single_flight\<close>. \<open>msg\<close> is the text of an exception; lists of hosts
  and passkeys are arguments of the type their components declare. The list of hosts is in the page twice, as cards and as a table; the
  style sheet displays one of them.
\<close>

subsection \<open>Pairing page\<close>

datatype pair_event =
    PeCode jsstring | PeHost jsstring | PeNewHost | PeLabel jsstring | PeHostname jsstring | PeExisting | PeSubmit

definition hostOption :: "host \<Rightarrow> jsstring \<times> jsstring" where
  "hostOption h = (showInt (ho_id h), ho_label h @ js '' ('' @ ho_hostname h @ js '')'')"

definition pairHostFields :: "host list \<Rightarrow> pair_page \<Rightarrow> pair_event view list" where
  "pairHostFields hosts p =
     (if \<not> pp_showNewHost p then
        [VSelect (case pp_selectedHostId p of None \<Rightarrow> [] | Some i \<Rightarrow> if i = 0 then [] else showInt i) False
           (([], js ''Select a host...'') # map hostOption hosts) PeHost,
         VButton (js ''Create New Host'') False PeNewHost]
      else
        [VInput (js ''Label (e.g., My Laptop)'') (pp_newHostLabel p) False PeLabel,
         VInput (js ''Hostname (e.g., laptop.local)'') (pp_newHostHostname p) False PeHostname,
         VButton (js ''Use Existing Host'') False PeExisting])"

definition pairView :: "(page_error \<Rightarrow> jsstring) \<Rightarrow> host list \<Rightarrow> pair_page \<Rightarrow> pair_event view" where
  "pairView msg hosts p =
     VBox [VText (js ''Pair Device''), VText (js ''Enter the pairing code from your CLI to connect your device''),
       VForm PeSubmit
         ([VText (js ''Pairing Code''), VInput (js ''ABC123'') (pp_code p) False PeCode, VText (js ''Host'')] @
          pairHostFields hosts p @ errorLine msg (pp_error p) @
          onlyIf (pp_success p) (VText (js ''Device paired successfully! Redirecting to dashboard...'')) @
          [VSubmit (if pp_loading p then js ''Pairing...'' else js ''Pair Device'') (pp_loading p \<or> pp_success p \<or> \<not> canPair p)])]"

text \<open>\<open>handlePair\<close> up to its request and after it. \<open>Number\<close> is applied to the text of an option, an integer.\<close>

definition pairBegin :: "pair_page \<Rightarrow> pair_page" where
  "pairBegin p =
     (case pairRequest p of
        Inl m \<Rightarrow> p\<lparr>pp_error := Some (PageText m), pp_loading := False\<rparr>
      | Inr r \<Rightarrow> p\<lparr>pp_error := None, pp_loading := True\<rparr>)"

definition pairDone :: "api_error + unit \<Rightarrow> pair_page \<Rightarrow> pair_page" where
  "pairDone r p =
     (case r of
        Inl e \<Rightarrow> p\<lparr>pp_error := Some (PageApi e), pp_loading := False\<rparr>
      | Inr u \<Rightarrow> p\<lparr>pp_success := True, pp_loading := False\<rparr>)"

fun pairEvent :: "(jsstring \<Rightarrow> jsstring) \<Rightarrow> pair_event \<Rightarrow> pair_page \<Rightarrow> pair_page" where
  "pairEvent uc (PeCode s) p = typeCode uc s p"
| "pairEvent uc (PeHost s) p = p\<lparr>pp_selectedHostId := (if s = [] then None else parseIntJs s)\<rparr>"
| "pairEvent uc PeNewHost p = p\<lparr>pp_showNewHost := True\<rparr>"
| "pairEvent uc (PeLabel s) p = p\<lparr>pp_newHostLabel := s\<rparr>"
| "pairEvent uc (PeHostname s) p = p\<lparr>pp_newHostHostname := s\<rparr>"
| "pairEvent uc PeExisting p = p\<lparr>pp_showNewHost := False, pp_newHostLabel := [], pp_newHostHostname := []\<rparr>"
| "pairEvent uc PeSubmit p = pairBegin p"

definition pairStarts :: "pair_event \<Rightarrow> pair_page \<Rightarrow> bool" where
  "pairStarts e p \<longleftrightarrow> e = PeSubmit \<and> pairInvalid p = None"

subsection \<open>Host form\<close>

datatype host_event = HeLabel jsstring | HeHostname jsstring | HeUser jsstring | HePort jsstring | HePrincipal jsstring | HeSubmit | HeCancel

definition hostFormView :: "(page_error \<Rightarrow> jsstring) \<Rightarrow> jsstring \<Rightarrow> bool \<Rightarrow> host_form \<Rightarrow> host_event view" where
  "hostFormView msg submitLabel hasCancel f =
     VForm HeSubmit
       ([VText (js ''Label''), VInput (js ''e.g., My Laptop'') (hf_label f) (hf_loading f) HeLabel,
         VText (js ''Hostname''), VInput (js ''e.g., laptop.local or 192.168.1.100'') (hf_hostname f) (hf_loading f) HeHostname,
         VText (js ''SSH User''), VInput (js ''e.g., ubuntu (optional)'') (hf_sshUser f) (hf_loading f) HeUser,
         VText (js ''SSH Port''), VInput (js ''22'') (showInt (hf_sshPort f)) (hf_loading f) HePort,
         VText (js ''SSH Principal''), VInput (js ''e.g., ubuntu (for CA auth, defaults to SSH User)'') (hf_sshPrincipal f) (hf_loading f) HePrincipal,
         VText (js ''Principal for SSH certificate authentication. If not set, SSH User is used.'')] @
        errorLine msg (hf_error f) @
        [VSubmit (if hf_loading f then js ''Saving...'' else submitLabel) (hf_loading f)] @
        onlyIf hasCancel (VButton (js ''Cancel'') (hf_loading f) HeCancel))"

fun hostFormEvent :: "host_event \<Rightarrow> host_form \<Rightarrow> host_form" where
  "hostFormEvent (HeLabel s) f = f\<lparr>hf_label := s\<rparr>"
| "hostFormEvent (HeHostname s) f = f\<lparr>hf_hostname := s\<rparr>"
| "hostFormEvent (HeUser s) f = f\<lparr>hf_sshUser := s\<rparr>"
| "hostFormEvent (HePort s) f = f\<lparr>hf_sshPort := typePort s\<rparr>"
| "hostFormEvent (HePrincipal s) f = f\<lparr>hf_sshPrincipal := s\<rparr>"
| "hostFormEvent HeSubmit f = snd (formBegin f)"
| "hostFormEvent HeCancel f = f"

definition hostFormStarts :: "host_event \<Rightarrow> host_form \<Rightarrow> bool" where
  "hostFormStarts e f \<longleftrightarrow> e = HeSubmit \<and> fst (formBegin f) \<noteq> None"

lemma handlePair_split:
  "handlePair fetch (p, b) =
     (case pairRequest p of
        Inl m \<Rightarrow> (pairBegin p, b)
      | Inr (hostId, newHost) \<Rightarrow>
          (case pairExchange fetch (pp_code p) hostId newHost b of
             (Inl e, b') \<Rightarrow> (pairDone (Inl e) (pairBegin p), b')
           | (Inr v, b') \<Rightarrow> (pairDone (Inr ()) (pairBegin p), b')))"
  by (auto simp: handlePair_def pairBegin_def pairDone_def split: sum.split prod.split)

lemma pair_offered_submit: "offered (pairView msg hosts p) PeSubmit \<longleftrightarrow> \<not> pp_loading p \<and> \<not> pp_success p \<and> canPair p"
  by (auto simp: offered_def pairView_def pairHostFields_def)

lemma pairEvent_loading: "e \<noteq> PeSubmit \<Longrightarrow> pp_loading (pairEvent uc e p) = pp_loading p"
  by (cases e) (simp_all add: typeCode_def)

interpretation pairing: single_flight "pairView msg hosts" "pairEvent uc" pairStarts pairDone pairHostsLoaded pp_loading for msg hosts uc
proof
  fix a and p :: pair_page and r e
  show "pp_loading (pairEvent uc a p)" if "pairStarts a p"
    using that by (auto simp: pairStarts_def pairInvalid_def pairBegin_def split: sum.splits)
  show "\<not> pairStarts a p" if "pp_loading p" "offered (pairView msg hosts p) a"
    using that pair_offered_submit [of msg hosts p] by (auto simp: pairStarts_def)
  show "pp_loading (pairEvent uc a p) = pp_loading p" if "offered (pairView msg hosts p) a" "\<not> pairStarts a p"
  proof (cases "a = PeSubmit")
    case True
    then show ?thesis using that pair_offered_submit [of msg hosts p]
      by (auto simp: pairStarts_def pairInvalid_def pairBegin_def split: sum.splits)
  qed (rule pairEvent_loading)
  show "\<not> pp_loading (pairDone r p)" by (simp add: pairDone_def split: sum.split)
  show "pp_loading (pairHostsLoaded e p) = pp_loading p" by (simp add: pairHostsLoaded_def split: sum.split)
qed

lemma host_offered: "hf_loading f \<Longrightarrow> \<not> offered (hostFormView msg l c f) a"
  by (auto simp: offered_def hostFormView_def)

interpretation host_saving: single_flight "hostFormView msg l c" hostFormEvent hostFormStarts formDone "\<lambda>e f. f" hf_loading for msg l c
proof
  fix a and f :: host_form and r :: "api_error + unit" and e :: unit
  show "hf_loading (hostFormEvent a f)" if "hostFormStarts a f"
    using that by (auto simp: hostFormStarts_def formBegin_def split: option.splits)
  show "\<not> hostFormStarts a f" if "hf_loading f" "offered (hostFormView msg l c f) a"
    using that host_offered by blast
  show "hf_loading (hostFormEvent a f) = hf_loading f" if "offered (hostFormView msg l c f) a" "\<not> hostFormStarts a f"
    using that host_offered [of f msg l c a]
    by (cases a) (auto simp: hostFormStarts_def formBegin_def split: option.splits)
  show "\<not> hf_loading (formDone r f)" by simp
  show "hf_loading f = hf_loading f" by simp
qed

subsection \<open>Hosts page\<close>

datatype hosts_event =
    HxAdd | HxCreate host_event | HxEdit host_event | HxOpenEdit host | HxAsk int | HxDismiss | HxConfirm int

text \<open>The page with the state of its mounted forms and the row whose confirmation is open.\<close>

record hosts_screen =
  hs_page :: hosts_page
  hs_create :: "host_form option"
  hs_edit :: "host_form option"
  hs_asking :: "int option"

text \<open>A row's buttons, and the confirmation, which is modal. \<open>created\<close> prints when a host was created.\<close>

definition hostActions :: "host \<Rightarrow> hosts_event view" where
  "hostActions h = VBox [VButton (js ''Edit'') False (HxOpenEdit h), VButton (js ''Delete'') False (HxAsk (ho_id h))]"

definition hostCard :: "host \<Rightarrow> hosts_event view" where
  "hostCard h = VBox [VText (ho_label h), VText (js ''Hostname: ''), VText (ho_hostname h), hostActions h]"

definition hostRow :: "(host \<Rightarrow> jsstring) \<Rightarrow> host \<Rightarrow> hosts_event view" where
  "hostRow created h = VBox [VText (ho_label h), VText (ho_hostname h), VText (created h), hostActions h]"

definition deleteHostDialog :: "int \<Rightarrow> hosts_event view" where
  "deleteHostDialog i = VBox [VText (js ''Delete Host?''), VButton (js ''Cancel'') False HxDismiss, VButton (js ''Delete'') False (HxConfirm i)]"

definition hostsPageView :: "(page_error \<Rightarrow> jsstring) \<Rightarrow> (host \<Rightarrow> jsstring) \<Rightarrow> host list \<Rightarrow> hosts_screen \<Rightarrow> hosts_event view" where
  "hostsPageView msg created hosts s =
     (let p = hs_page s
      in if hx_isLoading p then VBox [VText (js ''Loading hosts...'')]
         else VBox
           ([VLink (js ''/'') [VText (js ''Back to Dashboard'')], VText (js ''Hosts'')] @
            onlyIf (\<not> hx_isCreating p) (VButton (js ''Add Host'') False HxAdd) @
            errorLine msg (hx_error p) @
            (case hs_create s of
               None \<Rightarrow> []
             | Some f \<Rightarrow> [VBox [VText (js ''Create New Host''), mapEvents HxCreate (hostFormView msg (js ''Create Host'') True f)]]) @
            [if hosts = [] \<and> \<not> hx_isCreating p then VBox [VText (js ''No hosts found. Add a host to get started.'')]
             else VBox (map hostCard hosts)] @
            onlyIf (hosts \<noteq> [])
              (VBox (VBox [VText (js ''Label''), VText (js ''Hostname''), VText (js ''Created''), VText (js ''Actions'')] #
                     map (hostRow created) hosts)) @
            (case hs_edit s of
               None \<Rightarrow> []
             | Some f \<Rightarrow> [VBox [VText (js ''Edit Host''), mapEvents HxEdit (hostFormView msg (js ''Update Host'') True f)]])))"

definition hostsView :: "(page_error \<Rightarrow> jsstring) \<Rightarrow> (host \<Rightarrow> jsstring) \<Rightarrow> host list \<Rightarrow> hosts_screen \<Rightarrow> hosts_event view" where
  "hostsView msg created hosts s =
     (case hs_asking s of
        Some i \<Rightarrow> if hx_isLoading (hs_page s) then hostsPageView msg created hosts s else deleteHostDialog i
      | None \<Rightarrow> hostsPageView msg created hosts s)"

text \<open>Rendering mounts and unmounts the forms. A form that stays mounted keeps its state, whatever host it is given.\<close>

definition mountForm :: "bool \<Rightarrow> host option \<Rightarrow> host_form option \<Rightarrow> host_form option" where
  "mountForm shown h old = (if \<not> shown then None else Some (case old of Some f \<Rightarrow> f | None \<Rightarrow> newHostForm h))"

definition renderHosts :: "hosts_screen \<Rightarrow> hosts_screen" where
  "renderHosts s =
     (let p = hs_page s
      in s\<lparr>hs_create := mountForm (\<not> hx_isLoading p \<and> hx_isCreating p) None (hs_create s),
           hs_edit := mountForm (\<not> hx_isLoading p \<and> hx_editingHost p \<noteq> None) (hx_editingHost p) (hs_edit s),
           hs_asking := (if hx_isLoading p then None else hs_asking s)\<rparr>)"

text \<open>The state part of the handlers; the requests of the forms and of a deletion are answered later.\<close>

fun hostsEvent :: "hosts_event \<Rightarrow> hosts_screen \<Rightarrow> hosts_screen" where
  "hostsEvent HxAdd s = renderHosts (s\<lparr>hs_page := (hs_page s)\<lparr>hx_isCreating := True\<rparr>\<rparr>)"
| "hostsEvent (HxCreate e) s =
     (if e = HeCancel then renderHosts (s\<lparr>hs_page := (hs_page s)\<lparr>hx_isCreating := False\<rparr>\<rparr>)
      else s\<lparr>hs_create := map_option (hostFormEvent e) (hs_create s)\<rparr>)"
| "hostsEvent (HxEdit e) s =
     (if e = HeCancel then renderHosts (s\<lparr>hs_page := (hs_page s)\<lparr>hx_editingHost := None\<rparr>\<rparr>)
      else s\<lparr>hs_edit := map_option (hostFormEvent e) (hs_edit s)\<rparr>)"
| "hostsEvent (HxOpenEdit h) s = renderHosts (s\<lparr>hs_page := (hs_page s)\<lparr>hx_editingHost := Some h\<rparr>\<rparr>)"
| "hostsEvent (HxAsk i) s = s\<lparr>hs_asking := Some i\<rparr>"
| "hostsEvent HxDismiss s = s\<lparr>hs_asking := None\<rparr>"
| "hostsEvent (HxConfirm i) s = s\<lparr>hs_asking := None\<rparr>"

text \<open>A deletion has been answered: the list is reloaded, then shown again.\<close>

definition hostDeleted :: "api_error + unit \<Rightarrow> hosts_screen \<Rightarrow> hosts_screen" where
  "hostDeleted r s = (case r of Inl e \<Rightarrow> s | Inr u \<Rightarrow> renderHosts (s\<lparr>hs_page := loadHosts (hs_page s)\<rparr>))"

definition hostsReloaded :: "api_error + json \<Rightarrow> hosts_screen \<Rightarrow> hosts_screen" where
  "hostsReloaded r s = renderHosts (s\<lparr>hs_page := pageHostsLoaded r (hs_page s)\<rparr>)"

subsection \<open>Passkey page\<close>

record passkey =
  pa_id :: jsstring
  pa_created_at :: jsstring

datatype passkey_event = PkBack | PkAsk jsstring | PkAdd | PkAnother | PkDismiss | PkConfirm

definition unsupportedNote :: "bool \<Rightarrow> 'a view list" where
  "unsupportedNote supported =
     onlyIf (\<not> supported)
       (VBox [VText (js ''WebAuthn is not supported''),
              VText (js ''Passkeys require a secure context (HTTPS or localhost). Please access this site via HTTPS or localhost.'')])"

definition passkeyRow :: "(jsstring \<Rightarrow> jsstring) \<Rightarrow> bool \<Rightarrow> passkey \<Rightarrow> passkey_event view" where
  "passkeyRow formatDate isLast k =
     VBox [VText (take 8 (pa_id k) @ js ''...''), VText (js ''Created: '' @ formatDate (pa_created_at k)),
           VButton (js ''Delete'') isLast (PkAsk (pa_id k))]"

definition passkeyPageView :: "(page_error \<Rightarrow> jsstring) \<Rightarrow> (jsstring \<Rightarrow> jsstring) \<Rightarrow> passkey list \<Rightarrow> passkey_page \<Rightarrow> passkey_event view" where
  "passkeyPageView msg formatDate keys p =
     VBox
       ([VButton (js ''Back'') False PkBack, VText (js ''Passkey Management''), VText (js ''Your Passkeys''),
         VText (js ''Manage the passkeys associated with your account'')] @
        unsupportedNote (pk_supported p) @ errorLine msg (pk_error p) @
        [if keys = [] then VText (js ''No passkeys found'') else VBox (map (passkeyRow formatDate (length keys \<le> 1)) keys),
         VButton (if pk_adding p then js ''Adding...'' else js ''Add Passkey'') (pk_adding p \<or> \<not> pk_supported p) PkAdd,
         VButton (js ''Add from Another Device'') False PkAnother])"

definition deletePasskeyDialog :: "passkey_event view" where
  "deletePasskeyDialog =
     VBox [VText (js ''Delete Passkey''),
       VText (js ''Are you sure you want to delete this passkey? This action cannot be undone. Note: You must have at least one passkey associated with your account.''),
       VButton (js ''Cancel'') False PkDismiss, VButton (js ''Delete'') False PkConfirm]"

definition passkeyView :: "(page_error \<Rightarrow> jsstring) \<Rightarrow> (jsstring \<Rightarrow> jsstring) \<Rightarrow> passkey list \<Rightarrow> passkey_page \<Rightarrow> passkey_event view" where
  "passkeyView msg formatDate keys p =
     (if pk_loading p then VBox [VText (js ''Loading passkeys...'')]
      else if truthy (pk_deletingId p) then deletePasskeyDialog
      else passkeyPageView msg formatDate keys p)"

text \<open>\<open>handleAddPasskey\<close> before its requests and after them, and the confirmation, whose click also closes the dialog; the
  deletion that was confirmed ends by closing the dialog that is then open.\<close>

definition addBegin :: "passkey_page \<Rightarrow> passkey_page" where
  "addBegin p =
     (if pk_supported p then p\<lparr>pk_adding := True, pk_error := None\<rparr>
      else p\<lparr>pk_adding := False, pk_error := Some (PageText (js ''WebAuthn is not supported. Please use HTTPS or localhost.''))\<rparr>)"

definition addDone :: "page_error + unit \<Rightarrow> passkey_page \<Rightarrow> passkey_page" where
  "addDone r p = (case r of Inl e \<Rightarrow> p\<lparr>pk_error := Some e, pk_adding := False\<rparr> | Inr u \<Rightarrow> p\<lparr>pk_adding := False\<rparr>)"

definition deleteDone :: "api_error + unit \<Rightarrow> passkey_page \<Rightarrow> passkey_page" where
  "deleteDone r p = (case r of Inl e \<Rightarrow> p\<lparr>pk_error := Some (PageApi e), pk_deletingId := None\<rparr> | Inr u \<Rightarrow> p\<lparr>pk_deletingId := None\<rparr>)"

fun passkeyEvent :: "passkey_event \<Rightarrow> passkey_page \<Rightarrow> passkey_page" where
  "passkeyEvent (PkAsk i) p = p\<lparr>pk_deletingId := Some i\<rparr>"
| "passkeyEvent PkAdd p = addBegin p"
| "passkeyEvent PkDismiss p = p\<lparr>pk_deletingId := None\<rparr>"
| "passkeyEvent PkConfirm p = p\<lparr>pk_deletingId := None\<rparr>"
| "passkeyEvent PkBack p = p"
| "passkeyEvent PkAnother p = p"

subsection \<open>Sign-in page\<close>

record login_form =
  lf_email :: jsstring
  lf_supported :: bool
  lf_page :: login_page

datatype login_event = LeEmail jsstring | LeSubmit

definition loginView :: "(login_error \<Rightarrow> jsstring) \<Rightarrow> login_form \<Rightarrow> login_event view" where
  "loginView msg f =
     (let p = lf_page f
      in VBox [VText (js ''Sign In''), VText (js ''Enter your email to sign in with your passkey''),
           VForm LeSubmit
             (unsupportedNote (lf_supported f) @
              [VText (js ''Email''), VInput (js ''you@example.com'') (lf_email f) False LeEmail] @
              errorLine msg (lp_error p) @
              [VSubmit (if lp_loading p then js ''Signing in...'' else js ''Sign in with Passkey'') (lp_loading p \<or> \<not> lf_supported f)] @
              onlyIf (lp_noUsers p)
                (VBox [VText (js ''No users found. ''), VLink (js ''/register'') [VText (js ''Create an account'')]]))])"

definition loginStart :: "bool \<Rightarrow> login_page \<Rightarrow> login_page" where
  "loginStart supported p =
     (if supported then p\<lparr>lp_error := None, lp_loading := True\<rparr>
      else p\<lparr>lp_error := Some LoginUnsupported, lp_loading := False\<rparr>)"

definition loginSettled :: "login_error + unit \<Rightarrow> login_page \<Rightarrow> login_page" where
  "loginSettled r p =
     (case r of
        Inl e \<Rightarrow> p\<lparr>lp_error := Some e, lp_loading := False\<rparr>
      | Inr u \<Rightarrow> p\<lparr>lp_navigate := Some (js ''/dashboard''), lp_loading := False\<rparr>)"

fun loginEvent :: "login_event \<Rightarrow> login_form \<Rightarrow> login_form" where
  "loginEvent (LeEmail s) f = f\<lparr>lf_email := s\<rparr>"
| "loginEvent LeSubmit f = f\<lparr>lf_page := loginStart (lf_supported f) (lf_page f)\<rparr>"

subsection \<open>The handlers are the two parts together\<close>

lemma handleAddPasskey_unsupported: "\<not> pk_supported p \<Longrightarrow> handleAddPasskey fetch False register (p, b) = (addBegin p, b)"
  by (simp add: handleAddPasskey_def addBegin_def)

lemma handleAddPasskey_split:
  assumes "pk_supported p"
  shows "(\<exists>e b1. handleAddPasskey fetch True register (p, b) = (addDone (Inl e) (addBegin p), b1)) \<or>
    (\<exists>b2. handleAddPasskey fetch True register (p, b) = loadPasskeys fetch (addDone (Inr ()) (addBegin p), b2))"
proof (cases "addPasskeyBegin fetch b")
  case (Pair r b')
  show ?thesis
  proof (cases r)
    case (Inl e)
    then have "handleAddPasskey fetch True register (p, b) = (addDone (Inl (PageApi e)) (addBegin p), b')"
      using Pair assms by (simp add: handleAddPasskey_def addBegin_def addDone_def)
    then show ?thesis by blast
  next
    case (Inr response)
    note r = this
    show ?thesis
    proof (cases "register (jfield (js ''publicKey'') response)")
      case (Inl m)
      then have "handleAddPasskey fetch True register (p, b) = (addDone (Inl (PageText m)) (addBegin p), b')"
        using Pair r assms by (simp add: handleAddPasskey_def addBegin_def addDone_def)
      then show ?thesis by blast
    next
      case (Inr credential)
      note c = this
      show ?thesis
      proof (cases "addPasskeyFinish fetch credential b'")
        case (Inl e)
        then have "handleAddPasskey fetch True register (p, b) = (addDone (Inl (PageApi e)) (addBegin p), b')"
          using Pair r c assms by (simp add: handleAddPasskey_def addBegin_def addDone_def)
        then show ?thesis by blast
      next
        case (Inr u)
        then have "handleAddPasskey fetch True register (p, b) = loadPasskeys fetch (addDone (Inr ()) (addBegin p), b')"
          using Pair r c assms by (simp add: handleAddPasskey_def addBegin_def addDone_def)
        then show ?thesis by blast
      qed
    qed
  qed
qed

lemma handleLogin_split:
  "\<exists>r. fst (handleLogin showNum fetch supported startAuth email (p, a, b)) =
     (if supported then loginSettled r (loginStart supported p) else loginStart supported p)"
proof (cases supported)
  case True
  have "\<exists>r. fst (handleLogin showNum fetch True startAuth email (p, a, b)) = loginSettled r (loginStart True p)"
  proof (cases "loginToken showNum fetch startAuth email b")
    case (Pair t b')
    show ?thesis
    proof (cases t)
      case (Inl e)
      then show ?thesis using Pair by (intro exI [of _ "Inl e"]) (simp add: handleLogin_def loginSettled_def loginStart_def)
    next
      case (Inr token)
      obtain x a' st where l: "login showNum token (signedInUser email token) (a, br_storage b') = (x, a', st)" by (rule prod_cases3)
      show ?thesis
        by (intro exI [of _ "case x of Inl e \<Rightarrow> Inl LoginStorage | Inr u \<Rightarrow> Inr ()"])
          (simp add: handleLogin_def loginSettled_def loginStart_def Pair Inr l split: sum.split)
    qed
  qed
  then show ?thesis using True by simp
qed (simp add: handleLogin_def loginStart_def)

subsection \<open>One request at a time\<close>

definition passkeyOther :: "(api_error + unit) + json \<Rightarrow> passkey_page \<Rightarrow> passkey_page" where
  "passkeyOther e p = (case e of Inl r \<Rightarrow> deleteDone r p | Inr keys \<Rightarrow> p\<lparr>pk_passkeys := keys, pk_loading := False\<rparr>)"

definition passkeyStarts :: "passkey_event \<Rightarrow> passkey_page \<Rightarrow> bool" where
  "passkeyStarts e p \<longleftrightarrow> e = PkAdd \<and> pk_supported p"

lemma unsupportedNote_quiet [simp]:
  "concat (map clicks (unsupportedNote b)) = []" "concat (map typings (unsupportedNote b)) = []" "list_ex canSubmit (unsupportedNote b) = False"
  by (simp_all add: unsupportedNote_def)

lemma add_offered: "offered (passkeyView msg fd keys p) PkAdd \<Longrightarrow> \<not> pk_adding p \<and> pk_supported p"
  by (auto simp: offered_def passkeyView_def passkeyPageView_def deletePasskeyDialog_def passkeyRow_def split: if_splits)

interpretation adding: single_flight "passkeyView msg fd keys" passkeyEvent passkeyStarts addDone passkeyOther pk_adding for msg fd keys
proof
  fix a and p :: passkey_page and r e
  show "pk_adding (passkeyEvent a p)" if "passkeyStarts a p"
    using that by (simp add: passkeyStarts_def addBegin_def)
  show "\<not> passkeyStarts a p" if "pk_adding p" "offered (passkeyView msg fd keys p) a"
    using that add_offered by (auto simp: passkeyStarts_def)
  show "pk_adding (passkeyEvent a p) = pk_adding p" if "offered (passkeyView msg fd keys p) a" "\<not> passkeyStarts a p"
    using that add_offered by (cases a) (auto simp: passkeyStarts_def)
  show "\<not> pk_adding (addDone r p)" by (simp add: addDone_def split: sum.split)
  show "pk_adding (passkeyOther e p) = pk_adding p" by (simp add: passkeyOther_def deleteDone_def split: sum.split)
qed

definition loginStarts :: "login_event \<Rightarrow> login_form \<Rightarrow> bool" where
  "loginStarts e f \<longleftrightarrow> e = LeSubmit \<and> lf_supported f"

definition loginAnswer :: "login_error + unit \<Rightarrow> login_form \<Rightarrow> login_form" where
  "loginAnswer r f = f\<lparr>lf_page := loginSettled r (lf_page f)\<rparr>"

definition loginOther :: "api_error + json \<Rightarrow> login_form \<Rightarrow> login_form" where
  "loginOther r f = f\<lparr>lf_page := usersChecked r (lf_page f)\<rparr>"

abbreviation signingIn :: "login_form \<Rightarrow> bool" where "signingIn f \<equiv> lp_loading (lf_page f)"

lemma login_offered: "offered (loginView msg f) LeSubmit \<longleftrightarrow> \<not> signingIn f \<and> lf_supported f"
  by (auto simp: offered_def loginView_def Let_def)

interpretation signing_in: single_flight "loginView msg" loginEvent loginStarts loginAnswer loginOther signingIn for msg
proof
  fix a and f :: login_form and r e
  show "signingIn (loginEvent a f)" if "loginStarts a f"
    using that by (simp add: loginStarts_def loginStart_def)
  show "\<not> loginStarts a f" if "signingIn f" "offered (loginView msg f) a"
    using that login_offered by (auto simp: loginStarts_def)
  show "signingIn (loginEvent a f) = signingIn f" if "offered (loginView msg f) a" "\<not> loginStarts a f"
    using that login_offered by (cases a) (auto simp: loginStarts_def)
  show "\<not> signingIn (loginAnswer r f)" by (simp add: loginAnswer_def loginSettled_def split: sum.split)
  show "signingIn (loginOther e f) = signingIn f" by (simp add: loginOther_def usersChecked_def split: sum.split)
qed

abbreviation flying where
  "flying view handle starts settle env busy \<equiv> reach (\<lambda>p. \<not> busy (fst p) \<and> snd p = 0) (flight view handle starts settle env)"

subsection \<open>Concrete pages\<close>

definition toy_pairing :: pair_page where
  "toy_pairing = newPairPage\<lparr>pp_code := js ''ABC123'', pp_selectedHostId := Some 3\<rparr>"

definition toy_host_form :: host_form where
  "toy_host_form = (newHostForm None)\<lparr>hf_label := js ''a'', hf_hostname := js ''b''\<rparr>"

definition toy_passkeys :: passkey_page where
  "toy_passkeys = \<lparr>pk_passkeys = JArr [], pk_loading = False, pk_adding = False, pk_deletingId = None, pk_error = None, pk_supported = True\<rparr>"

definition toy_login :: login_form where
  "toy_login = \<lparr>lf_email = js ''a@b'', lf_supported = True,
     lf_page = \<lparr>lp_error = None, lp_loading = False, lp_noUsers = False, lp_navigate = None\<rparr>\<rparr>"

lemma flying_start:
  assumes "\<not> busy s" and "offered (view s) a" and "starts a s"
  shows "flying view handle starts settle env busy (handle a s, 1)"
proof -
  have "flying view handle starts settle env busy (s, 0)" by (rule reach_init) (simp add: assms(1))
  moreover have "flight view handle starts settle env (s, 0) (handle a s, if starts a s then Suc 0 else 0)"
    using assms(2) by (rule flight.user)
  ultimately show ?thesis using assms(3) by (auto intro: reach_step)
qed

subsection \<open>Properties\<close>

text \<open>C17: no form is sent twice. On the pairing page, in a host form, on the passkey page and on the sign-in page, for any
  sequence of clicks and inputs that the rendered controls offer, in any order with the answers and the loading of lists,
  at most one request of the form is under way, and the page shows itself busy exactly then; and after a success the pairing
  code cannot be sent again.\<close>

theorem no_double_submission:
  assumes "flying (pairView msg hosts) (pairEvent uc) pairStarts pairDone pairHostsLoaded pp_loading (p, i)"
    and "flying (hostFormView msg l c) hostFormEvent hostFormStarts formDone (\<lambda>e :: unit. \<lambda>f. f) hf_loading (f, j)"
    and "flying (passkeyView msg fd keys) passkeyEvent passkeyStarts addDone passkeyOther pk_adding (q, k)"
    and "flying (loginView lmsg) loginEvent loginStarts loginAnswer loginOther signingIn (g, m)"
  shows "i \<le> 1 \<and> (pp_loading p \<longleftrightarrow> i = 1) \<and> (pp_success p \<longrightarrow> \<not> offered (pairView msg hosts p) PeSubmit) \<and>
    j \<le> 1 \<and> (hf_loading f \<longleftrightarrow> j = 1) \<and> k \<le> 1 \<and> (pk_adding q \<longleftrightarrow> k = 1) \<and> m \<le> 1 \<and> (signingIn g \<longleftrightarrow> m = 1)"
  using pairing.at_most_one [OF assms(1)] host_saving.at_most_one [OF assms(2)] adding.at_most_one [OF assms(3)]
    signing_in.at_most_one [OF assms(4)] pair_offered_submit by blast

theorem no_double_submission_witness:
  "pp_loading (pairEvent id PeSubmit toy_pairing) \<and> hf_loading (hostFormEvent HeSubmit toy_host_form) \<and>
   pk_adding (passkeyEvent PkAdd toy_passkeys) \<and> signingIn (loginEvent LeSubmit toy_login)"
proof -
  have "flying (pairView (\<lambda>e. []) []) (pairEvent id) pairStarts pairDone pairHostsLoaded pp_loading (pairEvent id PeSubmit toy_pairing, 1)"
    by (rule flying_start) (simp_all add: toy_pairing_def newPairPage_def pair_offered_submit canPair_def js_Cons pairStarts_def pairInvalid_def pairRequest_def)
  moreover have "flying (hostFormView (\<lambda>e. []) [] True) hostFormEvent hostFormStarts formDone (\<lambda>e :: unit. \<lambda>f. f) hf_loading (hostFormEvent HeSubmit toy_host_form, 1)"
  proof (rule flying_start)
    show "\<not> hf_loading toy_host_form" by code_simp
    show "offered (hostFormView (\<lambda>e. []) [] True toy_host_form) HeSubmit"
      by (simp add: offered_def hostFormView_def toy_host_form_def newHostForm_def)
    show "hostFormStarts HeSubmit toy_host_form" by code_simp
  qed
  moreover have "flying (passkeyView (\<lambda>e. []) id []) passkeyEvent passkeyStarts addDone passkeyOther pk_adding (passkeyEvent PkAdd toy_passkeys, 1)"
    by (rule flying_start) (simp_all add: toy_passkeys_def passkeyStarts_def offered_def passkeyView_def passkeyPageView_def truthy_def)
  moreover have "flying (loginView (\<lambda>e. [])) loginEvent loginStarts loginAnswer loginOther signingIn (loginEvent LeSubmit toy_login, 1)"
    by (rule flying_start) (simp_all add: toy_login_def loginStarts_def login_offered)
  ultimately show ?thesis using no_double_submission by blast
qed

text \<open>The last passkey cannot be deleted from the page: its button is disabled, and so is everything behind a dialog.\<close>

theorem last_passkey_protected:
  "length keys \<le> 1 \<Longrightarrow> \<not> offered (passkeyView msg fd keys p) (PkAsk i)"
  by (auto simp: offered_def passkeyView_def passkeyPageView_def deletePasskeyDialog_def passkeyRow_def)

text \<open>A confirmation that is open when an earlier deletion ends is closed by it, unanswered.\<close>

theorem finished_delete_closes_other_dialog:
  "pk_deletingId (deleteDone r (passkeyEvent (PkAsk j) (passkeyEvent PkConfirm (passkeyEvent (PkAsk i) p)))) = None"
  by (simp add: deleteDone_def split: sum.split)

text \<open>The form of the hosts page is not mounted anew for another host. When \<open>Edit\<close> of a second host is reached while the form for
  the first is open, the form keeps the values of the first, and they are what an update of the second sends.\<close>

theorem second_edit_keeps_first_values:
  assumes "hs_edit s = None" and "\<not> hx_isLoading (hs_page s)"
  shows "let s' = hostsEvent (HxOpenEdit h2) (hostsEvent (HxOpenEdit h1) s)
    in hx_editingHost (hs_page s') = Some h2 \<and> hs_edit s' = Some (newHostForm (Some h1)) \<and>
       (h2 \<in> set hosts \<longrightarrow> hs_asking s = None \<longrightarrow> offered (hostsView msg created hosts (hostsEvent (HxOpenEdit h1) s)) (HxOpenEdit h2))"
  using assms
  by (auto simp: Let_def renderHosts_def mountForm_def offered_def hostsView_def hostsPageView_def hostRow_def hostActions_def onlyIf_def)

text \<open>Deleting a host reloads the list, and while it loads the page shows nothing else: what was typed in an open form is gone.\<close>

theorem deletion_discards_open_form:
  assumes "hx_isCreating (hs_page s)"
  shows "hs_create (hostsReloaded r (hostDeleted (Inr ()) s)) = Some (newHostForm None)"
  using assms
  by (simp add: hostsReloaded_def hostDeleted_def renderHosts_def mountForm_def loadHosts_def pageHostsLoaded_def Let_def split: sum.split)

end
