(* ===== verification/FormatJson.thy ===== *)
theory FormatJson
  imports Widgets
begin

text \<open>
  The metadata block of the details panel (\<open>formatJson\<close> of \<open>components/SessionDetailPanel.tsx\<close>): \<open>JSON.stringify\<close> with an
  indentation of two, applied to a parsed value. Parsing keeps the last of several members with one name, orders the
  members as the language does, and prints numbers anew; \<open>printNum\<close> is what the language prints for a number literal
  (\<open>null\<close> for one that is too large). The text on screen is shown to parse to the same value.
\<close>

subsection \<open>Printing with indentation\<close>

definition newLine :: "nat \<Rightarrow> jsstring" where
  "newLine d = 10 # replicate (2 * d) 32"

fun pretty :: "nat \<Rightarrow> json \<Rightarrow> jsstring" where
  "pretty d (JArr xs) =
     (if xs = [] then [91, 93]
      else [91] @ newLine (Suc d) @ join (44 # newLine (Suc d)) (map (pretty (Suc d)) xs) @ newLine d @ [93])"
| "pretty d (JObj ms) =
     (if ms = [] then [123, 125]
      else [123] @ newLine (Suc d) @
        join (44 # newLine (Suc d)) (map (\<lambda>(k, x). quoteString k @ [58, 32] @ pretty (Suc d) x) ms) @ newLine d @ [125])"
| "pretty d v = stringify v"

text \<open>A parsed value as the language prints it.\<close>

fun normalJson :: "(jsstring \<Rightarrow> json) \<Rightarrow> json \<Rightarrow> json" where
  "normalJson printNum (JNum n) = printNum n"
| "normalJson printNum (JArr xs) = JArr (map (normalJson printNum) xs)"
| "normalJson printNum (JObj ms) =
     (let ms' = map (\<lambda>(k, x). (k, normalJson printNum x)) ms
      in JObj (map (\<lambda>k. (k, ownValue (JObj ms') k)) (the (objectKeys (JObj ms')))))"
| "normalJson printNum v = v"

definition formatJson :: "(jsstring \<Rightarrow> json) \<Rightarrow> jsstring option \<Rightarrow> jsstring" where
  "formatJson printNum s =
     (if \<not> truthy s then js ''-''
      else (case jsonParse (the s) of None \<Rightarrow> the s | Some v \<Rightarrow> pretty 0 (normalJson printNum v)))"

subsection \<open>The printed text parses\<close>

lemma newLine_space: "list_all isJsonSpace (newLine d)"
  by (simp add: newLine_def isJsonSpace_def list_all_iff)

lemma skipWs_spaces: "list_all isJsonSpace ws \<Longrightarrow> skipWs (ws @ s) = skipWs s"
  by (induction ws) (simp_all add: skipWs_def)

lemma parseValue_spaces: "list_all isJsonSpace ws \<Longrightarrow> parseValue n (ws @ s) = parseValue n s"
  by (cases n) (simp_all add: skipWs_spaces)

lemma parseElems_spaces: "list_all isJsonSpace ws \<Longrightarrow> parseElems n (ws @ s) = parseElems n s"
  by (cases n) (simp_all add: parseValue_spaces)

lemma parseMembers_spaces: "list_all isJsonSpace ws \<Longrightarrow> parseMembers n (ws @ s) = parseMembers n s"
  by (cases n) (simp_all add: skipWs_spaces)

lemma skipWs_newLine [simp]: "skipWs (newLine d @ s) = skipWs s"
  by (rule skipWs_spaces) (rule newLine_space)

lemma numEnd_newLine [simp]: "numEnd (newLine d @ s)"
  by (simp add: numEnd_def newLine_def isNumUnit_def isDigit_def word_le_nat_alt)

lemma parse_pretty_elems:
  assumes "\<And>x n r. x \<in> set xs \<Longrightarrow> need x \<le> n \<Longrightarrow> numEnd r \<Longrightarrow> parseValue n (f x @ r) = Some (x, r)"
    and "xs \<noteq> []" and "needs xs \<le> n"
  shows "parseElems n (join (44 # newLine d) (map f xs) @ newLine e @ 93 # r) = Some (xs, r)"
  using assms
proof (induction xs arbitrary: n)
  case (Cons x xs)
  then obtain k where n: "n = Suc k" "need x \<le> k" "needs xs \<le> k" by (cases n) auto
  show ?case
  proof (cases "xs = []")
    case True
    then show ?thesis using Cons.prems(1) [of x k "newLine e @ 93 # r"] n by simp
  next
    case False
    let ?rest = "join (44 # newLine d) (map f xs) @ newLine e @ 93 # r"
    have "parseValue k (f x @ 44 # newLine d @ ?rest) = Some (x, 44 # newLine d @ ?rest)"
      using Cons.prems(1) n by simp
    moreover have "parseElems k (newLine d @ ?rest) = Some (xs, r)"
      unfolding parseElems_spaces [OF newLine_space] by (rule Cons.IH) (use Cons.prems(1) False n in auto)
    ultimately show ?thesis using False n by (simp add: join_Cons consFst_def)
  qed
qed simp

lemma parse_pretty_members:
  assumes "\<And>k x n r. (k, x) \<in> set ms \<Longrightarrow> need x \<le> n \<Longrightarrow> numEnd r \<Longrightarrow> parseValue n (f x @ r) = Some (x, r)"
    and "ms \<noteq> []" and "needm ms \<le> n"
  shows "parseMembers n (join (44 # newLine d) (map (\<lambda>(k, x). quoteString k @ [58, 32] @ f x) ms) @ newLine e @ 125 # r) = Some (ms, r)"
  using assms
proof (induction ms arbitrary: n)
  case (Cons m ms)
  let ?f = "\<lambda>(k, x). quoteString k @ [58, 32] @ f x"
  obtain k x where m: "m = (k, x)" by (cases m)
  then obtain j where n: "n = Suc j" "need x \<le> j" "needm ms \<le> j" using Cons.prems(3) by (cases n) auto
  have "list_all isJsonSpace [32]" by (simp add: isJsonSpace_def)
  from parseValue_spaces [OF this, of j] have v: "parseValue j (32 # f x @ q) = Some (x, q)" if "numEnd q" for q
    using Cons.prems(1) [of k x j q] m n that by simp
  have key: "parseString (escapeString k @ 34 # 58 # q) = Some (k, 58 # q)" for q
    by (rule parseString_escape)
  show ?case
  proof (cases "ms = []")
    case True
    then show ?thesis using m n v [of "newLine e @ 125 # r"] key by (simp add: quoteString_def)
  next
    case False
    let ?rest = "join (44 # newLine d) (map ?f ms) @ newLine e @ 125 # r"
    have "parseMembers j (newLine d @ ?rest) = Some (ms, r)"
      unfolding parseMembers_spaces [OF newLine_space] by (rule Cons.IH) (use Cons.prems(1) False n in auto)
    then show ?thesis using False m n v [of "44 # newLine d @ ?rest"] key
      by (simp add: join_Cons consFst_def quoteString_def)
  qed
qed simp

lemma pretty_hd:
  "wfJson v \<Longrightarrow> pretty d v \<noteq> [] \<and> \<not> isJsonSpace (hd (pretty d v)) \<and> hd (pretty d v) \<noteq> 93 \<and> hd (pretty d v) \<noteq> 125"
  using stringify_hd [of v] by (cases v) (auto simp: isJsonSpace_def)

lemma parseValue_pretty:
  "wfJson v \<Longrightarrow> need v \<le> n \<Longrightarrow> numEnd r \<Longrightarrow> parseValue n (pretty d v @ r) = Some (v, r)"
proof (induction v arbitrary: n r d)
  case (JArr xs)
  then obtain k where n: "n = Suc k" "needs xs \<le> k" by (cases n) auto
  show ?case
  proof (cases xs)
    case Nil
    then show ?thesis using n by simp
  next
    case (Cons x ys)
    have "parseElems k (join (44 # newLine (Suc d)) (map (pretty (Suc d)) xs) @ newLine d @ 93 # r) = Some (xs, r)"
      using JArr n Cons by (intro parse_pretty_elems) (auto simp: list_all_iff)
    moreover obtain u t where "join (44 # newLine (Suc d)) (map (pretty (Suc d)) xs) @ newLine d @ 93 # r = u # t"
        "\<not> isJsonSpace u" "u \<noteq> 93"
      using pretty_hd [of x "Suc d"] JArr.prems(1) Cons by (cases "pretty (Suc d) x"; cases ys) auto
    ultimately show ?thesis using n Cons by simp
  qed
next
  case (JObj ms)
  then obtain k where n: "n = Suc k" "needm ms \<le> k" by (cases n) auto
  show ?case
  proof (cases ms)
    case Nil
    then show ?thesis using n by simp
  next
    case (Cons m ys)
    let ?f = "\<lambda>(k, x). quoteString k @ [58, 32] @ pretty (Suc d) x"
    have "parseMembers k (join (44 # newLine (Suc d)) (map ?f ms) @ newLine d @ 125 # r) = Some (ms, r)"
      using JObj n Cons by (intro parse_pretty_members) (fastforce simp: list_all_iff)+
    moreover obtain t where "join (44 # newLine (Suc d)) (map ?f ms) @ newLine d @ 125 # r = 34 # t"
      using Cons by (cases m; cases ys) (auto simp: quoteString_def)
    ultimately show ?thesis using n Cons by simp
  qed
qed (simp_all only: pretty.simps, (rule parseValue_stringify; assumption)+)

lemma join_length_mono:
  "list_all2 (\<lambda>a b. length a \<le> length b) xs ys \<Longrightarrow> length p \<le> length q \<Longrightarrow> length (join p xs) \<le> length (join q ys)"
proof (induction rule: list_all2_induct)
  case (Cons x xs y ys)
  then show ?case by (cases "xs = []"; cases "ys = []") (auto simp: join_Cons)
qed simp

lemma pretty_length: "length (stringify v) \<le> length (pretty d v)"
proof (induction v arbitrary: d)
  case (JArr xs)
  then have "list_all2 (\<lambda>a b. length a \<le> length b) (map stringify xs) (map (pretty (Suc d)) xs)"
    by (auto simp: list_all2_conv_all_nth)
  from join_length_mono [OF this, of "[44]" "44 # newLine (Suc d)"] show ?case by simp
next
  case (JObj ms)
  have "length (stringify x) \<le> length (pretty (Suc d) x)" if "(k, x) \<in> set ms" for k x
    using JObj [OF that, of x "Suc d"] by simp
  then have "list_all2 (\<lambda>a b. length a \<le> length b) (map (\<lambda>(k, x). quoteString k @ [58] @ stringify x) ms)
      (map (\<lambda>(k, x). quoteString k @ [58, 32] @ pretty (Suc d) x) ms)"
    by (auto simp: list_all2_map1 list_all2_map2 list_all2_same) (meson le_SucI)
  from join_length_mono [OF this, of "[44]" "44 # newLine (Suc d)"] show ?case by simp
qed simp_all

lemma jsonParse_pretty: "wfJson v \<Longrightarrow> jsonParse (pretty d v) = Some v"
proof -
  assume v: "wfJson v"
  have "need v \<le> Suc (Suc (2 * length (pretty d v)))" using need_length [of v] pretty_length [of v d] by simp
  then show ?thesis using parseValue_pretty [OF v, of "Suc (Suc (2 * length (pretty d v)))" "[]" d]
    by (simp add: jsonParse_def skipWs_def)
qed

subsection \<open>The printed value\<close>

lemma jfield_keys:
  assumes "distinct ks"
  shows "jfield k (JObj (map (\<lambda>k. (k, f k)) ks)) = (if k \<in> set ks then Some (f k) else None)"
proof -
  have "rev (map (\<lambda>k. (k, f k)) ks) = map (\<lambda>k. (k, f k)) (rev ks)" by (simp add: rev_map)
  then show ?thesis by (simp add: jfield_def map_of_map_restrict restrict_map_def)
qed

lemma map_of_mapped:
  fixes f :: "'c \<Rightarrow> 'd" and ms :: "('b \<times> 'c) list"
  shows "map_of (rev (map (\<lambda>(k, x). (k, f x)) ms)) k = map_option f (map_of (rev ms) k)"
proof -
  have "map_of (map (\<lambda>(k, x). (k, f x)) xs) k = map_option f (map_of xs k)" for xs :: "('b \<times> 'c) list"
    by (induction xs) auto
  then show ?thesis by (simp only: rev_map)
qed

lemma jfield_normalJson: "jfield k (normalJson printNum v) = map_option (normalJson printNum) (jfield k v)"
  if "\<And>n. \<nexists>ms. printNum n = JObj ms"
proof (cases v)
  case (JObj ms)
  let ?ms = "map (\<lambda>(k, x). (k, normalJson printNum x)) ms"
  have "\<exists>ks. objectKeys (JObj ?ms) = Some ks" by (simp add: objectKeys_def Let_def)
  then obtain ks where ks: "objectKeys (JObj ?ms) = Some ks" by blast
  then have d: "distinct ks" "set ks = fst ` set ?ms" using objectKeys_object by blast+
  note m = map_of_mapped [of "normalJson printNum" ms k]
  have "k \<notin> set ks \<longleftrightarrow> map_of (rev ?ms) k = None"
    using map_of_eq_None_iff [of "rev ?ms" k] d(2) by auto
  moreover have "jfield k (normalJson printNum v) = (if k \<in> set ks then Some (ownValue (JObj ?ms) k) else None)"
    using jfield_keys [OF d(1), of k "ownValue (JObj ?ms)"] JObj ks by (simp add: Let_def)
  ultimately show ?thesis using m JObj by (auto simp: ownValue_def jfield_def split: option.splits)
next
  case (JNum n)
  then show ?thesis using that [of n] by (cases "printNum n") (auto simp: jfield_def)
qed (simp_all add: jfield_def)

lemma wf_normalJson: "(\<And>n. wfJson (printNum n)) \<Longrightarrow> wfJson (normalJson printNum v)"
proof (induction v)
  case (JObj ms)
  let ?ms = "map (\<lambda>(k, x). (k, normalJson printNum x)) ms"
  have w: "wfJson (normalJson printNum x)" if "(k, x) \<in> set ms" for k x
    using JObj.IH [OF that, of x] JObj.prems by simp
  have "wfJson (ownValue (JObj ?ms) k)" for k
  proof (cases "map_of (rev ms) k")
    case (Some x)
    then have "(k, x) \<in> set ms" using map_of_SomeD by force
    then show ?thesis using w Some map_of_mapped [of "normalJson printNum" ms k] by (simp add: ownValue_def jfield_def)
  qed (use map_of_mapped [of "normalJson printNum" ms k] in \<open>simp add: ownValue_def jfield_def\<close>)
  then show ?case by (simp add: Let_def list_all_iff)
qed (auto simp: list_all_iff)

subsection \<open>Properties\<close>

text \<open>C40: the metadata block shows the metadata. A text that does not parse is shown as it is; one that parses is shown
  indented, and reading the shown text back gives the parsed value as the language prints it, at every depth: each
  member of the value is there with its own printed value, and no other.\<close>

theorem formatJson_faithful:
  assumes "\<And>n. wfJson (printNum n) \<and> (\<nexists>ms. printNum n = JObj ms)" and "s \<noteq> []"
  shows "case jsonParse s of
      None \<Rightarrow> formatJson printNum (Some s) = s
    | Some v \<Rightarrow> \<exists>shown. jsonParse (formatJson printNum (Some s)) = Some shown \<and> shown = normalJson printNum v \<and>
        (\<forall>k. jfield k shown = map_option (normalJson printNum) (jfield k v))"
  using assms wf_normalJson [of printNum] jsonParse_pretty jfield_normalJson [of printNum]
  by (auto simp: formatJson_def truthy_def split: option.split)

definition toy_printNum :: "jsstring \<Rightarrow> json" where
  "toy_printNum n = (if validNumber n \<and> list_all isNumUnit n then JNum n else JNull)"

theorem formatJson_faithful_witness:
  "formatJson toy_printNum (Some (js ''{\"a\":[1,{}],\"a\":[]}'')) = js ''{'' @ [10] @ js ''  \"a\": []'' @ [10] @ js ''}'' \<and>
   jfield (js ''a'') (the (jsonParse (formatJson toy_printNum (Some (js ''{\"a\":[1,{}],\"a\":[]}''))))) = Some (JArr [])"
proof -
  let ?s = "js ''{\"a\":[1,{}],\"a\":[]}''"
  have p: "\<And>n. wfJson (toy_printNum n) \<and> (\<nexists>ms. toy_printNum n = JObj ms)" by (simp add: toy_printNum_def)
  have s: "?s \<noteq> []" by (simp add: js_Cons)
  have e: "jsonParse ?s = Some (JObj [(js ''a'', JArr [JNum (js ''1''), JObj []]), (js ''a'', JArr [])])"
    "formatJson toy_printNum (Some ?s) = js ''{'' @ [10] @ js ''  \"a\": []'' @ [10] @ js ''}''"
    by code_simp+
  have "jfield (js ''a'') (JObj [(js ''a'', JArr [JNum (js ''1''), JObj []]), (js ''a'', JArr [])]) = Some (JArr [])"
    by code_simp
  moreover note formatJson_faithful [of toy_printNum ?s, OF p s, unfolded e(1) option.case]
  ultimately show ?thesis using e(2) by auto
qed

end
