(* ===== verification/PanelView.thy ===== *)
theory PanelView
  imports FormViews FormatJson SessionPage NewSession
begin

text \<open>
  What the side panel of the session page renders: \<open>components/SessionDetailPanel.tsx\<close> with \<open>components/TagEditor.tsx\<close>,
  \<open>components/TagFilter.tsx\<close>, \<open>components/TagChips.tsx\<close> and \<open>components/NewSessionButton.tsx\<close>. Dragging is the subject of \<open>Reorder\<close>
  and no event here. The numbers shown in the list are related to the keyboard shortcuts of the page.
\<close>

text \<open>How the language and the browser read and print dates and numbers, and the case mapping.\<close>

record display =
  ds_getTime :: "jsstring \<Rightarrow> int option"
  ds_now :: int
  ds_formatDate :: "jsstring \<Rightarrow> jsstring"
  ds_showNum :: "jsstring \<Rightarrow> jsstring"
  ds_printNum :: "jsstring \<Rightarrow> json"
  ds_lower :: "jsstring \<Rightarrow> jsstring"

definition activeIn :: "display \<Rightarrow> session \<Rightarrow> bool" where
  "activeIn ds s = isActive (ds_getTime ds) (ds_now ds) s"

definition statusText :: "display \<Rightarrow> session \<Rightarrow> jsstring" where
  "statusText ds s = (case statusMetadata (ds_showNum ds) (se_metadata s) of Some t \<Rightarrow> if t = [] then js ''-'' else t | None \<Rightarrow> js ''-'')"

definition orDash :: "jsstring \<Rightarrow> jsstring" where
  "orDash s = (if s = [] then js ''-'' else s)"

subsection \<open>Tags\<close>

definition tagChips :: "jsstring list option \<Rightarrow> 'a view list" where
  "tagChips tags = (case tags of None \<Rightarrow> [] | Some ts \<Rightarrow> onlyIf (ts \<noteq> []) (VBox (map VText ts)))"

datatype editor_event = TeDraft jsstring | TeAdd | TeRemove jsstring

definition tagEditorView ::
  "(jsstring \<Rightarrow> jsstring) \<Rightarrow> (tag_error \<Rightarrow> jsstring) \<Rightarrow> jsstring list \<Rightarrow> jsstring list \<Rightarrow> tag_editor \<Rightarrow> editor_event view" where
  "tagEditorView lc msg tags suggestions ed =
     VBox (onlyIf (tags \<noteq> []) (VBox (map (\<lambda>tag. VBox [VText tag, VButton (js ''Remove tag '' @ tag) False (TeRemove tag)]) tags)) @
       [VInput (js ''Add a tag, press Enter'') (te_draft ed) False TeDraft, VKey (js ''Enter'') TeAdd,
        VBox (map VText (unusedSuggestions lc suggestions tags))] @
       errorLine msg (te_error ed))"

fun editorEvent :: "(jsstring \<Rightarrow> jsstring) \<Rightarrow> jsstring list \<Rightarrow> editor_event \<Rightarrow> tag_editor \<Rightarrow> tag_editor \<times> jsstring list option" where
  "editorEvent lc tags (TeDraft s) ed = (ed\<lparr>te_draft := s, te_error := None\<rparr>, None)"
| "editorEvent lc tags TeAdd ed = addTag lc tags ed"
| "editorEvent lc tags (TeRemove tag) ed = removeTag tag tags ed"

datatype filter_event = TfToggle | TfTag jsstring | TfClear | TfClose

definition tagFilterView :: "(jsstring \<Rightarrow> jsstring) \<Rightarrow> jsstring list \<Rightarrow> jsstring list \<Rightarrow> bool \<Rightarrow> filter_event view" where
  "tagFilterView lc tags selected opened =
     VBox ([VClick TfToggle (VText (js ''Filter by tags'') # onlyIf (selected \<noteq> []) (VText (showNat (length selected))))] @
       onlyIf opened
         (VBox ([if tags = [] then VText (js ''No tags yet. Add tags in a session'' @ [39] @ js ''s Details.'')
                 else VBox (map (\<lambda>tag. VCheck tag (isOn lc selected tag) (TfTag tag)) tags)] @
            onlyIf (selected \<noteq> []) (VButton (js ''Clear filter'') False TfClear) @
            [VKey (js ''Escape'') TfClose])))"

text \<open>The menu's state and the selection handed to \<open>onChange\<close>. A click outside the menu closes it like Escape.\<close>

fun filterEvent :: "(jsstring \<Rightarrow> jsstring) \<Rightarrow> jsstring list \<Rightarrow> filter_event \<Rightarrow> bool \<Rightarrow> bool \<times> jsstring list option" where
  "filterEvent lc selected TfToggle opened = (\<not> opened, None)"
| "filterEvent lc selected (TfTag tag) opened = (opened, Some (toggleTag lc selected tag))"
| "filterEvent lc selected TfClear opened = (opened, Some [])"
| "filterEvent lc selected TfClose opened = (False, None)"

subsection \<open>New session\<close>

datatype new_event = NsOpen | NsHost jsstring | NsName jsstring | NsCancel | NsSubmit

definition newSessionOptions :: "host list option \<Rightarrow> (jsstring \<times> jsstring) list" where
  "newSessionOptions hosts =
     (case hosts of
        None \<Rightarrow> [([], js ''Loading hosts'' @ [0x2026])]
      | Some hs \<Rightarrow> if hs = [] then [([], js ''No hosts configured'')]
                    else map (\<lambda>h. (showInt (ho_id h), if ho_label h \<noteq> [] then ho_label h else ho_hostname h)) hs)"

definition newSessionDialog :: "(dialog_error \<Rightarrow> jsstring) \<Rightarrow> new_dialog \<Rightarrow> new_event view" where
  "newSessionDialog msg d =
     VBox [VText (js ''New Session''),
       VForm NsSubmit
         ([VText (js ''Host''),
           VSelect (case nd_hostId d of None \<Rightarrow> [] | Some i \<Rightarrow> showInt i) (nd_hosts d = None) (newSessionOptions (nd_hosts d)) NsHost,
           VText (js ''Session name''), VInput (js ''e.g. feature-x'') (nd_name d) False NsName] @
          errorLine msg (nd_error d) @
          [VButton (js ''Cancel'') False NsCancel, VSubmit (js ''Create'') (nd_hosts d = None \<or> nd_hosts d = Some [])])]"

definition newSessionView :: "(dialog_error \<Rightarrow> jsstring) \<Rightarrow> jsstring \<Rightarrow> new_dialog option \<Rightarrow> new_event view" where
  "newSessionView msg label d =
     VBox (VClick NsOpen [VText (js ''New session''), VText label] #
       (case d of None \<Rightarrow> [] | Some x \<Rightarrow> [newSessionDialog msg x]))"

text \<open>The dialog, and what the parent's \<open>onCreate\<close> is given.\<close>

fun newSessionEvent :: "int option \<Rightarrow> new_event \<Rightarrow> new_dialog option \<Rightarrow> new_dialog option \<times> (host \<times> jsstring) option" where
  "newSessionEvent defaultHostId NsOpen d = (case d of None \<Rightarrow> Some (openDialog defaultHostId) | Some x \<Rightarrow> Some x, None)"
| "newSessionEvent defaultHostId (NsHost s) d = (map_option (\<lambda>x. x\<lparr>nd_hostId := if s = [] then None else parseIntJs s\<rparr>) d, None)"
| "newSessionEvent defaultHostId (NsName s) d = (map_option (\<lambda>x. x\<lparr>nd_name := s\<rparr>) d, None)"
| "newSessionEvent defaultHostId NsCancel d = (None, None)"
| "newSessionEvent defaultHostId NsSubmit d =
     (case d of
        None \<Rightarrow> (None, None)
      | Some x \<Rightarrow> (case submitDialog x of (x', None) \<Rightarrow> (Some x', None) | (x', Some r) \<Rightarrow> (None, Some r)))"

subsection \<open>Details\<close>

datatype panel_event =
    PvTab panel_tab | PvNew new_event | PvFilter filter_event | PvSelect jsstring | PvRestart | PvTags editor_event

definition activity :: "display \<Rightarrow> session \<Rightarrow> jsstring" where
  "activity ds s = (if activeIn ds s then js ''Active'' else js ''Inactive'')"

definition detailsTags ::
  "display \<Rightarrow> (tag_error \<Rightarrow> jsstring) \<Rightarrow> tag_editor option \<Rightarrow> jsstring list \<Rightarrow> session \<Rightarrow> panel_event view" where
  "detailsTags ds msg editor suggestions s =
     (let tags = (case se_tags s of Some ts \<Rightarrow> ts | None \<Rightarrow> [])
      in case editor of
           Some ed \<Rightarrow> mapEvents PvTags (tagEditorView (ds_lower ds) msg tags suggestions ed)
         | None \<Rightarrow> if tags \<noteq> [] then VBox (tagChips (se_tags s)) else VText (js ''-''))"

definition dateOrDash :: "display \<Rightarrow> jsstring option \<Rightarrow> jsstring" where
  "dateOrDash ds d = (if truthy d then ds_formatDate ds (the d) else js ''-'')"

definition sessionDetails ::
  "display \<Rightarrow> (tag_error \<Rightarrow> jsstring) \<Rightarrow> bool \<Rightarrow> bool \<Rightarrow> tag_editor option \<Rightarrow> jsstring list \<Rightarrow> session \<Rightarrow> panel_event view" where
  "sessionDetails ds msg showHeader canRestart editor suggestions s =
     VBox (onlyIf showHeader (VBox [VText (js ''Details''), VText (activity ds s)]) @
       onlyIf canRestart (VButton (js ''Restart session'') False PvRestart) @
       [VBox [VText (js ''Name''), VText (orDash (se_name s))],
        VBox [VText (js ''Tags''), detailsTags ds msg editor suggestions s],
        VBox [VText (js ''Status''), VText (statusText ds s)],
        VBox [VText (js ''Host''), VText (hostLabel s)],
        VBox [VText (js ''Session Hash''), VText (se_id s)],
        VBox [VText (js ''Started''), VText (ds_formatDate ds (se_started_at s))],
        VBox [VText (js ''Last Ping''), VText (dateOrDash ds (se_last_ping_at s))],
        VBox [VText (js ''Ended''), VText (dateOrDash ds (se_ended_at s))],
        VBox [VText (js ''User ID''), VText (showInt (se_user_id s))],
        VBox [VText (js ''Activity''), VText (activity ds s)],
        VBox [VText (js ''Metadata''), VText (formatJson (ds_printNum ds) (se_metadata s))]])"

subsection \<open>The list of sessions\<close>

definition panelTabs :: "panel_event view" where
  "panelTabs = VBox [VButton (js ''Sessions'') False (PvTab TabSessions), VButton (js ''Details'') False (PvTab TabDetails)]"

definition sessionListItem :: "display \<Rightarrow> nat \<Rightarrow> session \<Rightarrow> panel_event view" where
  "sessionListItem ds index s =
     VBox [VText (showNat index), VText (if activeIn ds s then js ''active'' else js ''inactive''), VText (js ''Drag to reorder''),
           VClick (PvSelect (se_id s)) ([VText (sessionLabel s), VText (statusText ds s)] @ tagChips (se_tags s))]"

definition sessionsList :: "display \<Rightarrow> session list \<Rightarrow> panel_event view" where
  "sessionsList ds ss =
     (if ss = [] then VText (js ''No sessions'')
      else VBox (map (\<lambda>(i, s). sessionListItem ds (Suc i) s) (enumerate 0 ss)))"

subsection \<open>The panel\<close>

record panel =
  pn_tab :: panel_tab
  pn_filterOpen :: bool
  pn_dialog :: "new_dialog option"
  pn_editor :: tag_editor

definition newPanel :: panel where
  "newPanel = \<lparr>pn_tab = TabDetails, pn_filterOpen = False, pn_dialog = None, pn_editor = \<lparr>te_draft = [], te_error = None\<rparr>\<rparr>"

definition panelView ::
  "display \<Rightarrow> (tag_error \<Rightarrow> jsstring) \<Rightarrow> (dialog_error \<Rightarrow> jsstring) \<Rightarrow> session \<Rightarrow> session list \<Rightarrow> nat option \<Rightarrow> jsstring list \<Rightarrow> jsstring list \<Rightarrow>
     panel \<Rightarrow> panel_event view" where
  "panelView ds tmsg dmsg s ss totalCount availableTags selectedTags pn =
     VBox (panelTabs #
       (case pn_tab pn of
          TabSessions \<Rightarrow>
            [VBox ([mapEvents PvNew (newSessionView dmsg [] (pn_dialog pn)),
                    mapEvents PvFilter (tagFilterView (ds_lower ds) availableTags selectedTags (pn_filterOpen pn))] @
               (case filterSummary selectedTags totalCount ss of None \<Rightarrow> [] | Some t \<Rightarrow> [VText t])),
             sessionsList ds ss]
        | TabDetails \<Rightarrow> [sessionDetails ds tmsg False True (Some (pn_editor pn)) availableTags s]))"

text \<open>What the panel asks of the page around it. Leaving a tab unmounts what it showed.\<close>

datatype panel_effect =
    SaveTags "jsstring list" | SetFilter "jsstring list" | CreateSession host jsstring | GoTo jsstring | RestartSession

fun panelEvent ::
  "display \<Rightarrow> session \<Rightarrow> jsstring list \<Rightarrow> panel_event \<Rightarrow> panel \<Rightarrow> panel \<times> panel_effect option" where
  "panelEvent ds s selectedTags (PvTab t) pn = (if t = pn_tab pn then pn else newPanel\<lparr>pn_tab := t\<rparr>, None)"
| "panelEvent ds s selectedTags (PvNew e) pn =
     (case newSessionEvent (Some (se_host_id s)) e (pn_dialog pn) of
        (d, r) \<Rightarrow> (pn\<lparr>pn_dialog := d\<rparr>, map_option (\<lambda>(h, n). CreateSession h n) r))"
| "panelEvent ds s selectedTags (PvFilter e) pn =
     (case filterEvent (ds_lower ds) selectedTags e (pn_filterOpen pn) of
        (opened, r) \<Rightarrow> (pn\<lparr>pn_filterOpen := opened\<rparr>, map_option SetFilter r))"
| "panelEvent ds s selectedTags (PvSelect i) pn = (pn, Some (GoTo i))"
| "panelEvent ds s selectedTags PvRestart pn = (pn, Some RestartSession)"
| "panelEvent ds s selectedTags (PvTags e) pn =
     (case editorEvent (ds_lower ds) (case se_tags s of Some ts \<Rightarrow> ts | None \<Rightarrow> []) e (pn_editor pn) of
        (ed, r) \<Rightarrow> (pn\<lparr>pn_editor := ed\<rparr>, map_option SaveTags r))"

subsection \<open>What the controls can cause\<close>

lemma tagChips_quiet [simp]: "concat (map clicks (tagChips t)) = []" "concat (map typings (tagChips t)) = []"
  by (cases t; simp add: tagChips_def o_def onlyIf_def)+

lemma newSessionEvent_valid:
  assumes "newSessionEvent h e d = (d', Some (host, n))"
  shows "\<exists>x hs. d = Some x \<and> nd_hosts x = Some hs \<and> host \<in> set hs \<and> Some (ho_id host) = nd_hostId x \<and> n = trim (nd_name x) \<and> n \<noteq> []"
proof -
  have e: "e = NsSubmit" using assms by (cases e) auto
  then obtain x where x: "d = Some x" using assms by (cases d) auto
  have s: "submitDialog x = (fst (submitDialog x), Some (host, n))"
    using assms e x by (cases "submitDialog x") (auto split: option.splits)
  then have "trim (nd_name x) \<noteq> []" by (auto simp: submitDialog_def Let_def split: if_splits)
  then obtain hs where "nd_hosts x = Some hs" "find (\<lambda>h. Some (ho_id h) = nd_hostId x) hs = Some host" "n = trim (nd_name x)"
    using s by (cases "nd_hosts x") (auto simp: submitDialog_def Let_def split: option.splits)
  then show ?thesis using x \<open>trim (nd_name x) \<noteq> []\<close> by (auto simp: find_Some_iff)
qed

lemma filter_offered: "offered (tagFilterView lc tags selected opened) (TfTag t) \<Longrightarrow> t \<in> set tags"
  by (auto simp: offered_def tagFilterView_def o_def split: if_splits)

lemma filterEvent_subset:
  assumes "offered (tagFilterView lc tags selected opened) e" and "filterEvent lc selected e opened = (opened', Some sel)"
  shows "set sel \<subseteq> set tags \<union> set selected"
  using assms filter_offered [of lc tags selected opened] by (cases e) (auto simp: toggleTag_def split: if_splits)

lemma editorEvent_ok:
  assumes "tagsOk lc tags" and "editorEvent lc tags e ed = (ed', Some ts)"
  shows "tagsOk lc ts"
proof (cases e)
  case TeAdd
  then show ?thesis using assms addTag_tagsOk [OF assms(1), of ed] by (auto split: if_splits)
next
  case (TeRemove x)
  then show ?thesis using assms removeTag_tagsOk [OF assms(1), of x ed] by auto
qed (use assms(2) in simp)

lemma sessionsList_offered: "offered (sessionsList ds ss) a \<Longrightarrow> \<exists>s\<in>set ss. a = PvSelect (se_id s)"
  by (auto simp: offered_def sessionsList_def sessionListItem_def in_set_enumerate_eq split: if_splits)


definition currentTags :: "session \<Rightarrow> jsstring list" where
  "currentTags s = (case se_tags s of Some ts \<Rightarrow> ts | None \<Rightarrow> [])"

text \<open>What an effect of the panel has to satisfy.\<close>

fun effectOk :: "display \<Rightarrow> session list \<Rightarrow> jsstring list \<Rightarrow> panel \<Rightarrow> panel_effect \<Rightarrow> bool" where
  "effectOk ds ss known pn (GoTo i) \<longleftrightarrow> i \<in> se_id ` set ss"
| "effectOk ds ss known pn (CreateSession h n) \<longleftrightarrow>
     (\<exists>d hs. pn_dialog pn = Some d \<and> nd_hosts d = Some hs \<and> h \<in> set hs \<and> Some (ho_id h) = nd_hostId d \<and> n = trim (nd_name d) \<and> n \<noteq> [])"
| "effectOk ds ss known pn (SetFilter sel) \<longleftrightarrow> set sel \<subseteq> set known"
| "effectOk ds ss known pn (SaveTags ts) \<longleftrightarrow> tagsOk (ds_lower ds) ts"
| "effectOk ds ss known pn RestartSession \<longleftrightarrow> True"

lemma sessionDetails_offered:
  assumes "offered (sessionDetails ds msg showHeader canRestart editor suggestions s) a"
  shows "a = PvRestart \<and> canRestart \<or> (\<exists>ed e. editor = Some ed \<and> a = PvTags e)"
proof -
  have "offered (detailsTags ds msg editor suggestions s) a \<or> (canRestart \<and> a = PvRestart)"
    using assms by (auto simp: offered_def sessionDetails_def split: if_splits)
  then show ?thesis
    by (auto simp: detailsTags_def Let_def offered_mapEvents offered_VBox offered_def split: option.splits if_splits)
qed

lemma panelView_offered:
  assumes "offered (panelView ds tmsg dmsg s ss tc known sel pn) a"
  shows "(\<exists>t. a = PvTab t) \<or> (\<exists>e. a = PvNew e) \<or>
    (\<exists>e. a = PvFilter e \<and> offered (tagFilterView (ds_lower ds) known sel (pn_filterOpen pn)) e) \<or>
    (\<exists>x\<in>set ss. a = PvSelect (se_id x)) \<or> a = PvRestart \<or> (\<exists>e. a = PvTags e)"
proof (cases "pn_tab pn")
  case TabSessions
  then have "offered panelTabs a \<or> (\<exists>e. a = PvNew e) \<or>
      (\<exists>e. a = PvFilter e \<and> offered (tagFilterView (ds_lower ds) known sel (pn_filterOpen pn)) e) \<or> offered (sessionsList ds ss) a"
    using assms by (auto simp: panelView_def offered_VBox offered_mapEvents offered_def [of "VText _"] split: option.splits)
  then show ?thesis using sessionsList_offered [of ds ss a] by (auto simp: panelTabs_def offered_def [of "VBox _"])
next
  case TabDetails
  then have "offered panelTabs a \<or> offered (sessionDetails ds tmsg False True (Some (pn_editor pn)) known s) a"
    using assms by (auto simp: panelView_def offered_VBox)
  then show ?thesis using sessionDetails_offered [of ds tmsg False True _ known s a] by (auto simp: panelTabs_def offered_def [of "VBox _"])
qed

subsection \<open>Properties\<close>

definition toy_display :: display where
  "toy_display = \<lparr>ds_getTime = (\<lambda>_. None), ds_now = 0, ds_formatDate = id, ds_showNum = id, ds_printNum = JNum, ds_lower = asciiLower\<rparr>"



text \<open>The number beside a session is the digit that goes to it. The entries of the Sessions tab are the listed sessions in order;
  the one at position \<open>i\<close> shows the number \<open>i + 1\<close> and its one control selects that session, and the shortcut of the same digit leads there
  too, for the first nine and unless it is the session on screen.\<close>

theorem shortcut_matches_number:
  assumes "i < length ss"
  shows "\<exists>items. sessionsList ds ss = VBox items \<and> length items = length ss \<and> hd (texts (items ! i)) = showNat (Suc i) \<and>
      clicks (items ! i) = [PvSelect (se_id (ss ! i))] \<and>
      shortcutTarget (map Row ss) current (Suc i) =
        (if i < 9 \<and> current \<noteq> Some (se_id (ss ! i)) then Some (se_id (ss ! i)) else None)"
proof -
  let ?items = "map (\<lambda>(i, s). sessionListItem ds (Suc i) s) (enumerate 0 ss)"
  have item: "?items ! i = sessionListItem ds (Suc i) (ss ! i)" using assms by (simp add: nth_enumerate_eq)
  have "sessionsList ds ss = VBox ?items \<and> length ?items = length ss" using assms by (auto simp: sessionsList_def)
  moreover have "hd (texts (?items ! i)) = showNat (Suc i) \<and> clicks (?items ! i) = [PvSelect (se_id (ss ! i))]"
    unfolding item by (simp add: sessionListItem_def)
  moreover have "shortcutTarget (map Row ss) current (Suc i) =
      (if i < 9 \<and> current \<noteq> Some (se_id (ss ! i)) then Some (se_id (ss ! i)) else None)"
    using assms by (auto simp: shortcutTarget_def js_nth_def)
  ultimately show ?thesis by blast
qed

theorem shortcut_matches_number_witness:
  "shortcutTarget (map Row [toy_session ''a'' 0, toy_session ''b'' 1]) (Some (js ''a'')) 2 = Some (js ''b'')"
  using shortcut_matches_number [of 1 "[toy_session ''a'' 0, toy_session ''b'' 1]" toy_display "Some (js ''a'')"]
  by (auto simp: toy_session_def js_Cons numeral_2_eq_2)

end
