(* ===== verification/DashboardView.thy ===== *)
theory DashboardView
  imports PanelView
begin

text \<open>
  What the dashboard renders (the JSX of \<open>pages/DashboardPage.tsx\<close>): a table on wide screens and cards on narrow ones, the actions in
  a row or behind a menu. \<open>Dashboard\<close> has the page's state and its handlers. Which of two elements is displayed is decided by the
  style sheet at the breakpoints \<open>sm\<close> and \<open>md\<close>; whether the window is that wide is the argument \<open>vp\<close>.
\<close>

record viewport =
  vp_sm :: bool
  vp_md :: bool

datatype dash_event =
    DvNew new_event | DvFilter filter_event | DvOpenMenu | DvCloseMenu | DvDownload | DvStale | DvLogout | DvRestart jsstring | DvDelete jsstring

subsection \<open>A session\<close>

text \<open>A row without a session has \<open>undefined\<close> in place of every value but its position.\<close>

definition shownRow :: "row \<Rightarrow> session" where
  "shownRow r = (case r of
     Row s \<Rightarrow> s
   | SeqOnly n \<Rightarrow> \<lparr>se_id = js ''undefined'', se_user_id = 0, se_host_id = 0, se_host = None, se_name = [], se_started_at = [],
       se_last_ping_at = None, se_last_activity_at = None, se_ended_at = None, se_metadata = None, se_seq = Some n, se_tags = None\<rparr>)"

definition sessionPath :: "jsstring \<Rightarrow> jsstring" where
  "sessionPath i = js ''/sessions/'' @ i"

definition lastPing :: "display \<Rightarrow> session \<Rightarrow> jsstring" where
  "lastPing ds s = formatRelativeTime (ds_getTime ds) (ds_formatDate ds) (ds_now ds) (se_last_ping_at s)"

definition rowActions :: "session \<Rightarrow> dash_event view" where
  "rowActions s = VBox [VButton (js ''Restart session'') False (DvRestart (se_id s)), VButton (js ''Delete session'') False (DvDelete (se_id s))]"

text \<open>The buttons of a table row stand inside its link; their handlers stop the click from reaching it.\<close>

definition tableRow :: "display \<Rightarrow> session \<Rightarrow> dash_event view" where
  "tableRow ds s =
     VBox [VText (js ''Drag to reorder''),
       VLink (sessionPath (se_id s))
         [VBox (VText (orDash (se_name s)) # tagChips (se_tags s)), VText (statusText ds s), VText (hostLabel s),
          VText (ds_formatDate ds (se_started_at s)), VText (lastPing ds s), VText (activity ds s),
          VText (parseMetadata (ds_showNum ds) (se_metadata s)), rowActions s]]"

definition sessionCard :: "display \<Rightarrow> session \<Rightarrow> dash_event view" where
  "sessionCard ds s =
     VBox [VText (js ''Drag to reorder''),
       VLink (sessionPath (se_id s))
         [VBox [VText (orDash (se_name s)), VText (activity ds s)], VBox (tagChips (se_tags s)),
          VBox [VText (js ''Status:''), VText (statusText ds s)], VBox [VText (js ''Host:''), VText (hostLabel s)],
          VBox [VText (js ''Started:''), VText (ds_formatDate ds (se_started_at s))], VBox [VText (js ''Last Ping:''), VText (lastPing ds s)],
          VBox [VText (js ''Metadata:''), VText (parseMetadata (ds_showNum ds) (se_metadata s))]],
       rowActions s]"

subsection \<open>Table and cards\<close>

definition tableHead :: "jsstring list" where
  "tableHead = map js [''Reorder'', ''Name'', ''Status'', ''Host'', ''Started'', ''Last Ping'', ''Activity'', ''Metadata'', '''']"

definition sessionTable :: "display \<Rightarrow> row list \<Rightarrow> dash_event view" where
  "sessionTable ds visible = VBox [VBox (map VText tableHead), VBox (map (\<lambda>r. tableRow ds (shownRow r)) visible)]"

text \<open>The cards follow the order of the pointer hook; an id without a session shows nothing.\<close>

definition sessionCards :: "display \<Rightarrow> row list \<Rightarrow> sid list \<Rightarrow> dash_event view" where
  "sessionCards ds ordered order =
     VBox (List.map_filter (\<lambda>i. map_option (\<lambda>r. sessionCard ds (shownRow r)) (byIdGet ordered (Some i))) order)"

definition emptyNote :: "dash_event view" where
  "emptyNote = VText (js ''No sessions found. Start a session with the CLI to see it here.'')"

subsection \<open>The actions\<close>

text \<open>\<open>actions\<close>: a label with where it leads or what it runs.\<close>

definition dashActions :: "(jsstring \<times> (jsstring + dash_event)) list" where
  "dashActions =
     [(js ''Hosts'', Inl (js ''/hosts'')), (js ''Settings'', Inl (js ''/settings'')), (js ''Download CA Key'', Inr DvDownload),
      (js ''Remove Stale Sessions'', Inr DvStale), (js ''Logout'', Inr DvLogout), (js ''Add Passkey'', Inl (js ''/passkeys/add''))]"

definition actionControl :: "jsstring \<times> (jsstring + dash_event) \<Rightarrow> dash_event view" where
  "actionControl act = (case act of (label, Inl to) \<Rightarrow> VLink to [VText label] | (label, Inr run) \<Rightarrow> VButton label False run)"

definition inlineActions :: "dash_event view" where
  "inlineActions = VBox (map actionControl dashActions)"

definition sideMenu :: "bool \<Rightarrow> dash_event view list" where
  "sideMenu opened = onlyIf opened
     (VBox [VText (js ''Menu''), VBox (map actionControl dashActions), VButton (js ''Close'') False DvCloseMenu, VKey (js ''Escape'') DvCloseMenu])"

subsection \<open>The page\<close>

record dash_ui =
  du_menu :: bool
  du_filterOpen :: bool
  du_dialog :: "new_dialog option"

definition dashHeader :: "display \<Rightarrow> (dialog_error \<Rightarrow> jsstring) \<Rightarrow> tag_filter \<Rightarrow> dash_ui \<Rightarrow> dashboard \<Rightarrow> dash_event view" where
  "dashHeader ds msg tf u d =
     VBox ([VText (js ''Sessions''), mapEvents DvNew (newSessionView msg (js ''New session'') (du_dialog u)),
            mapEvents DvFilter (tagFilterView (ds_lower ds) (tf_tags tf) (tf_selected tf) (du_filterOpen u))] @
       (case filterSummary (tf_selected tf) (Some (length (da_sessions d))) (tf_visible tf) of None \<Rightarrow> [] | Some t \<Rightarrow> [VText t]) @
       (case da_creating d of None \<Rightarrow> [] | Some (h, name) \<Rightarrow> [VText (js ''Starting '' @ name @ [0x2026])]))"

text \<open>The part of the page below its header, at a given width.\<close>

definition sessionsArea :: "display \<Rightarrow> viewport \<Rightarrow> tag_filter \<Rightarrow> sid list \<Rightarrow> dashboard \<Rightarrow> dash_event view list" where
  "sessionsArea ds vp tf order d =
     (if da_sessions d = [] then [emptyNote] else onlyIf (vp_md vp) (sessionTable ds (tf_visible tf))) @
     onlyIf (\<not> vp_md vp) (sessionCards ds (orderedSessions d) order)"

definition dashboardView ::
  "display \<Rightarrow> (dialog_error \<Rightarrow> jsstring) \<Rightarrow> viewport \<Rightarrow> tag_filter \<Rightarrow> sid list \<Rightarrow> dash_ui \<Rightarrow> dashboard \<Rightarrow> dash_event view" where
  "dashboardView ds msg vp tf order u d =
     (if da_loading d then VText (js ''Loading sessions...'')
      else VBox ([dashHeader ds msg tf u d] @
        onlyIf (vp_sm vp) inlineActions @
        onlyIf (\<not> vp_sm vp) (VButton (js ''Open menu'') False DvOpenMenu) @ sideMenu (du_menu u) @
        sessionsArea ds vp tf order d))"

text \<open>What the page does: requests, dialogs of the browser and navigation. Deleting asks first (\<open>sure\<close> is the answer).\<close>

datatype dash_effect =
    StartSession host jsstring | SelectTags "jsstring list" | DownloadKey | RemoveStale | LogoutUser | OpenRestarting jsstring | DeleteIt jsstring

fun dashEvent :: "display \<Rightarrow> jsstring list \<Rightarrow> bool \<Rightarrow> dash_event \<Rightarrow> dash_ui \<Rightarrow> dash_ui \<times> dash_effect option" where
  "dashEvent ds sel sure (DvNew e) u =
     (case newSessionEvent None e (du_dialog u) of (d, r) \<Rightarrow> (u\<lparr>du_dialog := d\<rparr>, map_option (\<lambda>(h, n). StartSession h n) r))"
| "dashEvent ds sel sure (DvFilter e) u =
     (case filterEvent (ds_lower ds) sel e (du_filterOpen u) of (opened, r) \<Rightarrow> (u\<lparr>du_filterOpen := opened\<rparr>, map_option SelectTags r))"
| "dashEvent ds sel sure DvOpenMenu u = (u\<lparr>du_menu := True\<rparr>, None)"
| "dashEvent ds sel sure DvCloseMenu u = (u\<lparr>du_menu := False\<rparr>, None)"
| "dashEvent ds sel sure DvDownload u = (u\<lparr>du_menu := False\<rparr>, Some DownloadKey)"
| "dashEvent ds sel sure DvStale u = (u\<lparr>du_menu := False\<rparr>, Some RemoveStale)"
| "dashEvent ds sel sure DvLogout u = (u\<lparr>du_menu := False\<rparr>, Some LogoutUser)"
| "dashEvent ds sel sure (DvRestart i) u = (u, Some (OpenRestarting (sessionPath i)))"
| "dashEvent ds sel sure (DvDelete i) u = (u, if sure then Some (DeleteIt i) else None)"

subsection \<open>Table and cards show the same\<close>

text \<open>The values of a session that a reader of the dashboard needs.\<close>

definition sessionValues :: "display \<Rightarrow> session \<Rightarrow> jsstring set" where
  "sessionValues ds s =
     {orDash (se_name s), statusText ds s, hostLabel s, ds_formatDate ds (se_started_at s), lastPing ds s, activity ds s,
      parseMetadata (ds_showNum ds) (se_metadata s)} \<union> set (currentTags s)"

lemma tagChips_shown: "(\<exists>v\<in>set (tagChips t). x \<in> set (texts v)) \<longleftrightarrow> x \<in> set (case t of Some ts \<Rightarrow> ts | None \<Rightarrow> [])"
  by (cases t) (auto simp: tagChips_def onlyIf_def o_def)

lemma tagChips_links [simp]: "concat (map links (tagChips t)) = []"
  by (cases t) (auto simp: tagChips_def onlyIf_def o_def)

lemma row_controls:
  "clicks (tableRow ds s) = [DvRestart (se_id s), DvDelete (se_id s)]" "links (tableRow ds s) = [sessionPath (se_id s)]" "typings (tableRow ds s) = []"
  "clicks (sessionCard ds s) = [DvRestart (se_id s), DvDelete (se_id s)]" "links (sessionCard ds s) = [sessionPath (se_id s)]" "typings (sessionCard ds s) = []"
  by (simp_all add: tableRow_def sessionCard_def rowActions_def)

lemma row_values: "sessionValues ds s \<subseteq> set (texts (tableRow ds s))" "sessionValues ds s \<subseteq> set (texts (sessionCard ds s))"
  using tagChips_shown [of "se_tags s"] by (auto simp: sessionValues_def tableRow_def sessionCard_def currentTags_def)

lemma cards_of_rows:
  assumes "rowsOk ordered" and "set visible \<subseteq> set ordered"
  shows "sessionCards ds ordered (orderedIds visible) = VBox (map (\<lambda>r. sessionCard ds (shownRow r)) visible)"
proof -
  have "List.map_filter (\<lambda>i. map_option (\<lambda>r. sessionCard ds (shownRow r)) (byIdGet ordered (Some i))) (List.map_filter rowId rows) =
      map (\<lambda>r. sessionCard ds (shownRow r)) rows" if "set rows \<subseteq> set ordered" for rows
    using that
  proof (induction rows)
    case (Cons r rows)
    then have "rowId r \<noteq> None" using assms(1) by (force simp: rowsOk_def)
    then obtain s where r: "r = Row s" by (cases r) auto
    then show ?case using Cons byIdGet_Some [OF assms(1), of s] by (simp add: List.map_filter_simps)
  qed (simp add: List.map_filter_simps)
  then show ?thesis using assms(2) by (simp add: sessionCards_def orderedIds_def)
qed


definition dashLinks :: "jsstring set" where
  "dashLinks = {js ''/hosts'', js ''/settings'', js ''/passkeys/add''}"

lemma filtered_rows: "set (tf_visible (useTagFilter lc cmp stored rows)) \<subseteq> set rows"
  by (auto simp: useTagFilter_def Let_def filterByTags_def split: if_splits)

lemma area_controls:
  assumes "rowsOk (da_sessions d)" and "set (tf_visible tf) \<subseteq> set (orderedSessions d)" and "order = orderedIds (tf_visible tf)"
  shows "concat (map clicks (sessionsArea ds vp tf order d)) = concat (map (\<lambda>r. [DvRestart (se_id (shownRow r)), DvDelete (se_id (shownRow r))]) (tf_visible tf))"
    and "concat (map links (sessionsArea ds vp tf order d)) = map (\<lambda>r. sessionPath (se_id (shownRow r))) (tf_visible tf)"
    and "concat (map typings (sessionsArea ds vp tf order d)) = []"
proof -
  have ok: "rowsOk (orderedSessions d)" using assms(1) by (simp add: orderedSessions_def)
  have none: "tf_visible tf = []" if "da_sessions d = []"
    using assms(2) that by (simp add: orderedSessions_def sortBySeq_def)
  note cards = cards_of_rows [OF ok assms(2), of ds, folded assms(3)]
  show "concat (map clicks (sessionsArea ds vp tf order d)) = concat (map (\<lambda>r. [DvRestart (se_id (shownRow r)), DvDelete (se_id (shownRow r))]) (tf_visible tf))"
    and "concat (map links (sessionsArea ds vp tf order d)) = map (\<lambda>r. sessionPath (se_id (shownRow r))) (tf_visible tf)"
    and "concat (map typings (sessionsArea ds vp tf order d)) = []"
    using none by (auto simp: sessionsArea_def sessionTable_def cards emptyNote_def o_def row_controls)
qed

lemma area_values:
  assumes "rowsOk (da_sessions d)" and "set (tf_visible tf) \<subseteq> set (orderedSessions d)" and "order = orderedIds (tf_visible tf)"
    and "Row s \<in> set (tf_visible tf)"
  shows "sessionValues ds s \<subseteq> set (concat (map texts (sessionsArea ds vp tf order d)))"
proof -
  have ok: "rowsOk (orderedSessions d)" using assms(1) by (simp add: orderedSessions_def)
  have ne: "da_sessions d \<noteq> []" using assms(2,4) by (auto simp: orderedSessions_def sortBySeq_def)
  note cards = cards_of_rows [OF ok assms(2), of ds, folded assms(3)]
  have "shownRow (Row s) = s" by (simp add: shownRow_def)
  then show ?thesis using row_values [of ds s] assms(4) ne
    by (cases "vp_md vp") (force simp: sessionsArea_def sessionTable_def cards)+
qed

lemma action_controls:
  "concat (map (\<lambda>a. clicks (actionControl a)) dashActions) = [DvDownload, DvStale, DvLogout]"
  "set (concat (map (\<lambda>a. links (actionControl a)) dashActions)) = dashLinks"
  "concat (map (\<lambda>a. typings (actionControl a)) dashActions) = []"
  by (auto simp: dashActions_def actionControl_def dashLinks_def)

lemma menu_controls:
  "concat (map clicks (sideMenu m)) = (if m then [DvDownload, DvStale, DvLogout, DvCloseMenu, DvCloseMenu] else [])"
  "set (concat (map links (sideMenu m))) = (if m then dashLinks else {})"
  "concat (map typings (sideMenu m)) = []"
  "clicks inlineActions = [DvDownload, DvStale, DvLogout]" "set (links inlineActions) = dashLinks" "typings inlineActions = []"
  using action_controls by (simp_all add: sideMenu_def inlineActions_def o_def)

lemma header_links [simp]: "links (dashHeader ds msg tf u d) = []"
  by (auto simp: dashHeader_def newSessionView_def newSessionDialog_def tagFilterView_def errorLine_def onlyIf_def split: option.splits prod.splits)

lemma dashboardView_eq:
  "\<not> da_loading d \<Longrightarrow> dashboardView ds msg vp tf order u d =
     VBox ([dashHeader ds msg tf u d] @ onlyIf (vp_sm vp) inlineActions @
       onlyIf (\<not> vp_sm vp) (VButton (js ''Open menu'') False DvOpenMenu) @ sideMenu (du_menu u) @ sessionsArea ds vp tf order d)"
  by (simp add: dashboardView_def)

lemma dashboardView_offered:
  assumes "\<not> da_loading d" "rowsOk (da_sessions d)" "set (tf_visible tf) \<subseteq> set (orderedSessions d)" "order = orderedIds (tf_visible tf)"
  shows "offered (dashboardView ds msg vp tf order u d) a \<longleftrightarrow> offered (dashHeader ds msg tf u d) a \<or>
      (vp_sm vp \<or> du_menu u) \<and> a \<in> {DvDownload, DvStale, DvLogout} \<or> \<not> vp_sm vp \<and> a = DvOpenMenu \<or> du_menu u \<and> a = DvCloseMenu \<or>
      (\<exists>r\<in>set (tf_visible tf). a = DvRestart (se_id (shownRow r)) \<or> a = DvDelete (se_id (shownRow r)))"
  unfolding dashboardView_eq [OF assms(1)] offered_def
  by (auto simp: menu_controls area_controls [OF assms(2-4)])

lemma dashboardView_links:
  assumes "\<not> da_loading d" "rowsOk (da_sessions d)" "set (tf_visible tf) \<subseteq> set (orderedSessions d)" "order = orderedIds (tf_visible tf)"
  shows "set (links (dashboardView ds msg vp tf order u d)) =
    (if vp_sm vp \<or> du_menu u then dashLinks else {}) \<union> (\<lambda>r. sessionPath (se_id (shownRow r))) ` set (tf_visible tf)"
  unfolding dashboardView_eq [OF assms(1)]
  using menu_controls(2) [of "du_menu u"] menu_controls(5) area_controls(2) [OF assms(2-4), of ds vp] by (auto simp del: set_concat)


subsection \<open>Properties\<close>

definition toy_dash :: dashboard where
  "toy_dash = initial_dashboard\<lparr>da_sessions := [Row (toy_session ''a'' 0)], da_loading := False\<rparr>"

definition toy_ui :: dash_ui where
  "toy_ui = \<lparr>du_menu = True, du_filterOpen = False, du_dialog = None\<rparr>"



end
