(* ===== verification/KeyViews.thy ===== *)
theory KeyViews
  imports View KeyPanel
begin

text \<open>
  What the quick-key overlay renders (the JSX of \<open>components/QuickKeysOverlay.tsx\<close>): its three tabs, their controls and what each of
  them asks of the page. The state and the handlers are in \<open>KeyPanel\<close>, the keys in \<open>QuickKeysStore\<close>.
\<close>

subsection \<open>Send tab\<close>

definition sendTabView :: "quick_key list \<Rightarrow> json view" where
  "sendTabView ks =
     VBox (onlyIf (ks \<noteq> [])
         (VBox [VText (js ''Your Quick Keys''), VBox (map (\<lambda>k. VButton (qk_display_token k) False (sendKey k)) ks)]) @
       [VBox [VText (js ''Presets''), VBox (map (\<lambda>p. VButton (pr_token p) False (specJson (pr_spec p))) PRESET_QUICK_KEYS)]])"

subsection \<open>Builder tab\<close>

datatype build_event = BvInput builder_event | BvSave

definition keyPosition :: "jsstring \<Rightarrow> nat" where
  "keyPosition k = length (takeWhile (\<lambda>x. x \<noteq> k) BASE_KEYS)"

definition stepEditor :: "builder \<Rightarrow> build_event view" where
  "stepEditor b =
     VBox [VText (js ''Add Step''),
       VButton (js ''Combo'') False (BvInput (BuMode EditCombo)), VButton (js ''Literal'') False (BvInput (BuMode EditLiteral)),
       (if bu_editMode b = EditCombo then
          VBox [VCheck (js ''Ctrl'') (bu_ctrl b) (BvInput (BuMods (\<not> bu_ctrl b) (bu_alt b) (bu_shift b))),
            VCheck (js ''Alt'') (bu_alt b) (BvInput (BuMods (bu_ctrl b) (\<not> bu_alt b) (bu_shift b))),
            VCheck (js ''Shift'') (bu_shift b) (BvInput (BuMods (bu_ctrl b) (bu_alt b) (\<not> bu_shift b))),
            VSelect (bu_baseKey b) False (map (\<lambda>k. (k, k)) BASE_KEYS) (\<lambda>k. BvInput (BuKey (keyPosition k))),
            VButton (js ''Add'') False (BvInput BuAdd)]
        else
          VBox [VInput (js ''Literal text...'') (bu_literalText b) False (\<lambda>s. BvInput (BuText s)),
            VCheck (js ''+Enter'') (bu_literalEnter b) (BvInput (BuEnter (\<not> bu_literalEnter b))),
            VButton (js ''Add'') False (BvInput BuAdd)])]"

definition stepList :: "builder \<Rightarrow> build_event view list" where
  "stepList b = onlyIf (bu_steps b \<noteq> [])
     (VBox [VText (js ''Steps ('' @ showNat (length (bu_steps b)) @ js '')''),
       VBox (map (\<lambda>(i, s). VBox [VText (describeStep s), VButton [] False (BvInput (BuRemove i))]) (enumerate 0 (bu_steps b)))])"

definition cannotSave :: "builder \<Rightarrow> bool" where
  "cannotSave b \<longleftrightarrow> bu_saving b \<or> trim (bu_name b) = [] \<or> trim (bu_displayToken b) = [] \<or> bu_steps b = []"

definition builderView :: "(jsstring \<Rightarrow> jsstring) \<Rightarrow> builder \<Rightarrow> build_event view" where
  "builderView lc b =
     VBox ([VBox [VText (js ''Name''), VInput (js ''e.g. Tmux Detach'') (bu_name b) False (\<lambda>s. BvInput (BuName s)),
              VText (js ''Display Token''), VInput (js ''e.g. ^A d'') (bu_displayToken b) False (\<lambda>s. BvInput (BuToken s))],
            stepEditor b] @ stepList b @
       [VBox [VText (js ''Byte Preview''), VText (case preview lc b of Some t \<Rightarrow> if t = [] then js ''(empty)'' else t | None \<Rightarrow> js ''(empty)'')],
        VBox [VCheck (js ''Pin to top bar'') (bu_pin b) (BvInput (BuPin (\<not> bu_pin b))),
              VButton (if bu_saving b then js ''Saving...'' else js ''Save'') (cannotSave b) BvSave]])"

text \<open>A click on Save starts the request; its answer is \<open>savedKey\<close>.\<close>

fun buildHandle :: "build_event \<Rightarrow> builder \<Rightarrow> builder" where
  "buildHandle (BvInput e) b = builderEvent e b"
| "buildHandle BvSave b = (case saveBegin b of None \<Rightarrow> b | Some (n, b') \<Rightarrow> b')"

fun buildStarts :: "build_event \<Rightarrow> builder \<Rightarrow> bool" where
  "buildStarts (BvInput e) b = False"
| "buildStarts BvSave b = (saveBegin b \<noteq> None)"

definition savedKey :: "bool \<Rightarrow> builder \<Rightarrow> builder" where
  "savedKey ok b = fst (saveDone ok b)"

subsection \<open>Manage tab\<close>

datatype manage_event =
    MgName jsstring | MgToken jsstring | MgSave quick_key | MgCancel | MgPin int | MgEdit quick_key | MgMove nat int | MgDelete int

definition newManage :: manage_tab where
  "newManage = \<lparr>mt_editingId = None, mt_editName = [], mt_editToken = []\<rparr>"

definition manageRow :: "quick_key list \<Rightarrow> manage_tab \<Rightarrow> nat \<Rightarrow> quick_key \<Rightarrow> manage_event view" where
  "manageRow ks t i k =
     (if mt_editingId t = Some (qk_id k) then
        VBox [VInput (js ''Name'') (mt_editName t) False MgName, VInput (js ''Token'') (mt_editToken t) False MgToken,
          VButton (js ''Save'') False (MgSave k), VButton (js ''Cancel'') False MgCancel]
      else
        VBox [VText (qk_name k), VText (qk_display_token k),
          VButton (if qk_pinned k then js ''Unpin'' else js ''Pin'') False (MgPin (qk_id k)),
          VButton (js ''Edit'') False (MgEdit k),
          VButton (js ''Move up'') (i = 0) (MgMove i (-1)),
          VButton (js ''Move down'') (int i = int (length ks) - 1) (MgMove i 1),
          VButton (js ''Delete'') False (MgDelete (qk_id k))])"

definition manageView :: "quick_key list \<Rightarrow> manage_tab \<Rightarrow> manage_event view" where
  "manageView ks t =
     (if ks = [] then VText (js ''No saved quick keys yet. Create one in the Builder tab.'')
      else VBox (map (\<lambda>(i, k). manageRow ks t i k) (enumerate 0 ks)))"

text \<open>The tab, and the calls it makes. The editor closes when its update has settled (\<open>saveEditDone\<close>).\<close>

datatype key_call =
    SendSpec json | CreateKey new_key | UpdateKey int key_fields | DeleteKey int | ReorderKeys "int list" | TogglePinned int | CloseOverlay

fun manageEvent :: "quick_key list \<Rightarrow> manage_event \<Rightarrow> manage_tab \<Rightarrow> manage_tab \<times> key_call list" where
  "manageEvent ks (MgName s) t = (t\<lparr>mt_editName := s\<rparr>, [])"
| "manageEvent ks (MgToken s) t = (t\<lparr>mt_editToken := typeToken s\<rparr>, [])"
| "manageEvent ks (MgSave k) t = (t, [UpdateKey (qk_id k) (saveEdit t)])"
| "manageEvent ks MgCancel t = (t\<lparr>mt_editingId := None\<rparr>, [])"
| "manageEvent ks (MgPin i) t = (t, [TogglePinned i])"
| "manageEvent ks (MgEdit k) t = (startEdit k t, [])"
| "manageEvent ks (MgMove i dir) t = (t, case moveItem ks i dir of None \<Rightarrow> [] | Some ids \<Rightarrow> [ReorderKeys ids])"
| "manageEvent ks (MgDelete i) t = (t, [DeleteKey i])"

subsection \<open>The overlay\<close>

datatype overlay_tab = OtSend | OtBuilder | OtManage

text \<open>The state of a tab lives while it is shown; the choice of the tab outlives closing the overlay.\<close>

record overlay =
  ov_tab :: overlay_tab
  ov_builder :: builder
  ov_manage :: manage_tab

definition newOverlay :: overlay where
  "newOverlay = \<lparr>ov_tab = OtSend, ov_builder = newBuilder, ov_manage = newManage\<rparr>"

datatype overlay_event = OvTab overlay_tab | OvClose | OvSend json | OvBuild build_event | OvManage manage_event

definition overlayView :: "(jsstring \<Rightarrow> jsstring) \<Rightarrow> bool \<Rightarrow> quick_key list \<Rightarrow> overlay \<Rightarrow> overlay_event view" where
  "overlayView lc isOpen ks ov =
     VBox (if \<not> isOpen then []
       else [VBox [VButton (js ''Send'') False (OvTab OtSend), VButton (js ''Builder'') False (OvTab OtBuilder),
                   VButton (js ''Manage'') False (OvTab OtManage), VButton (js ''X'') False OvClose],
             (case ov_tab ov of
                OtSend \<Rightarrow> mapEvents OvSend (sendTabView ks)
              | OtBuilder \<Rightarrow> mapEvents OvBuild (builderView lc (ov_builder ov))
              | OtManage \<Rightarrow> mapEvents OvManage (manageView ks (ov_manage ov)))])"

definition remounted :: "overlay \<Rightarrow> overlay" where
  "remounted ov = ov\<lparr>ov_builder := newBuilder, ov_manage := newManage\<rparr>"

fun overlayEvent :: "quick_key list \<Rightarrow> overlay_event \<Rightarrow> overlay \<Rightarrow> overlay \<times> key_call list" where
  "overlayEvent ks (OvTab t) ov = (if t = ov_tab ov then ov else (remounted ov)\<lparr>ov_tab := t\<rparr>, [])"
| "overlayEvent ks OvClose ov = (remounted ov, [CloseOverlay])"
| "overlayEvent ks (OvSend spec) ov = (remounted ov, [SendSpec spec, CloseOverlay])"
| "overlayEvent ks (OvBuild e) ov =
     (ov\<lparr>ov_builder := buildHandle e (ov_builder ov)\<rparr>,
      if buildStarts e (ov_builder ov) then [CreateKey (fst (the (saveBegin (ov_builder ov))))] else [])"
| "overlayEvent ks (OvManage e) ov =
     (case manageEvent ks e (ov_manage ov) of (t, calls) \<Rightarrow> (ov\<lparr>ov_manage := t\<rparr>, calls))"

text \<open>The builder's request succeeds: it runs \<open>onClose\<close>, which chooses the manage tab, whichever tab is shown by then.\<close>

definition builderSaved :: "bool \<Rightarrow> overlay \<Rightarrow> overlay" where
  "builderSaved ok ov =
     (let ov' = (if ov_tab ov = OtBuilder then ov\<lparr>ov_builder := savedKey ok (ov_builder ov)\<rparr> else ov)
      in if ok then fst (overlayEvent [] (OvTab OtManage) ov') else ov')"

subsection \<open>Laws\<close>

lemma sendTab_offered:
  "offered (sendTabView ks) v \<longleftrightarrow> (\<exists>k\<in>set ks. v = sendKey k) \<or> (\<exists>p\<in>set PRESET_QUICK_KEYS. v = specJson (pr_spec p))"
  by (auto simp: offered_def sendTabView_def o_def)

lemma saveBegin_None: "saveBegin b = None \<longleftrightarrow> trim (bu_name b) = [] \<or> trim (bu_displayToken b) = [] \<or> bu_steps b = []"
  by (simp add: saveBegin_def)

lemma stepEditor_inputs: "offered (stepEditor b) a \<Longrightarrow> \<exists>e. a = BvInput e \<and> (\<forall>ok. e \<noteq> BuSaved ok)"
  by (auto simp: offered_def stepEditor_def split: if_splits)

lemma builder_offered:
  assumes "offered (builderView lc b) a"
  shows "a = BvSave \<and> \<not> cannotSave b \<or> (\<exists>e. a = BvInput e \<and> (\<forall>ok. e \<noteq> BuSaved ok))"
proof -
  have "offered (stepEditor b) a \<or> (a = BvSave \<and> \<not> cannotSave b) \<or> (\<exists>e. a = BvInput e \<and> (\<forall>ok. e \<noteq> BuSaved ok))"
    using assms by (auto simp: offered_def builderView_def stepList_def onlyIf_def split: if_splits)
  then show ?thesis using stepEditor_inputs by blast
qed

lemma builderEvent_saving: "\<forall>ok. e \<noteq> BuSaved ok \<Longrightarrow> bu_saving (builderEvent e b) = bu_saving b"
  by (cases e) (auto simp: addStep_def removeStep_def)

interpretation key_saving: single_flight "builderView lc" buildHandle buildStarts savedKey "\<lambda>(_ :: unit) b. b" bu_saving
proof
  fix a b r and e :: unit
  show "buildStarts a b \<Longrightarrow> bu_saving (buildHandle a b)" by (cases a) (auto simp: saveBegin_def)
  show "bu_saving b \<Longrightarrow> offered (builderView lc b) a \<Longrightarrow> \<not> buildStarts a b" using builder_offered [of lc b a] by (auto simp: cannotSave_def)
  show "offered (builderView lc b) a \<Longrightarrow> \<not> buildStarts a b \<Longrightarrow> bu_saving (buildHandle a b) = bu_saving b"
    using builder_offered [of lc b a] by (auto simp: builderEvent_saving split: option.splits)
  show "\<not> bu_saving (savedKey r b)" by (simp add: savedKey_def saveDone_def)
  show "bu_saving ((\<lambda>_ b. b) e b) = bu_saving b" by simp
qed


lemma manageRow_move:
  "MgMove j dir \<in> set (clicks (manageRow ks t i k)) \<longleftrightarrow>
     mt_editingId t \<noteq> Some (qk_id k) \<and> j = i \<and> (dir = -1 \<and> i \<noteq> 0 \<or> dir = 1 \<and> int i \<noteq> int (length ks) - 1)"
  by (auto simp: manageRow_def)

lemma manageRow_typings: "f \<in> set (typings (manageRow ks t i k)) \<Longrightarrow> f = MgName \<or> f = MgToken"
  by (auto simp: manageRow_def split: if_splits)

lemma moveItem_defined: "moveItem ks i dir \<noteq> None \<longleftrightarrow> 0 \<le> int i + dir \<and> int i + dir < int (length ks)"
  by (auto simp: moveItem_def Let_def)

lemma manage_offered_move:
  "offered (manageView ks t) (MgMove i dir) \<longleftrightarrow> (\<exists>k. (i, k) \<in> set (enumerate 0 ks) \<and> MgMove i dir \<in> set (clicks (manageRow ks t i k)))"
proof (cases "ks = []")
  case False
  have "\<not> (\<exists>f\<in>set (typings (manageView ks t)). \<exists>s. MgMove i dir = f s)"
    using False manageRow_typings by (fastforce simp: manageView_def)
  then have "offered (manageView ks t) (MgMove i dir) \<longleftrightarrow> (\<exists>(j, k)\<in>set (enumerate 0 ks). MgMove i dir \<in> set (clicks (manageRow ks t j k)))"
    using False by (simp add: offered_def manageView_def split_beta)
  then show ?thesis by (auto simp: manageRow_move)
qed (simp add: offered_def manageView_def)

lemma builder_save_offered: "offered (builderView lc b) BvSave \<longleftrightarrow> \<not> cannotSave b"
proof
  assume "\<not> cannotSave b"
  then show "offered (builderView lc b) BvSave" by (auto simp: offered_def builderView_def)
qed (use builder_offered in blast)

lemma textEncode_accents: "length (textEncode (replicate n 0xe9)) = 2 * n"
proof -
  have plain: "\<not> isHighSurrogate 0xe9" "\<not> isLowSurrogate 0xe9" by (simp_all add: isHighSurrogate_def isLowSurrogate_def)
  then have "spread (replicate n 0xe9) = map (\<lambda>u. [u]) (replicate n 0xe9)" by (intro spread_plain) simp
  then show ?thesis using plain by (simp add: textEncode_def codePointOf_def utf8_cp_def length_concat sum_list_replicate)
qed

subsection \<open>Properties\<close>

text \<open>The controls of the overlay are enabled exactly when their handlers do something. Save can be pressed if and only if no save is
  under way and \<open>handleSave\<close> would send a key; and the arrow of a key can be pressed if and only if its row is not being edited
  and \<open>moveItem\<close> gives a new order.\<close>

theorem overlay_controls_exact:
  "(offered (builderView lc b) BvSave \<longleftrightarrow> \<not> bu_saving b \<and> saveBegin b \<noteq> None) \<and>
   (offered (manageView ks t) (MgMove i dir) \<longleftrightarrow>
      i < length ks \<and> mt_editingId t \<noteq> Some (qk_id (ks ! i)) \<and> dir \<in> {1, -1} \<and> moveItem ks i dir \<noteq> None)"
proof
  show "offered (builderView lc b) BvSave \<longleftrightarrow> \<not> bu_saving b \<and> saveBegin b \<noteq> None"
    unfolding builder_save_offered saveBegin_None cannotSave_def by blast
  have "(i, k) \<in> set (enumerate 0 ks) \<longleftrightarrow> i < length ks \<and> k = ks ! i" for k by (auto simp: in_set_enumerate_eq)
  then show "offered (manageView ks t) (MgMove i dir) \<longleftrightarrow>
      i < length ks \<and> mt_editingId t \<noteq> Some (qk_id (ks ! i)) \<and> dir \<in> {1, -1} \<and> moveItem ks i dir \<noteq> None"
    unfolding manage_offered_move manageRow_move moveItem_defined by auto
qed

text \<open>Saving ends on the manage tab, even when the user has gone elsewhere in the meantime and is about to send a key.\<close>

theorem late_save_changes_tab: "ov_tab ov = OtSend \<Longrightarrow> ov_tab (builderSaved True ov) = OtManage"
  by (simp add: builderSaved_def remounted_def)

text \<open>The inputs stay open while a key is being saved; what is typed then is cleared when the save succeeds.\<close>

theorem typing_during_save_is_lost:
  "offered (builderView lc b) (BvInput (BuName s)) \<and> bu_name (savedKey True (buildHandle (BvInput (BuName s)) b)) = []"
  by (auto simp: offered_def builderView_def savedKey_def saveDone_def)

text \<open>The token input counts code units, the server bytes: a token of twenty accented letters passes here and has forty bytes there.\<close>

theorem token_limit_in_units: "\<exists>s. typeToken s = s \<and> length (textEncode s) = 40"
proof -
  have "typeToken (replicate 20 0xe9) = replicate 20 0xe9" by (simp add: typeToken_def)
  moreover have "length (textEncode (replicate 20 0xe9)) = 40" using textEncode_accents [of 20] by simp
  ultimately show ?thesis by blast
qed

end
