(* ===== verification/PageView.thy ===== *)
theory PageView
  imports DashboardView KeyViews
begin

text \<open>
  What the page of a session renders and where its events go: \<open>components/SessionTopBar.tsx\<close> and the JSX of
  \<open>pages/SessionDetailPage.tsx\<close>, with the side panel (\<open>PanelView\<close>), the quick-key overlay (\<open>KeyViews\<close>) and the handle of the terminal
  (\<open>Terminal\<close>). \<open>st\<close> and \<open>err\<close> are the status and the detail the terminal last reported.
\<close>

subsection \<open>Top bar\<close>

datatype bar_event = TbBack | TbPanel | TbDetails | TbError | TbHideError | TbCopy | TbDismiss | TbSend json | TbOverlay | TbConnect | TbDisconnect

definition clipboardPill :: "clipboard_buffer \<Rightarrow> bar_event view" where
  "clipboardPill b =
     VBox ((case cb_status b of
         CbCopied \<Rightarrow> [VText (js ''Copied '' @ [0x2713])]
       | CbError \<Rightarrow> [VText (js ''Copy failed''), VButton (js ''Retry'') False TbCopy]
       | CbReady \<Rightarrow> [VText (js ''Clipboard ready '' @ [0xB7] @ js '' '' @ formatBytes (cb_bytes b)), VButton (js ''Copy'') False TbCopy]) @
       [VButton (js ''Dismiss clipboard'') False TbDismiss])"

fun STATUS_LABELS :: "conn_status \<Rightarrow> jsstring" where
  "STATUS_LABELS Disconnected = js ''Disconnected''"
| "STATUS_LABELS Connecting = js ''Connecting...''"
| "STATUS_LABELS Authenticating = js ''Authenticating...''"
| "STATUS_LABELS Connected = js ''Connected''"
| "STATUS_LABELS ErrorStatus = js ''Error''"

definition errorDetail :: "jsstring option \<Rightarrow> jsstring" where
  "errorDetail err = (if truthy err then the err else js ''Connection error'')"

definition statusView :: "viewport \<Rightarrow> conn_status \<Rightarrow> jsstring option \<Rightarrow> bool \<Rightarrow> bar_event view" where
  "statusView vp st err showError =
     VBox ((if st = ErrorStatus then [VButton (STATUS_LABELS st) False TbError]
            else onlyIf (st \<noteq> Connected \<or> vp_md vp) (VText (STATUS_LABELS st))) @
       onlyIf (st = ErrorStatus \<and> showError)
         (VBox [VText (js ''Connection error''), VText (errorDetail err), VButton (js ''Dismiss'') False TbHideError]))"

definition offline :: "conn_status \<Rightarrow> bool" where
  "offline st \<longleftrightarrow> st = Disconnected \<or> st = ErrorStatus"

definition connectButton :: "conn_status \<Rightarrow> bar_event view" where
  "connectButton st = (if offline st then VButton (js ''Connect'') False TbConnect else VButton (js ''Disconnect'') False TbDisconnect)"

definition pillsView :: "(jsstring \<times> json) list \<Rightarrow> nat \<Rightarrow> bar_event view list" where
  "pillsView pinned visibleCount =
     VBox (map (\<lambda>(token, spec). VButton token False (TbSend spec)) (visiblePills visibleCount pinned)) #
     (case overflowCount visibleCount pinned of None \<Rightarrow> [] | Some n \<Rightarrow> [VButton (js ''+'' @ showNat n) False TbOverlay])"

definition topBarView ::
  "viewport \<Rightarrow> jsstring \<Rightarrow> conn_status \<Rightarrow> jsstring option \<Rightarrow> bool \<Rightarrow> (jsstring \<times> json) list \<Rightarrow> nat \<Rightarrow> clipboard_buffer option \<Rightarrow> bar_event view \<Rightarrow>
     bar_event view" where
  "topBarView vp sessionName st err showError pinned visibleCount clipboard hamburger =
     VBox ([VButton (js ''Back to dashboard'') False TbBack, hamburger] @ onlyIf (vp_md vp) (VText sessionName) @
       [statusView vp st err showError] @ (case clipboard of None \<Rightarrow> [] | Some b \<Rightarrow> [clipboardPill b]) @
       pillsView pinned visibleCount @ [VButton (js ''Quick Keys'') False TbOverlay] @ onlyIf (vp_md vp) (connectButton st))"

subsection \<open>The page\<close>

text \<open>The details sheet of narrow screens has an editor and a dialog of its own while it is open.\<close>

record page_ui =
  pu_showError :: bool
  pu_visibleCount :: nat
  pu_sheet :: "(tag_editor \<times> new_dialog option) option"
  pu_panel :: panel
  pu_overlayOpen :: bool
  pu_overlay :: overlay

datatype page_event =
    PgBack | PgBar bar_event | PgCloseSheet | PgSheetNew new_event | PgSheet panel_event | PgPanel panel_event | PgOverlay overlay_event

definition hamburgerView :: "viewport \<Rightarrow> bool \<Rightarrow> bar_event view" where
  "hamburgerView vp panelOpen =
     VBox (onlyIf (vp_md vp) (VButton (if panelOpen then js ''Collapse details panel'' else js ''Expand details panel'') False TbPanel) @
       onlyIf (\<not> vp_md vp) (VButton (js ''Details'') False TbDetails))"

definition sheetView ::
  "display \<Rightarrow> (tag_error \<Rightarrow> jsstring) \<Rightarrow> (dialog_error \<Rightarrow> jsstring) \<Rightarrow> conn_status \<Rightarrow> session \<Rightarrow> jsstring list \<Rightarrow> tag_editor \<times> new_dialog option \<Rightarrow>
     page_event view" where
  "sheetView ds tmsg dmsg st s known sh =
     VBox [VText (js ''Session Details''), mapEvents PgBar (connectButton st),
       mapEvents PgSheetNew (newSessionView dmsg (js ''New session'') (snd sh)),
       mapEvents PgSheet (sessionDetails ds tmsg True True (Some (fst sh)) known s),
       VButton (js ''Close'') False PgCloseSheet, VKey (js ''Escape'') PgCloseSheet]"

definition sidePane ::
  "display \<Rightarrow> (tag_error \<Rightarrow> jsstring) \<Rightarrow> (dialog_error \<Rightarrow> jsstring) \<Rightarrow> session \<Rightarrow> tag_filter \<Rightarrow> page_ui \<Rightarrow> session_page \<Rightarrow> page_event view" where
  "sidePane ds tmsg dmsg s tf u p =
     mapEvents PgPanel (panelView ds tmsg dmsg s (map shownRow (tf_visible tf)) (Some (length (sp_sessions p))) (tf_tags tf) (tf_selected tf) (pu_panel u))"

definition noHostView :: "page_event view" where
  "noHostView = VBox [VText (js ''No host configured for this session''), VButton (js ''Back to Dashboard'') False PgBack]"

definition sessionPageView ::
  "display \<Rightarrow> (tag_error \<Rightarrow> jsstring) \<Rightarrow> (dialog_error \<Rightarrow> jsstring) \<Rightarrow> viewport \<Rightarrow> quick_key list \<Rightarrow> tag_filter \<Rightarrow> conn_status \<Rightarrow> jsstring option \<Rightarrow>
     page_ui \<Rightarrow> session_page \<Rightarrow> page_event view" where
  "sessionPageView ds tmsg dmsg vp ks tf st err u p =
     (case renderPage p of
        ViewLoading \<Rightarrow> VText (js ''Loading session...'')
      | ViewError m \<Rightarrow> VBox [VText m, VButton (js ''Back to Dashboard'') False PgBack]
      | ViewSession s \<Rightarrow>
          VBox ((case se_host s of
             None \<Rightarrow> [noHostView]
           | Some h \<Rightarrow>
               [mapEvents PgBar (topBarView vp (sessionLabel s) st err (pu_showError u) (pinnedKeys ks) (pu_visibleCount u) (sp_clipboard p)
                  (hamburgerView vp (sp_panelOpen p)))] @
               (case pu_sheet u of None \<Rightarrow> [] | Some sh \<Rightarrow> [sheetView ds tmsg dmsg st s (tf_tags tf) sh]) @
               onlyIf (sp_panelOpen p \<and> vp_md vp) (sidePane ds tmsg dmsg s tf u p)) @
            [mapEvents PgOverlay (overlayView (ds_lower ds) (pu_overlayOpen u) ks (pu_overlay u))]))"

subsection \<open>Where the events go\<close>

text \<open>Calls of the terminal's handle, of the router, of the clipboard, of the tag filter and of the REST client.\<close>

datatype page_call =
    CallConnect | CallDisconnect | CallRestart | CallSend json | GoDashboard | GoNewSession host jsstring | GoSession jsstring
  | PutTags jsstring "jsstring list" | PutFilter "jsstring list" | WriteClipboard jsstring | KeyCall key_call

fun barEvent :: "bar_event \<Rightarrow> page_ui \<times> session_page \<Rightarrow> (page_ui \<times> session_page) \<times> page_call list" where
  "barEvent TbBack (u, p) = ((u, p), [GoDashboard])"
| "barEvent TbPanel (u, p) = ((u\<lparr>pu_panel := newPanel\<rparr>, togglePanel p), [])"
| "barEvent TbDetails (u, p) = ((u\<lparr>pu_sheet := Some (pn_editor newPanel, None)\<rparr>, p), [])"
| "barEvent TbError (u, p) = ((u\<lparr>pu_showError := \<not> pu_showError u\<rparr>, p), [])"
| "barEvent TbHideError (u, p) = ((u\<lparr>pu_showError := False\<rparr>, p), [])"
| "barEvent TbCopy (u, p) = ((u, p), case copyText p of None \<Rightarrow> [] | Some t \<Rightarrow> [WriteClipboard t])"
| "barEvent TbDismiss (u, p) = ((u, handleDismissClipboard p), [])"
| "barEvent (TbSend spec) (u, p) = ((u, p), [CallSend spec])"
| "barEvent TbOverlay (u, p) = ((u\<lparr>pu_overlayOpen := True\<rparr>, p), [])"
| "barEvent TbConnect (u, p) = ((u, p), [CallConnect])"
| "barEvent TbDisconnect (u, p) = ((u, p), [CallDisconnect])"

text \<open>The handlers the page gives to the panel. The tags are those of the session on screen, the id is that of the route.\<close>

fun runEffect :: "panel_effect \<Rightarrow> session_page \<Rightarrow> session_page \<times> page_call list" where
  "runEffect (SaveTags ts) p = (handleTagsChange ts p, case sp_id p of Some i \<Rightarrow> if i = [] then [] else [PutTags i ts] | None \<Rightarrow> [])"
| "runEffect (SetFilter sel) p = (p, [PutFilter sel])"
| "runEffect (CreateSession h n) p = (p, [GoNewSession h n])"
| "runEffect (GoTo i) p = (navigateTo i p, [GoSession i])"
| "runEffect RestartSession p = (p, [CallRestart])"

definition runEffects :: "panel_effect option \<Rightarrow> session_page \<Rightarrow> session_page \<times> page_call list" where
  "runEffects r p = (case r of None \<Rightarrow> (p, []) | Some e \<Rightarrow> runEffect e p)"

fun isClose :: "key_call \<Rightarrow> bool" where
  "isClose CloseOverlay = True" | "isClose c = False"

fun overlayCall :: "key_call \<Rightarrow> page_call list" where
  "overlayCall (SendSpec spec) = [CallSend spec]"
| "overlayCall CloseOverlay = []"
| "overlayCall c = [KeyCall c]"

fun pageEvent ::
  "display \<Rightarrow> quick_key list \<Rightarrow> tag_filter \<Rightarrow> session \<Rightarrow> page_event \<Rightarrow> page_ui \<times> session_page \<Rightarrow> (page_ui \<times> session_page) \<times> page_call list" where
  "pageEvent ds ks tf s PgBack (u, p) = ((u, p), [GoDashboard])"
| "pageEvent ds ks tf s (PgBar e) (u, p) = barEvent e (u, p)"
| "pageEvent ds ks tf s PgCloseSheet (u, p) = ((u\<lparr>pu_sheet := None\<rparr>, p), [])"
| "pageEvent ds ks tf s (PgSheetNew e) (u, p) =
     (case pu_sheet u of
        None \<Rightarrow> ((u, p), [])
      | Some (ed, d) \<Rightarrow>
          (case newSessionEvent (Some (se_host_id s)) e d of
             (d', r) \<Rightarrow> ((u\<lparr>pu_sheet := Some (ed, d')\<rparr>, p), case r of None \<Rightarrow> [] | Some (h, n) \<Rightarrow> [GoNewSession h n])))"
| "pageEvent ds ks tf s (PgSheet e) (u, p) =
     (case pu_sheet u of
        None \<Rightarrow> ((u, p), [])
      | Some (ed, d) \<Rightarrow>
          (case panelEvent ds s [] e (newPanel\<lparr>pn_editor := ed\<rparr>) of
             (pn, r) \<Rightarrow> (case runEffects r p of (p', calls) \<Rightarrow> ((u\<lparr>pu_sheet := Some (pn_editor pn, d)\<rparr>, p'), calls))))"
| "pageEvent ds ks tf s (PgPanel e) (u, p) =
     (case panelEvent ds s (tf_selected tf) e (pu_panel u) of
        (pn, r) \<Rightarrow> (case runEffects r p of (p', calls) \<Rightarrow> ((u\<lparr>pu_panel := pn\<rparr>, p'), calls)))"
| "pageEvent ds ks tf s (PgOverlay e) (u, p) =
     (case overlayEvent ks e (pu_overlay u) of
        (ov, calls) \<Rightarrow> ((u\<lparr>pu_overlay := ov, pu_overlayOpen := (pu_overlayOpen u \<and> \<not> list_ex isClose calls)\<rparr>, p), concat (map overlayCall calls)))"


subsection \<open>Laws\<close>

definition shownWithHost :: "session \<Rightarrow> session_page \<Rightarrow> bool" where
  "shownWithHost s p \<longleftrightarrow> renderPage p = ViewSession s \<and> se_host s \<noteq> None"

text \<open>The page when a session with a host is on screen, part by part.\<close>

lemma pageView_offered:
  assumes "shownWithHost s p"
  shows "offered (sessionPageView ds tmsg dmsg vp ks tf st err u p) a \<longleftrightarrow>
      (\<exists>e. a = PgBar e \<and> offered (topBarView vp (sessionLabel s) st err (pu_showError u) (pinnedKeys ks) (pu_visibleCount u) (sp_clipboard p)
          (hamburgerView vp (sp_panelOpen p))) e) \<or>
      (\<exists>sh. pu_sheet u = Some sh \<and> offered (sheetView ds tmsg dmsg st s (tf_tags tf) sh) a) \<or>
      sp_panelOpen p \<and> vp_md vp \<and> offered (sidePane ds tmsg dmsg s tf u p) a \<or>
      (\<exists>e. a = PgOverlay e \<and> offered (overlayView (ds_lower ds) (pu_overlayOpen u) ks (pu_overlay u)) e)"
proof -
  obtain h where "renderPage p = ViewSession s" "se_host s = Some h" using assms by (auto simp: shownWithHost_def)
  then show ?thesis
    by (cases "pu_sheet u") (auto simp: sessionPageView_def offered_VBox offered_mapEvents onlyIf_def)
qed

lemma sheet_bar: "offered (sheetView ds tmsg dmsg st s known sh) (PgBar e) \<longleftrightarrow> offered (connectButton st) e"
  by (auto simp: sheetView_def offered_VBox offered_mapEvents offered_def [of "VText _"] offered_def [of "VButton _ _ _"] offered_def [of "VKey _ _"])

lemma pane_bar: "\<not> offered (sidePane ds tmsg dmsg s tf u p) (PgBar e)"
  by (auto simp: sidePane_def offered_mapEvents)

lemma pill_offered:
  "(\<exists>v\<in>set (pillsView pinned n). offered v e) \<longleftrightarrow> (\<exists>(token, spec)\<in>set (take n pinned). e = TbSend spec) \<or> n < length pinned \<and> e = TbOverlay"
  by (auto simp: pillsView_def visiblePills_def overflowCount_def offered_def split: option.splits if_splits prod.splits)

lemma connect_offered: "offered (connectButton st) e \<longleftrightarrow> e = (if offline st then TbConnect else TbDisconnect)"
  by (auto simp: connectButton_def offered_def)

lemma topBar_offered:
  "offered (topBarView vp name st err showError pinned n clip (hamburgerView vp opened)) e \<longleftrightarrow>
     e \<in> {TbBack, TbOverlay} \<or> e = (if vp_md vp then TbPanel else TbDetails) \<or> offered (statusView vp st err showError) e \<or>
     (\<exists>b. clip = Some b \<and> offered (clipboardPill b) e) \<or> (\<exists>(token, spec)\<in>set (take n pinned). e = TbSend spec) \<or>
     vp_md vp \<and> e = (if offline st then TbConnect else TbDisconnect)"
proof -
  have "offered (hamburgerView vp opened) e \<longleftrightarrow> e = (if vp_md vp then TbPanel else TbDetails)"
    by (auto simp: hamburgerView_def offered_def)
  moreover have "offered (topBarView vp name st err showError pinned n clip (hamburgerView vp opened)) e \<longleftrightarrow>
     e \<in> {TbBack, TbOverlay} \<or> offered (hamburgerView vp opened) e \<or> offered (statusView vp st err showError) e \<or>
     (\<exists>b. clip = Some b \<and> offered (clipboardPill b) e) \<or> (\<exists>v\<in>set (pillsView pinned n). offered v e) \<or> vp_md vp \<and> offered (connectButton st) e"
    by (cases clip) (auto simp: topBarView_def offered_VBox onlyIf_def offered_def [of "VText _"] offered_def [of "VButton _ _ _"])
  ultimately show ?thesis unfolding pill_offered connect_offered by auto
qed

lemma status_offered: "offered (statusView vp st err showError) e \<Longrightarrow> e = TbError \<or> e = TbHideError"
  by (auto simp: statusView_def onlyIf_def offered_def split: if_splits)

lemma clipboard_offered: "offered (clipboardPill b) e \<Longrightarrow> e = TbCopy \<or> e = TbDismiss"
  by (auto simp: clipboardPill_def offered_def split: clipboard_status.splits)

lemma effect_calls: "CallConnect \<notin> set (snd (runEffects r p))" "CallDisconnect \<notin> set (snd (runEffects r p))"
proof -
  have "CallConnect \<notin> set (snd (runEffect e p)) \<and> CallDisconnect \<notin> set (snd (runEffect e p))" for e
    by (cases e) (auto split: option.splits)
  then show "CallConnect \<notin> set (snd (runEffects r p))" "CallDisconnect \<notin> set (snd (runEffects r p))"
    by (auto simp: runEffects_def split: option.splits)
qed

lemma panel_calls:
  "snd (pageEvent ds ks tf s (PgPanel e) (u, p)) = snd (runEffects (snd (panelEvent ds s (tf_selected tf) e (pu_panel u))) p)"
  "snd (pageEvent ds ks tf s (PgSheet e) (u, p)) =
     (case pu_sheet u of None \<Rightarrow> [] | Some sh \<Rightarrow> snd (runEffects (snd (panelEvent ds s [] e (newPanel\<lparr>pn_editor := fst sh\<rparr>))) p))"
  by (simp_all add: split_beta del: panelEvent.simps split: option.split)

lemma overlay_calls: "CallConnect \<notin> set (overlayCall c) \<and> CallDisconnect \<notin> set (overlayCall c)"
  by (cases c) auto

lemma connection_calls:
  assumes "c = CallConnect \<and> e = TbConnect \<or> c = CallDisconnect \<and> e = TbDisconnect"
  shows "c \<in> set (snd (pageEvent ds ks tf s a (u, p))) \<longleftrightarrow> a = PgBar e"
proof (cases a)
  case (PgBar b)
  then show ?thesis using assms by (cases b) (auto split: option.splits)
next
  case (PgSheet x)
  then show ?thesis using assms effect_calls by (auto simp only: panel_calls page_event.distinct split: option.splits) simp_all
next
  case (PgPanel x)
  then show ?thesis using assms effect_calls by (auto simp only: panel_calls page_event.distinct)
next
  case (PgOverlay x)
  then show ?thesis using assms overlay_calls by (auto split: prod.splits)
qed (use assms in \<open>auto split: option.splits prod.splits\<close>)


lemma page_bar_offered:
  assumes "shownWithHost s p" and "vp_md vp \<or> pu_sheet u \<noteq> None" and "e \<in> {TbConnect, TbDisconnect}"
  shows "offered (sessionPageView ds tmsg dmsg vp ks tf st err u p) (PgBar e) \<longleftrightarrow> e = (if offline st then TbConnect else TbDisconnect)"
  using assms(2,3) status_offered [of vp st err "pu_showError u" e] clipboard_offered [of _ e]
  unfolding pageView_offered [OF assms(1)] by (auto simp: sheet_bar pane_bar topBar_offered connect_offered)

subsection \<open>Properties\<close>

definition toy_hosted :: session where
  "toy_hosted = (toy_session ''a'' 0)\<lparr>se_host := Some toy_host, se_tags := Some [js ''x'', js ''y'']\<rparr>"

definition toy_shown :: session_page where
  "toy_shown = \<lparr>sp_id = Some (js ''b''), sp_session = Some toy_hosted, sp_sessions = [], sp_loading = False, sp_error = [], sp_clipboard = None,
     sp_dismissals = 0, sp_panelOpen = True, sp_storage = empty_storage\<rparr>"

definition toy_key :: quick_key where
  "toy_key = optimisticKey \<lparr>nk_name = js ''Detach'', nk_display_token = js ''^D'', nk_spec = JArr [], nk_pinned = True\<rparr> 1 (js ''now'') 0"

definition toy_filter :: tag_filter where
  "toy_filter = \<lparr>tf_tags = [], tf_selected = [], tf_visible = []\<rparr>"

definition toy_page_ui :: page_ui where
  "toy_page_ui = \<lparr>pu_showError = False, pu_visibleCount = 0, pu_sheet = None, pu_panel = newPanel, pu_overlayOpen = False, pu_overlay = newOverlay\<rparr>"



text \<open>C36: every quick key can be sent from the page of a session. The bar has a pill for exactly the pinned keys that fit, in their order; and
  for every key of the store, whichever tab the overlay was left on, the keyboard button of the bar, the Send tab and the button of the key
  send its spec to the terminal and close the overlay.\<close>

theorem quick_keys_reachable:
  assumes "shownWithHost s p"
  shows "(offered (sessionPageView ds tmsg dmsg vp ks tf st err u p) (PgBar (TbSend spec)) \<longleftrightarrow>
        spec \<in> snd ` set (take (pu_visibleCount u) (pinnedKeys ks))) \<and>
    (k \<in> set ks \<longrightarrow>
      (\<exists>u'. follow (\<lambda>(u', p'). sessionPageView ds tmsg dmsg vp ks tf st err u' p') (pageEvent ds ks tf s)
          [PgBar TbOverlay, PgOverlay (OvTab OtSend), PgOverlay (OvSend (sendKey k))] (u, p) = Some ((u', p), [CallSend (sendKey k)]) \<and>
        \<not> pu_overlayOpen u'))"
proof
  note page = pageView_offered [OF assms]
  have "\<not> offered (statusView vp st err (pu_showError u)) (TbSend spec)" using status_offered by blast
  moreover have "\<not> offered (clipboardPill b) (TbSend spec)" for b using clipboard_offered by blast
  ultimately show "offered (sessionPageView ds tmsg dmsg vp ks tf st err u p) (PgBar (TbSend spec)) \<longleftrightarrow>
      spec \<in> snd ` set (take (pu_visibleCount u) (pinnedKeys ks))"
    unfolding page by (force simp: sheet_bar pane_bar topBar_offered connect_offered)
  have tabs: "offered (overlayView (ds_lower ds) True ks ov) (OvTab OtSend)" for ov
    by (simp add: overlayView_def offered_def)
  have send: "offered (overlayView (ds_lower ds) True ks ov) (OvSend (sendKey k))" if "ov_tab ov = OtSend" "k \<in> set ks" for ov
    using that sendTab_offered [of ks "sendKey k"] by (auto simp: overlayView_def offered_VBox offered_mapEvents)
  show "k \<in> set ks \<longrightarrow>
      (\<exists>u'. follow (\<lambda>(u', p'). sessionPageView ds tmsg dmsg vp ks tf st err u' p') (pageEvent ds ks tf s)
          [PgBar TbOverlay, PgOverlay (OvTab OtSend), PgOverlay (OvSend (sendKey k))] (u, p) = Some ((u', p), [CallSend (sendKey k)]) \<and>
        \<not> pu_overlayOpen u')"
    using tabs send by (simp add: page topBar_offered)
qed

theorem quick_keys_reachable_witness:
  "\<exists>u'. follow (\<lambda>(u', p'). sessionPageView toy_display (\<lambda>_. []) (\<lambda>_. []) \<lparr>vp_sm = True, vp_md = True\<rparr> [toy_key] toy_filter Connected None u' p')
      (pageEvent toy_display [toy_key] toy_filter toy_hosted)
      [PgBar TbOverlay, PgOverlay (OvTab OtSend), PgOverlay (OvSend (sendKey toy_key))] (toy_page_ui, toy_shown) =
    Some ((u', toy_shown), [CallSend (sendKey toy_key)]) \<and> \<not> pu_overlayOpen u'"
proof -
  have "shownWithHost toy_hosted toy_shown" by (simp add: shownWithHost_def renderPage_def toy_shown_def toy_hosted_def)
  moreover have "toy_key \<in> set [toy_key]" by simp
  ultimately show ?thesis using quick_keys_reachable by blast
qed

text \<open>Between going to another session and the answer with its data, the page still shows the old session: a tag removed then stores the
  old session's tags under the new session's id.\<close>

theorem tags_saved_for_wrong_session:
  assumes "shownWithHost s p" and "sp_panelOpen p" and "vp_md vp" and "pn_tab (pu_panel u) = TabDetails" and "tag \<in> set (currentTags s)" and "i \<noteq> []"
  shows "offered (sessionPageView ds tmsg dmsg vp ks tf st err u (navigateTo i p)) (PgPanel (PvTags (TeRemove tag)))"
    and "snd (pageEvent ds ks tf s (PgPanel (PvTags (TeRemove tag))) (u, navigateTo i p)) = [PutTags i (filter (\<lambda>t. t \<noteq> tag) (currentTags s))]"
proof -
  have "renderPage (navigateTo i p) = renderPage p" by (simp add: renderPage_def navigateTo_def)
  then have shown: "shownWithHost s (navigateTo i p)" using assms(1) by (simp add: shownWithHost_def)
  obtain ts where ts: "se_tags s = Some ts" "tag \<in> set ts" using assms(5) by (cases "se_tags s") (auto simp: currentTags_def)
  have "offered (tagEditorView (ds_lower ds) tmsg ts (tf_tags tf) (pn_editor (pu_panel u))) (TeRemove tag)"
    using ts(2) by (auto simp: tagEditorView_def offered_def)
  then have "offered (sidePane ds tmsg dmsg s tf u (navigateTo i p)) (PgPanel (PvTags (TeRemove tag)))"
    using assms(4) ts(1) by (simp add: sidePane_def offered_mapEvents panelView_def sessionDetails_def offered_VBox detailsTags_def)
  then show "offered (sessionPageView ds tmsg dmsg vp ks tf st err u (navigateTo i p)) (PgPanel (PvTags (TeRemove tag)))"
    using assms(2,3) unfolding pageView_offered [OF shown] by (simp add: navigateTo_def)
  show "snd (pageEvent ds ks tf s (PgPanel (PvTags (TeRemove tag))) (u, navigateTo i p)) = [PutTags i (filter (\<lambda>t. t \<noteq> tag) (currentTags s))]"
    using ts(1) assms(6) by (simp add: panel_calls runEffects_def removeTag_def currentTags_def navigateTo_def)
qed

end
