(* ===== verification/EnrollViews.thy ===== *)
theory EnrollViews
  imports View Enrollment
begin

text \<open>
  What the two pages of an enrollment render (the JSX of \<open>pages/AddPasskeyPage.tsx\<close>, machine A, and of \<open>pages/RegisterPasskeyPage.tsx\<close>,
  machine B) and where their controls lead. The handlers and the messages are in \<open>Enrollment\<close>.
\<close>

subsection \<open>Machine A\<close>

datatype a_event = AeCode jsstring | AeSubmit | AeCancel

definition isIdleOrError :: "machine_a \<Rightarrow> bool" where
  "isIdleOrError a \<longleftrightarrow> ma_status a = AIdle \<or> ma_status a = AError"

definition isInProgressA :: "machine_a \<Rightarrow> bool" where
  "isInProgressA a \<longleftrightarrow> ma_status a \<in> {AAuthenticating, AConnecting, AHandshaking, ATransferring}"

fun statusLineA :: "a_status \<Rightarrow> jsstring" where
  "statusLineA AAuthenticating = js ''Verifying your identity...''"
| "statusLineA AConnecting = js ''Connecting to other device...''"
| "statusLineA AHandshaking = js ''Performing key exchange...''"
| "statusLineA ATransferring = js ''Transferring master key...''"
| "statusLineA st = []"

definition addPasskeyView :: "(enroll_error \<Rightarrow> jsstring) \<Rightarrow> jsstring \<Rightarrow> machine_a \<Rightarrow> a_event view" where
  "addPasskeyView msg serverUrl a =
     VBox [VText (js ''Add Passkey''), VText (js ''Add a passkey from another device to your account''),
       VForm AeSubmit
         ([VText (js ''Only enter codes from devices YOU control''),
           VText (js ''On the other device, visit: ''), VText (serverUrl @ js ''/passkeys/enroll''),
           VText (js ''Enrollment Code''), VInput (js ''XXXX-XXXX'') (ma_code a) (\<not> isIdleOrError a) AeCode] @
          errorLine msg (ma_error a) @
          onlyIf (\<not> isIdleOrError a \<and> ma_status a \<noteq> ASuccess) (VText (statusLineA (ma_status a))) @
          onlyIf (ma_status a = ASuccess) (VText (js ''Passkey added successfully!'')) @
          onlyIf (isIdleOrError a) (VSubmit (if ma_status a = AError then js ''Retry'' else js ''Link Device'') (isInProgressA a)) @
          onlyIf (\<not> isIdleOrError a \<and> ma_status a \<noteq> ASuccess) (VButton (js ''Cancel'') False AeCancel))]"

fun aEvent :: "(jsstring \<Rightarrow> jsstring) \<Rightarrow> bool \<Rightarrow> jsstring option \<Rightarrow> a_event \<Rightarrow> machine_a \<Rightarrow> machine_a" where
  "aEvent uc supported token (AeCode s) a = a\<lparr>ma_code := formatCode uc s\<rparr>"
| "aEvent uc supported token AeSubmit a = submitA supported token a"
| "aEvent uc supported token AeCancel a = cancelA a"

subsection \<open>Machine B\<close>

datatype b_event = BeStart | BeCreate | BeCancel

fun statusLineB :: "(enroll_error \<Rightarrow> jsstring) \<Rightarrow> enroll_error option \<Rightarrow> b_status \<Rightarrow> jsstring" where
  "statusLineB msg e BWaiting = js ''Waiting for other device to connect...''"
| "statusLineB msg e BHandshaking = js ''Performing key exchange...''"
| "statusLineB msg e BReady = js ''Connected. Tap below to create your passkey on this device.''"
| "statusLineB msg e BRegistering = js ''Creating passkey...''"
| "statusLineB msg e BSuccess = js ''Passkey registered successfully!''"
| "statusLineB msg e BError = (case e of Some x \<Rightarrow> msg x | None \<Rightarrow> [])"
| "statusLineB msg e BIdle = []"

definition enrollView :: "(enroll_error \<Rightarrow> jsstring) \<Rightarrow> machine_b \<Rightarrow> b_event view" where
  "enrollView msg b =
     VBox ([VText (js ''Register Passkey''), VText (js ''Register a new passkey on this device'')] @
       onlyIf (mb_status b = BIdle)
         (VBox [VText (js ''Click the button below to generate an enrollment code. You will need to enter this code on another device that is already logged in.''),
           VButton (js ''Start Enrollment'') False BeStart]) @
       onlyIf (mb_status b \<noteq> BIdle)
         (VBox ([VText (js ''Your enrollment code:''), VText (shownCode (mb_code b))] @
           onlyIf (mb_expiresAt b \<noteq> None \<and> mb_timeLeft b > 0 \<and> mb_status b \<noteq> BSuccess) (VText (js ''Expires in: '' @ formatTime (nat (mb_timeLeft b)))) @
           [VText (statusLineB msg (mb_error b) (mb_status b))] @
           onlyIf (mb_status b = BReady) (VButton (js ''Create Passkey'') False BeCreate) @
           onlyIf (mb_status b \<noteq> BSuccess) (VButton (js ''Cancel'') False BeCancel))))"

text \<open>The clicks; \<open>start\<close> and \<open>create\<close> are what the handlers do once their requests and ceremonies have answered.\<close>

fun bEvent :: "(machine_b \<Rightarrow> machine_b) \<Rightarrow> (machine_b \<Rightarrow> machine_b) \<Rightarrow> b_event \<Rightarrow> machine_b \<Rightarrow> machine_b" where
  "bEvent start create BeStart b = start b"
| "bEvent start create BeCreate b = create b"
| "bEvent start create BeCancel b = cancelB b"

subsection \<open>Laws\<close>

lemma a_offered:
  "offered (addPasskeyView msg url a) AeSubmit \<longleftrightarrow> ma_status a \<in> {AIdle, AError}"
  "offered (addPasskeyView msg url a) AeCancel \<longleftrightarrow> ma_status a \<in> {AAuthenticating, AConnecting, AHandshaking, ATransferring}"
  by (cases "ma_status a"; auto simp: addPasskeyView_def offered_def isIdleOrError_def isInProgressA_def onlyIf_def)+

lemma b_offered:
  "offered (enrollView msg b) BeStart \<longleftrightarrow> mb_status b = BIdle"
  "offered (enrollView msg b) BeCreate \<longleftrightarrow> mb_status b = BReady"
  "offered (enrollView msg b) BeCancel \<longleftrightarrow> mb_status b \<notin> {BIdle, BSuccess}"
  by (cases "mb_status b"; auto simp: enrollView_def offered_def onlyIf_def)+

subsection \<open>Properties\<close>



text \<open>Cancelling does not stop an authentication that is under way: when the passkey answers, machine A goes on as if nothing had happened.\<close>

theorem cancel_does_not_stop_linking:
  assumes "ma_status a = AAuthenticating" and "\<not> ma_open a" and "ma_sessionKey a = None" and "\<not> ma_completed a"
  shows "ma_status (cancelA a) = AIdle" and "authDoneA env (Inr prf) (cancelA a) = authDoneA env (Inr prf) a"
    and "ma_status (authDoneA env (Inr prf) (cancelA a)) = AConnecting"
  using assms by (simp_all add: cancelA_def authDoneA_def)

text \<open>Cancelling a connection ends in an error: closing the socket runs its \<open>onclose\<close>, which takes the idle page for an interrupted one.\<close>

theorem cancel_reports_failure:
  "ma_status (oncloseA (cancelA a)) = AError" "ma_error (oncloseA (cancelA a)) = Some ClosedUnexpectedly"
  by (simp_all add: oncloseA_def cancelA_def failA_def)

text \<open>Without WebAuthn, a click on Start changes nothing on screen: the error is set but only shown in the error state.\<close>

theorem unsupported_start_is_silent: "enrollView msg (startB env priv False r now initB) = enrollView msg initB"
  by (simp add: enrollView_def startB_def initB_def)


text \<open>A connection that closes on machine B is reported without a reason: the box for the message stays empty.\<close>

theorem closed_enrollment_gives_no_reason:
  assumes "mb_status b = BWaiting" and "mb_error b = None" and "\<not> mb_cancelling b"
  shows "mb_status (oncloseB b) = BError" and "statusLineB msg (mb_error (oncloseB b)) (mb_status (oncloseB b)) = []"
  using assms by (simp_all add: oncloseB_def)

end
