(* ===== verification/AppViews.thy ===== *)
theory AppViews
  imports PageView EnrollViews Registration Unlock Themes
begin

text \<open>
  The route table (\<open>App.tsx\<close>) and the remaining views: the account and settings pages (\<open>pages/RegisterPage.tsx\<close>, \<open>pages/SettingsPage.tsx\<close>), the page
  that starts a session (\<open>pages/NewSessionPage.tsx\<close>), the dialogs of the terminal (\<open>components/WebAuthnDialog.tsx\<close>, \<open>components/PasswordDialog.tsx\<close>), the
  CA key card and the worker badge (\<open>components/CAPublicKeyDownload.tsx\<close>, \<open>components/WorkerStatusIndicator.tsx\<close>). How the router matches a path
  with a pattern is the argument \<open>matches\<close>.
\<close>

subsection \<open>Dialogs of the terminal\<close>

datatype unlock_event = UdCancel | UdAuthenticate | UdEscape

definition unlockView :: "bool \<Rightarrow> bool \<Rightarrow> jsstring option \<Rightarrow> auth_dialog \<Rightarrow> unlock_event view" where
  "unlockView isOpen isAuthenticating err d =
     VBox (if \<not> isOpen then []
       else [VText (js ''Unlock SSH Certificate''),
             VText (js ''Authenticate with your passkey to enable certificate-based SSH authentication. This will unlock your SSH CA signing capability for the next 30 minutes.'')] @
         errorLine id (displayError err d) @
         [VButton (js ''Use Password Instead'') isAuthenticating UdCancel,
          VButton (if isAuthenticating then js ''Authenticating...'' else js ''Authenticate'') isAuthenticating UdAuthenticate,
          VKey (js ''Escape'') UdEscape])"

text \<open>Both buttons of an alert dialog close it after their \<open>onClick\<close>, which runs \<open>onOpenChange(false)\<close>.\<close>

fun unlockEvent :: "unlock_event \<Rightarrow> auth_dialog \<Rightarrow> auth_dialog" where
  "unlockEvent UdCancel d = handleOpenChange False (d\<lparr>ad_cancels := Suc (ad_cancels d)\<rparr>)"
| "unlockEvent UdAuthenticate d = handleOpenChange False (handleAuthenticate d)"
| "unlockEvent UdEscape d = handleOpenChange False d"

datatype password_event = PwType jsstring | PwSubmit | PwCancel

definition passwordView :: "bool \<Rightarrow> jsstring \<Rightarrow> password_dialog \<Rightarrow> password_event view" where
  "passwordView isOpen username d =
     VBox (if \<not> isOpen then []
       else [VText (js ''SSH Password Authentication''),
             VForm PwSubmit
               ([VText (js ''Username''), VText username, VText (js ''Password''), VInput (js ''Enter password'') (pd_password d) False PwType] @
                onlyIf (pd_error d \<noteq> []) (VText (pd_error d)) @
                [VButton (js ''Cancel'') False PwCancel, VSubmit (js ''Connect'') False])])"

text \<open>The dialog, and the password given to the terminal.\<close>

fun passwordEvent :: "password_event \<Rightarrow> password_dialog \<Rightarrow> password_dialog \<times> jsstring option" where
  "passwordEvent (PwType s) d = (d\<lparr>pd_password := s\<rparr>, None)"
| "passwordEvent PwSubmit d = (case submitPassword d of (r, d') \<Rightarrow> (d', r))"
| "passwordEvent PwCancel d = (cancelPassword d, None)"

subsection \<open>Card and badge\<close>

datatype card_event = CdCopy | CdDownload

definition caCardView :: "ca_card \<Rightarrow> card_event view" where
  "caCardView c =
     VBox (VText (js ''SSH CA Public Key'') #
       (if ca_isLoading c then [VText (js ''Loading...'')]
        else if ca_error c \<noteq> [] then [VText (ca_error c)]
        else [VText (js ''Fingerprint''), VText (ca_fingerprint c), VButton (js ''Copy'') False CdCopy,
              VButton (js ''Download CA Public Key'') False CdDownload]))"

definition handleCopyFingerprint :: "ca_card \<Rightarrow> jsstring option" where
  "handleCopyFingerprint c = (if ca_fingerprint c = [] then None else Some (ca_fingerprint c))"

definition badgeView :: "frost_context \<Rightarrow> 'a view" where
  "badgeView fx = VText (if fx_isActive fx then js ''Worker Active - '' @ badgeTime (nat (fx_remainingTime fx)) else js ''Worker Inactive'')"

subsection \<open>Pages\<close>

datatype register_event = ReEmail jsstring | ReSubmit

definition registerView :: "(register_error \<Rightarrow> jsstring) \<Rightarrow> bool \<Rightarrow> jsstring \<Rightarrow> register_page \<Rightarrow> register_event view" where
  "registerView msg supported email p =
     VBox [VText (js ''Create Account''), VText (js ''Enter your email to create a new account with a passkey''),
       VForm ReSubmit
         (unsupportedNote supported @
          [VText (js ''Email''), VInput (js ''you@example.com'') email False ReEmail] @ errorLine msg (rp_error p) @
          [VSubmit (if rp_loading p then js ''Creating account...'' else js ''Create Account with Passkey'') (rp_loading p \<or> \<not> supported),
           VBox [VText (js ''Already have an account? ''), VLink (js ''/login'') [VText (js ''Sign in'')]]])]"

datatype settings_event = SeBack | SeTheme jsstring

definition themeOption :: "jsstring \<Rightarrow> theme_def \<Rightarrow> settings_event view" where
  "themeOption themeId t =
     VClick (SeTheme (td_id t)) (VText (td_label t) # onlyIf (td_id t = themeId) (VText (js ''Selected'')))"

definition settingsView :: "theme_context \<Rightarrow> settings_event view" where
  "settingsView c =
     VBox ([VButton (js ''Back'') False SeBack, VText (js ''Settings''), VText (js ''Theme''), VText (js ''Choose the colors for the app and terminal.'')] @
       map (themeOption (tc_id c)) THEME_LIST)"

datatype starting_event = StBack

definition newSessionPageView :: "host option \<Rightarrow> jsstring option \<Rightarrow> new_session_page \<Rightarrow> starting_event view" where
  "newSessionPageView h name p =
     VBox (if h = None \<or> \<not> truthy name then []
       else [VButton ([0x2190] @ js '' Dashboard'') False StBack, VText (the name), VText (headline p)] @
         (if np_error p \<noteq> [] then [VText (np_error p), VButton (js ''Back to Dashboard'') False StBack] else []))"

subsection \<open>Routes\<close>

datatype page_kind =
    ToDashboard | PageLogin | PageRegister | PagePair | PageEnroll | PageDashboard | PageNewSession | PageSession | PageSettings | PagePasskeys
  | PageAddPasskey | PageHosts

record route_entry =
  rt_path :: jsstring
  rt_page :: page_kind
  rt_protected :: bool

definition publicRoute :: "string \<Rightarrow> page_kind \<Rightarrow> route_entry" where
  "publicRoute path page = \<lparr>rt_path = js path, rt_page = page, rt_protected = False\<rparr>"

definition guardedRoute :: "string \<Rightarrow> page_kind \<Rightarrow> route_entry" where
  "guardedRoute path page = \<lparr>rt_path = js path, rt_page = page, rt_protected = True\<rparr>"

definition ROUTES :: "route_entry list" where
  "ROUTES =
     [publicRoute ''/'' ToDashboard, publicRoute ''/login'' PageLogin, publicRoute ''/register'' PageRegister, publicRoute ''/pair'' PagePair,
      publicRoute ''/passkeys/enroll'' PageEnroll, guardedRoute ''/dashboard'' PageDashboard, guardedRoute ''/sessions/new'' PageNewSession,
      guardedRoute ''/sessions/:id'' PageSession, guardedRoute ''/settings'' PageSettings, guardedRoute ''/settings/passkeys'' PagePasskeys,
      guardedRoute ''/passkeys/add'' PageAddPasskey, guardedRoute ''/hosts'' PageHosts]"

text \<open>What a route shows: its page, or a redirect to the sign-in page; \<open>None\<close> when reading the token threw.\<close>

definition renderRoute :: "storage \<Rightarrow> route_entry \<Rightarrow> page_kind option" where
  "renderRoute st r =
     (if rt_protected r then
        (case ProtectedRoute st of RouteChildren \<Rightarrow> Some (rt_page r) | RouteLogin \<Rightarrow> Some PageLogin | RouteThrows \<Rightarrow> None)
      else Some (rt_page r))"

text \<open>The links of a page, apart from those to sessions.\<close>

fun linksOf :: "page_kind \<Rightarrow> jsstring list" where
  "linksOf PageLogin = [js ''/register'']"
| "linksOf PageRegister = [js ''/login'']"
| "linksOf PageDashboard = [js ''/hosts'', js ''/settings'', js ''/passkeys/add'']"
| "linksOf PageHosts = [js ''/'']"
| "linksOf page = []"

text \<open>Everything the app links to while the dashboard's state is \<open>d\<close>, whatever its filter, the width of the window and the
  state of the other pages.\<close>

inductive linked :: "dashboard \<Rightarrow> jsstring \<Rightarrow> bool" for d where
  dash: "tf = useTagFilter lc cmp stored (orderedSessions d) \<Longrightarrow>
    href \<in> set (links (dashboardView ds msg vp tf (orderedIds (tf_visible tf)) u d)) \<Longrightarrow> linked d href"
| hosts: "href \<in> set (links (hostsView hmsg created hosts hs)) \<Longrightarrow> linked d href"
| pair: "href \<in> set (links (pairView pmsg hosts pp)) \<Longrightarrow> linked d href"
| passkeys: "href \<in> set (links (passkeyView kmsg fd keys pk)) \<Longrightarrow> linked d href"
| login: "href \<in> set (links (loginView lmsg f)) \<Longrightarrow> linked d href"
| register: "href \<in> set (links (registerView rmsg supported email r)) \<Longrightarrow> linked d href"

definition segment :: "jsstring \<Rightarrow> bool" where
  "segment i \<longleftrightarrow> i \<noteq> [] \<and> 47 \<notin> set i \<and> 63 \<notin> set i \<and> 35 \<notin> set i"


subsection \<open>Laws\<close>

lemma errorLine_links [simp]: "concat (map links (errorLine msg e)) = []"
  by (cases e) (simp_all add: errorLine_def onlyIf_def)

lemma unsupportedNote_links [simp]: "concat (map links (unsupportedNote supported)) = []"
  by (simp add: unsupportedNote_def)

lemma account_links:
  "set (links (loginView lmsg f)) \<subseteq> set (linksOf PageLogin)" "set (links (registerView rmsg supported email r)) \<subseteq> set (linksOf PageRegister)"
  by (auto simp: loginView_def registerView_def Let_def)

lemma hostFormView_links: "links (hostFormView msg l c hf) = []"
  by (simp add: hostFormView_def)

lemma hosts_links: "set (links (hostsView msg created hosts hs)) \<subseteq> set (linksOf PageHosts)"
proof -
  have "links (hostRow created h) = []" "links (hostCard h) = []" for h by (simp_all add: hostRow_def hostCard_def hostActions_def)
  then have "set (links (hostsPageView msg created hosts hs)) \<subseteq> {js ''/''}"
    by (auto simp: hostsPageView_def Let_def hostFormView_links o_def split: option.splits)
  then show ?thesis by (auto simp: hostsView_def deleteHostDialog_def split: option.splits if_splits)
qed

lemma pair_links: "links (pairView pmsg hosts pp) = []"
  by (simp add: pairView_def pairHostFields_def o_def)

lemma passkey_links: "links (passkeyView kmsg fd keys pk) = []"
  by (auto simp: passkeyView_def passkeyPageView_def passkeyRow_def deletePasskeyDialog_def o_def onlyIf_def)

lemma dash_links:
  assumes "rowsOk (da_sessions d)" and "set (tf_visible tf) \<subseteq> set (orderedSessions d)" and "order = orderedIds (tf_visible tf)"
  shows "set (links (dashboardView ds msg vp tf order u d)) \<subseteq> set (linksOf PageDashboard) \<union> (\<lambda>s. sessionPath (se_id s)) ` {s. Row s \<in> set (da_sessions d)}"
proof (cases "da_loading d")
  case False
  have "(\<lambda>r. sessionPath (se_id (shownRow r))) ` set (tf_visible tf) \<subseteq> (\<lambda>s. sessionPath (se_id s)) ` {s. Row s \<in> set (da_sessions d)}"
  proof clarify
    fix r assume "r \<in> set (tf_visible tf)"
    then have "r \<in> set (da_sessions d)" using assms(2) by (auto simp: orderedSessions_def sortBySeq_def)
    moreover then have "rowId r \<noteq> None" using assms(1) by (force simp: rowsOk_def)
    then obtain s where "r = Row s" by (cases r) auto
    ultimately show "sessionPath (se_id (shownRow r)) \<in> (\<lambda>s. sessionPath (se_id s)) ` {s. Row s \<in> set (da_sessions d)}"
      by (auto simp: shownRow_def)
  qed
  then show ?thesis unfolding dashboardView_links [OF False assms] by (auto simp: dashLinks_def)
qed (simp add: dashboardView_def)

lemma targets_routed: "href \<in> set (linksOf page) \<Longrightarrow> \<exists>r\<in>set ROUTES. rt_path r = href \<and> rt_path r \<noteq> js ''/sessions/:id''"
  by (cases page) (auto simp: ROUTES_def publicRoute_def guardedRoute_def js_Cons)

lemma linked_cases:
  assumes "linked d href" and "rowsOk (da_sessions d)"
  shows "(\<exists>page. href \<in> set (linksOf page)) \<or> (\<exists>s. Row s \<in> set (da_sessions d) \<and> href = sessionPath (se_id s))"
  using assms(1)
proof cases
  case (dash tf lc cmp stored ds msg vp u)
  then have "set (tf_visible tf) \<subseteq> set (orderedSessions d)" using filtered_rows by metis
  from dash_links [OF assms(2) this refl] dash(2) show ?thesis by blast
next
  case (hosts hmsg created hosts hs)
  then show ?thesis using hosts_links by blast
next
  case (login lmsg f)
  then show ?thesis using account_links(1) by blast
next
  case (register rmsg supported email r)
  then show ?thesis using account_links(2) by blast
qed (auto simp: pair_links passkey_links simp del: linksOf.simps)

subsection \<open>Properties\<close>

text \<open>No link of the app leads nowhere. If the router takes a pattern without parameters to match itself and the pattern of a
  session to match every single path segment, then whatever the dashboard, the pages for hosts, pairing and passkeys, the sign-in and the
  registration page link to, at any width and in any state, is a path of the route table, provided that session ids are path segments.\<close>

theorem no_dead_links:
  assumes "\<And>r. r \<in> set ROUTES \<Longrightarrow> rt_path r \<noteq> js ''/sessions/:id'' \<Longrightarrow> matches (rt_path r) (rt_path r)"
    and "\<And>i. segment i \<Longrightarrow> matches (js ''/sessions/:id'') (sessionPath i)"
    and "rowsOk (da_sessions d)" and "\<And>s. Row s \<in> set (da_sessions d) \<Longrightarrow> segment (se_id s)"
    and "linked d href"
  shows "\<exists>r\<in>set ROUTES. matches (rt_path r) href"
  using linked_cases [OF assms(5,3)]
proof (elim disjE exE conjE)
  fix page assume "href \<in> set (linksOf page)"
  then show ?thesis using targets_routed assms(1) by metis
next
  fix s assume "Row s \<in> set (da_sessions d)" "href = sessionPath (se_id s)"
  then have "matches (js ''/sessions/:id'') href" using assms(2,4) by simp
  moreover have "\<exists>r\<in>set ROUTES. rt_path r = js ''/sessions/:id''" by (simp add: ROUTES_def publicRoute_def guardedRoute_def)
  ultimately show ?thesis by metis
qed

definition toy_matches :: "jsstring \<Rightarrow> jsstring \<Rightarrow> bool" where
  "toy_matches pattern path \<longleftrightarrow> pattern = path \<or> pattern = js ''/sessions/:id'' \<and> take 10 path = js ''/sessions/'' \<and> segment (drop 10 path)"

theorem no_dead_links_witness: "\<exists>r\<in>set ROUTES. toy_matches (rt_path r) (js ''/sessions/a'')"
proof (rule no_dead_links [where d = toy_dash])
  show "toy_matches (rt_path r) (rt_path r)" for r by (simp add: toy_matches_def)
  show "toy_matches (js ''/sessions/:id'') (sessionPath i)" if "segment i" for i using that by (simp add: toy_matches_def sessionPath_def js_def)
  show ok: "rowsOk (da_sessions toy_dash)" by (simp add: toy_dash_def rowsOk_def)
  show "segment (se_id s)" if "Row s \<in> set (da_sessions toy_dash)" for s using that by (auto simp: toy_dash_def toy_session_def segment_def js_Cons)
  let ?tf = "useTagFilter id Comparator.flat [] (orderedSessions toy_dash)"
  have rows: "orderedSessions toy_dash = [Row (toy_session ''a'' 0)]" by (simp add: orderedSessions_def toy_dash_def sortBySeq_def)
  have tf: "tf_visible ?tf = [Row (toy_session ''a'' 0)]"
    by (simp add: rows useTagFilter_def Let_def filterByTags_def effectiveFilter_def)
  have sub: "set (tf_visible ?tf) \<subseteq> set (orderedSessions toy_dash)" unfolding tf by (simp add: rows)
  have loaded: "\<not> da_loading toy_dash" by (simp add: toy_dash_def)
  have path: "sessionPath (se_id (shownRow (Row (toy_session ''a'' 0)))) = js ''/sessions/a''"
    by (simp add: shownRow_def toy_session_def sessionPath_def js_Cons)
  have "Row (toy_session ''a'' 0) \<in> set (tf_visible ?tf)" unfolding tf by simp
  from imageI [OF this, of "\<lambda>r. sessionPath (se_id (shownRow r))"]
  have "js ''/sessions/a'' \<in> set (links (dashboardView toy_display (\<lambda>_. []) \<lparr>vp_sm = True, vp_md = True\<rparr> ?tf (orderedIds (tf_visible ?tf)) toy_ui toy_dash))"
    unfolding dashboardView_links [OF loaded ok sub refl] path by blast
  then show "linked toy_dash (js ''/sessions/a'')" by (rule linked.dash [OF refl])
qed

text \<open>Without a token only the pages for signing in, registering, pairing and enrolling are shown.\<close>

theorem guarded_pages_need_token:
  assumes "r \<in> set ROUTES" and "renderRoute st r = Some page" and "page \<notin> {ToDashboard, PageLogin, PageRegister, PagePair, PageEnroll}"
  shows "\<exists>t. getItem (js ''token'') st = Some (Some t) \<and> t \<noteq> []"
proof -
  have "rt_protected r" using assms by (auto simp: ROUTES_def publicRoute_def guardedRoute_def renderRoute_def)
  then have "ProtectedRoute st = RouteChildren" using assms(2,3) by (auto simp: renderRoute_def split: route.splits)
  then show ?thesis by (auto simp: ProtectedRoute_def truthy_def split: option.splits if_splits)
qed

text \<open>The page that manages passkeys has a route and no way to it: nothing links there.\<close>

theorem passkey_management_unlinked:
  assumes "rowsOk (da_sessions d)"
  shows "js ''/settings/passkeys'' \<in> rt_path ` set ROUTES \<and> \<not> linked d (js ''/settings/passkeys'')"
proof
  show "js ''/settings/passkeys'' \<in> rt_path ` set ROUTES" by (simp add: ROUTES_def publicRoute_def guardedRoute_def)
  have "js ''/settings/passkeys'' \<notin> set (linksOf page)" for page by (cases page) (auto simp: js_Cons)
  moreover have "js ''/settings/passkeys'' \<noteq> sessionPath i" for i by (simp add: sessionPath_def js_Cons)
  ultimately show "\<not> linked d (js ''/settings/passkeys'')" using linked_cases [OF _ assms] by metis
qed

text \<open>Choosing the password in the unlock dialog calls \<open>onCancel\<close> twice: once from the button and once because the dialog closes.\<close>

theorem password_instead_cancels_twice:
  assumes "\<not> ad_inProgress d" and "\<not> ad_succeeded d"
  shows "ad_cancels (unlockEvent UdCancel d) = ad_cancels d + 2"
  using assms by (simp add: handleOpenChange_def)

end
