(* ===== verification/Spec2Isabelle.thy ===== *)
theory Spec2Isabelle
  imports Encoding MasterKey FrostEncoding Frost FrostWorker FrostClient Signing Api SessionPage QuickKeysStore SessionUpdates Terminal Enrollment Unlock Themes NewSession SshClient KeyPanel Hosts Widgets EnrollUnlock AppViews
begin

text \<open>
  Verification library for the web client of devsesh (TypeScript under \<open>web/src\<close>): the page that lists tmux sessions,
  opens them in a terminal over SSH in the browser, and signs SSH certificates together with the server by FROST
  threshold signatures whose client share is protected by a passkey.

  \<^bold>\<open>The program and its parts.\<close> A user registers or signs in with a passkey. The passkey's PRF output wraps a master key; the
  master key encrypts the client share of the certificate authority. To open a terminal, the SSH client (Go,
  compiled to wasm) asks for a certificate; the terminal unlocks the master key, hands the share to a web worker, and the
  FROST client and the server sign in two rounds. A second device gets the master key from the first one over a
  password-authenticated exchange. Around this there is a REST client, a feed of session updates over a socket, and the
  pages that show and edit sessions, tags, quick keys, hosts and themes.

  \<^bold>\<open>Theories, by layer.\<close> The prelude and the platform:
  \<^item> \<open>Prelude\<close>: results as sums, byte arrays, array operations of JavaScript, reachability and the locale \<open>invariant_system\<close>,
    by which every step relation proves its invariant;
  \<^item> \<open>JsText\<close> (UTF-16 strings, \<open>trim\<close>, UTF-8), \<open>Json\<close> (\<open>JSON.parse\<close> and \<open>JSON.stringify\<close>), \<open>Storage\<close> (\<open>localStorage\<close>, which may throw).

  Keys and cryptography:
  \<^item> \<open>Encoding\<close> (\<open>lib/crypto/encoding.ts\<close>): base64 and base64url, the locale \<open>byte_codec\<close>;
  \<^item> \<open>MasterKey\<close> (\<open>lib/crypto/aes.ts\<close>, \<open>prf.ts\<close>, \<open>ssh.ts\<close>): AES-GCM, PRF keys, wrapped master keys, OpenSSH keys;
  \<^item> \<open>FrostEncoding\<close>, \<open>Buffers\<close>, \<open>Frost\<close> (\<open>frost-encoding.ts\<close>, \<open>memory.ts\<close>, \<open>frost.ts\<close>): wire formats, an explicit heap of buffers, the
    signing rounds and what they erase;
  \<^item> \<open>FrostWorker\<close> (\<open>workers/frost-worker.ts\<close>): the worker as a state machine, refined to an abstract signing protocol; the locale
    of its signer is interpreted by the rounds of \<open>Frost\<close>;
  \<^item> \<open>FrostClient\<close> (\<open>lib/frost-client.ts\<close>): promises and timeouts of the requests to the worker, and the certificate flow; \<open>Signing\<close> puts client and worker together:
    the channel between them, and a whole certificate request through both;
  \<^item> \<open>Spake2\<close>, \<open>Enrollment\<close>, \<open>EnrollUnlock\<close> (\<open>lib/crypto/spake2.ts\<close>, \<open>pages/AddPasskeyPage.tsx\<close>, \<open>pages/RegisterPasskeyPage.tsx\<close>):
    the exchange, both machines of an enrollment, and the ceremonies of the new device;
  \<^item> \<open>WebAuthn\<close>, \<open>Registration\<close>, \<open>Unlock\<close> (\<open>pages/RegisterPage.tsx\<close>, \<open>contexts/FROSTContext.tsx\<close>, \<open>components/SSHTerminal.tsx\<close>): creation of an
    account and the unlock.

  Network and terminal:
  \<^item> \<open>Api\<close> (\<open>lib/api.ts\<close>): every endpoint, and the locale \<open>rest_call\<close> that each of them satisfies;
  \<^item> \<open>Auth\<close> (\<open>contexts/AuthContext.tsx\<close>, \<open>pages/LoginPage.tsx\<close>, the route guard of \<open>App.tsx\<close>);
  \<^item> \<open>SessionUpdates\<close> (\<open>hooks/useSessionUpdates.ts\<close>): sockets, retries and the staleness check;
  \<^item> \<open>ShellQuote\<close>, \<open>Terminal\<close>, \<open>SshClient\<close> (\<open>components/SSHTerminal.tsx\<close>, \<open>lib/ssh-client.ts\<close>): the commands sent to the remote shell,
    the connection with its reconnects and dialogs, and the loading and sharing of the wasm program.

  Pages:
  \<^item> \<open>Sessions\<close>, \<open>Tags\<close>, \<open>Reorder\<close>, \<open>Dashboard\<close>, \<open>SessionPage\<close>, \<open>NewSession\<close> (\<open>lib/session.ts\<close>, \<open>lib/tags.ts\<close>, the reordering hooks and the pages):
    lists kept by an update stream (locale \<open>update_log\<close>), filters and drags;
  \<^item> \<open>QuickKeys\<close>, \<open>QuickKeysStore\<close>, \<open>KeyPanel\<close> (\<open>lib/quick-keys.ts\<close>, \<open>hooks/useQuickKeys.ts\<close>, \<open>components/QuickKeysOverlay.tsx\<close>,
    \<open>components/SessionTopBar.tsx\<close>): encoding, the optimistic store (locale \<open>optimistic\<close>), the builder and the pills;
  \<^item> \<open>Hosts\<close> (\<open>pages/HostsPage.tsx\<close>, \<open>components/HostForm.tsx\<close>, \<open>pages/PairPage.tsx\<close>, \<open>pages/PasskeyManagementPage.tsx\<close>): forms, by the
    locale \<open>form_flow\<close>;
  \<^item> \<open>Themes\<close>, \<open>Widgets\<close> (\<open>lib/themes.ts\<close>, \<open>contexts/ThemeContext.tsx\<close>, the dialogs, the CA key card, printed values).

  What the pages render:
  \<^item> \<open>View\<close>: trees of texts and controls, which events a tree offers (\<open>offered\<close>), sequences of offered events (\<open>follow\<close>), and the locale
    \<open>single_flight\<close> of a page that waits for one request at a time;
  \<^item> \<open>FormViews\<close>, \<open>EnrollViews\<close>, \<open>AppViews\<close> (the JSX of the pages with forms, of the two enrollment pages, of the account and settings pages,
    the dialogs, and the route table of \<open>App.tsx\<close>);
  \<^item> \<open>FormatJson\<close>, \<open>PanelView\<close> (\<open>components/SessionDetailPanel.tsx\<close>, \<open>TagEditor.tsx\<close>, \<open>TagFilter.tsx\<close>, \<open>TagChips.tsx\<close>, \<open>NewSessionButton.tsx\<close>): the side panel;
  \<^item> \<open>DashboardView\<close>, \<open>KeyViews\<close>, \<open>PageView\<close> (\<open>pages/DashboardPage.tsx\<close>, \<open>components/QuickKeysOverlay.tsx\<close>, \<open>components/SessionTopBar.tsx\<close>,
    \<open>pages/SessionDetailPage.tsx\<close>): table and cards, the overlay, and the page of a session with the calls its events make.

  \<^bold>\<open>How the model corresponds to the code.\<close> A component's state is a record with one field per variable or hook, named after it with
  a prefix. A handler is one definition; an asynchronous one is split at its awaits (\<open>...Begin\<close>, \<open>...Done\<close>), the outcome of the
  awaited call being an argument, so that other events can come between. A callback that closes over a rendered
  value takes it as an argument. Exceptions are values of a sum. Machine integers are words where width matters:
  code units are 16-bit, bytes 8-bit words, and the delay of a timer is read as a signed 32-bit number. A component's JSX is a function from
  its state to a tree of texts and controls, in the order of the source and under its conditions; a control carries the event its
  handler stands for, and whether it is disabled.

  \<^bold>\<open>Parameters.\<close> Code outside the sources is an argument: WebCrypto (\<open>webcrypto\<close>), the noble curves (\<open>noble\<close>, \<open>p256\<close>), SHA-256 of
  the noble hashes, the server (\<open>server\<close>, a function from requests to responses), the authenticator, the WebAuthn library
  (\<open>startAuthentication\<close>, \<open>startRegistration\<close>, \<open>b64u\<close>), the language's case mapping, collation, date parsing and printing of
  numbers. What the proofs use of them is stated as named predicates (\<open>aesgcm_correct\<close>, \<open>aesgcm_authentic\<close>, \<open>hkdf_length\<close>, \<open>ecdh_agreement\<close>,
  \<open>prf_consistent\<close>, \<open>prf_created\<close>), each satisfied by a concrete instance in the witnesses.

  \<^bold>\<open>What is shown.\<close> The worker: its responses follow the protocol, key material that it releases is erased and stays so, a share has a
  bounded life, its variables keep their types. The certificate flow: its messages, its outcome, that it never
  hangs, that requests get the answers to their own messages, and what a whole run through the worker sends and erases.
  Keys: wrapping and unlocking are inverse; an account that was registered, and a device that was enrolled, can be
  unlocked. The terminal: no injection through a session name, bounded reconnecting, a disconnect is respected, a drop is
  noticed. The feed always recovers. After a 401 no call carries credentials. The lists of the pages agree with the
  events and the drags; edits keep their invariants; what is stored is read back; failures keep what the user typed.
  The views: no form is sent twice, the controls ask for nothing invalid, every width of the window offers the same, the
  control that applies to the connection is there and no other, every key can be sent, no enrollment page is a dead end.
  Theorems without a number record behaviour that differs from what a comment or a caller expects.

  \<^bold>\<open>Termination and fuel.\<close> Every function is total. The only loop of the sources without a bound, the padding of base64url, is
  proved to end. The JSON parser recurses on a fuel of twice the length of the text plus two: a value takes at most two
  steps per character, and \<open>jsonParse_stringify\<close> shows that it is enough for every printed value.

  \<^bold>\<open>Not modelled.\<close> Styling: the primitives of \<open>components/ui\<close>, class names, icons and focus, and \<open>main.tsx\<close>, because they hold no state; the
  geometry of the page (viewport, fitting of the terminal, measured edges), which is an argument where a decision depends on it;
  xterm; console output and the diagnostics sent by \<open>clientLog\<close>; the Go program behind the wasm client, its runtime
  \<open>wasm_exec.js\<close>, the server and the command line, which are other programs; tests. Rounding of numbers beyond two to the 53
  is not modelled.
\<close>

text \<open>C5: an account that was created can be unlocked. When a registration reaches the dashboard and the server later
  serves what was uploaded (among any number of other blobs of the same master key), the unlock flow in the same
  browser with the same passkey recovers the master key and sends the FROST worker exactly the client share
  that the server handed out at registration, with no error and no detour through provisioning.\<close>

theorem registration_then_unlock:
  assumes "aesgcm_correct (re_crypto env)" and "aesgcm_authentic (re_crypto env)" and "hkdf_length (re_crypto env)"
    and "prf_consistent (re_auth env) prf" and "sameDevice env uenv" and "randomOk rnd"
    and "handleRegister env rnd email (p, a, b) = (p', a', b')" and "rp_navigate p = None" and "rp_navigate p' \<noteq> None"
    and "rp_credential p' = Some cred" and "rp_blob p' = Some blob" and "rp_answer p' = Some answer"
    and "truthyMember ''token'' answer = Some (JStr token)" and "truthyMember ''client_share'' answer = Some (JStr plain)"
    and "rp_share p' = Some txt"
    and "servesAccount uenv b' (signedInUser email (Some (JStr token))) (rr_masterKey rnd) (cr_rawId cred) blob txt"
    and "fx_client fx = Some c"
  shows "\<exists>i fx' c' h payload. handleWebAuthnAuth uenv (d, fx, b') = (Some i, d\<lparr>ud_authenticating := True, ud_error := None\<rparr>, fx', b') \<and>
    fx_client fx' = Some c' \<and> c_posted c' = c_posted c @ [(h, MInit payload)] \<and>
    (\<exists>share. decodeBase64 plain = Inr share \<and> ip_share payload = JsU8 share)"
proof -
  let ?user = "signedInUser email (Some (JStr token))"
  have dev: "ue_crypto uenv = re_crypto env" "ue_auth uenv = re_auth env" "ue_showNum uenv = re_showNum env" using assms(5) by (simp_all add: sameDevice_def)
  have rnd: "length (rr_masterKey rnd) = 32" "length (rr_nonce rnd) = 12" "length (rr_shareNonce rnd) = 12" using assms(6) by (simp_all add: randomOk_def)
  obtain response and b1 :: browser where reg: "registerAccount env rnd email response = Inr (cred, blob, answer)"
      "login (re_showNum env) (Some (JStr token)) ?user (a, br_storage b1) = (Inr (), a', br_storage b')"
      "uploadShare env rnd answer b' = (Inr (Some txt), b')"
    by (rule handleRegister_ok [OF assms(7-9)]) (use assms(10-13,15) in auto)
  obtain share where share: "decodeBase64 plain = Inr share"
      "encryptShare (re_crypto env) (rr_shareNonce rnd) (rr_masterKey rnd) share = Inr txt"
    using uploadShare_ok [OF reg(3)] assms(14) by auto
  obtain enc where enc: "decodeBase64 txt = Inr enc" "decryptShare (re_crypto env) enc (rr_masterKey rnd) = Inr share"
    by (rule decryptShare_uploaded [OF assms(1) rnd(3,1) share(2)])
  have master: "unlockMaster uenv b' = (Inr (rr_masterKey rnd), b')"
    by (rule unlockMaster_served [OF assms(16) storedUser_login [OF reg(2)] _ _ _ _ _ rnd(2)])
      (use assms(1-4) registered_wrap [OF assms(4) reg(1)] in \<open>simp_all add: dev signedInUser_def\<close>)
  obtain i fx' c' h payload where w: "initWorker (ue_showNum uenv) (ue_fetch uenv) (ue_crypto uenv) (rr_masterKey rnd) (fx, b') = (Inr i, fx', b')"
      "fx_client fx' = Some c'" "c_posted c' = c_posted c @ [(h, MInit payload)]" "ip_share payload = JsU8 share"
    by (rule initWorker_posts [OF assms(16) enc(1) enc(2) [folded dev(1)] assms(17)])
  have "handleWebAuthnAuth uenv (d, fx, b') = (Some i, d\<lparr>ud_authenticating := True, ud_error := None\<rparr>, fx', b')"
    by (simp add: handleWebAuthnAuth_def master w(1) unlockBegin_def)
  then show ?thesis using w(2-4) share(1) by blast
qed

theorem registration_then_unlock_witness:
  "let (i, d', fx', b') = handleWebAuthnAuth toy_unlock_env (toy_dialog, mountFROST, toy_signed_in)
   in \<exists>c h payload. fx_client fx' = Some c \<and> c_posted c = [(h, MInit payload)] \<and> ip_share payload = JsU8 [7]"
proof -
  have dev: "sameDevice toy_reg_env toy_unlock_env" "randomOk toy_random" by (simp_all add: sameDevice_def toy_reg_env_def toy_unlock_env_def randomOk_def toy_random_def)
  have env: "re_crypto toy_reg_env = toy_webcrypto" "re_auth toy_reg_env = toy_authenticator" by (simp_all add: toy_reg_env_def)
  have fx: "fx_client mountFROST = Some newFROSTClient" by (simp add: mountFROST_def)
  have nav: "rp_navigate toy_register_page = None" by (simp add: toy_register_page_def)
  have serve: "servesAccount toy_unlock_env toy_signed_in (signedInUser (js ''e'') (Some (JStr (js ''t'')))) (rr_masterKey toy_random)
      (cr_rawId toy_credential) toy_blob1 toy_share1"
    using toy_servesAccount by (simp add: toy_random_def toy_credential_def)
  have posted: "c_posted newFROSTClient = []" by (simp add: newFROSTClient_def spawnWorker_def)
  note t = registration_then_unlock [OF _ _ _ _ dev toy_handleRegister nav _ _ _ _ toy_members(1,2) _ serve fx, of "\<lambda>c s. [5]" toy_dialog]
  show ?thesis
    using t toy_webcrypto_ok toy_prf decodeBase64_b64enc [of "[7]"] posted by (fastforce simp: env simp del: decodeBase64_b64enc)
qed

end
